theory Spec2Isabelle
  imports Main "HOL-Library.Multiset"
begin

section \<open>HarborMaster: the sync orchestration engine\<close>

text \<open>
  A shallow embedding of the Go packages \<^verbatim>\<open>pkg/types\<close>, \<^verbatim>\<open>pkg/config\<close>,
  \<^verbatim>\<open>pkg/lockfile\<close>, \<^verbatim>\<open>pkg/downloader\<close> and \<^verbatim>\<open>pkg/manager\<close>.

  Conventions.
  \<^item> A Go \<^verbatim>\<open>string\<close> is a \<open>string\<close> (a list of bytes); a Go \<^verbatim>\<open>int\<close>, \<^verbatim>\<open>int64\<close> or
    \<^verbatim>\<open>time.Duration\<close> is an \<open>int\<close> (no computation here comes near 64 bits).
  \<^item> A Go \<^verbatim>\<open>error\<close> is an \<open>error option\<close>: \<open>None\<close> is \<^verbatim>\<open>nil\<close>. Every
    \<^verbatim>\<open>fmt.Errorf\<close> of the sources is a constructor of \<open>error\<close>, with the wrapped
    error as its argument.
  \<^item> A run-time panic (slicing a string beyond its length) is the value \<open>Panic\<close>.
  \<^item> What the operating system, the network and the \<^verbatim>\<open>git\<close> binary answer is read
    from a record \<open>World\<close> of oracles; what the program does to them is returned as a
    list of \<open>effect\<close>s, in program order.
  \<^item> Wall-clock readings, the \<^verbatim>\<open>float64\<close> percentage of a UI message and the bytes
    written to the file system are not modelled: no property below reads them.
\<close>

subsection \<open>Errors and panics\<close>

datatype error =
    ErrExternal string
  | ErrEOF
  | ErrNoLockEntry
  | ErrCreateDownloader error
  | ErrUnknownRepoType string
  | ErrSourceNotSet
  | ErrGetCurrentRef error
  | ErrSHAMismatch string string
  | ErrRepoNotFound string
  | ErrProjectNotFound string
  | ErrRepoNotInProject string string
  | ErrWorkDir error
  | ErrCreateDir error
  | ErrHTTPStatus int
  | ErrWriteFile error
  | ErrDownloadAttempts int "error option"
  | ErrDownloadFailed "error option"
  | ErrClone error string
  | ErrPipe error
  | ErrStartGit error
  | ErrCloneFailed error
  | ErrFetch error string
  | ErrFetchFailed error
  | ErrCheckout string error string
  | ErrHeadSHA error

datatype 'a outcome = Panic | Ret 'a

text \<open>Go's \<^verbatim>\<open>s[:n]\<close> on a string: the first \<open>n\<close> bytes, and a panic when the string is shorter.\<close>

definition slice_to :: "string \<Rightarrow> nat \<Rightarrow> string outcome" where
  "slice_to s n = (if length s < n then Panic else Ret (take n s))"

subsection \<open>Package types\<close>

type_synonym ProgressPhase = string

definition PhaseInit :: ProgressPhase where "PhaseInit = ''initializing''"
definition PhaseConnecting :: ProgressPhase where "PhaseConnecting = ''connecting''"
definition PhaseFetching :: ProgressPhase where "PhaseFetching = ''fetching''"
definition PhaseCheckout :: ProgressPhase where "PhaseCheckout = ''checkout''"
definition PhaseComplete :: ProgressPhase where "PhaseComplete = ''complete''"
definition PhaseFailed :: ProgressPhase where "PhaseFailed = ''failed''"

record ProgressUpdate =
  Phase :: ProgressPhase
  BytesTotal :: int
  BytesDone :: int
  ObjectsTotal :: int
  ObjectsDone :: int
  Message :: string
  Error :: "error option"

text \<open>A struct literal leaves the fields it does not name at their zero value.\<close>

definition ProgressUpdate_zero :: ProgressUpdate where
  "ProgressUpdate_zero =
     \<lparr>Phase = [], BytesTotal = 0, BytesDone = 0, ObjectsTotal = 0, ObjectsDone = 0,
      Message = [], Error = None\<rparr>"

definition IsComplete :: "ProgressUpdate \<Rightarrow> bool" where
  "IsComplete p = (Phase p = PhaseComplete \<or> Phase p = PhaseFailed)"

text \<open>Of \<^verbatim>\<open>ProgressMsg\<close> the fields the manager fills from the update are kept; the
  percentage and the time stamps, which only the display reads, are left out.\<close>

record ProgressMsg =
  RepoName :: string
  RepoURL :: string
  Phase :: ProgressPhase
  Message :: string
  Error :: "error option"

record OperationResult =
  RepoName :: string
  RepoURL :: string
  Success :: bool
  Error :: "error option"
  Duration :: int
  CommitSHA :: string
  Branch :: string
  Tag :: string

record SyncResult =
  TotalRepos :: int
  SuccessCount :: int
  FailureCount :: int
  Results :: "OperationResult list"
  Duration :: int

definition SyncResult_zero :: SyncResult where
  "SyncResult_zero =
     \<lparr>TotalRepos = 0, SuccessCount = 0, FailureCount = 0, Results = [], Duration = 0\<rparr>"

fun count_results :: "SyncResult \<Rightarrow> OperationResult list \<Rightarrow> SyncResult" where
  "count_results sr [] = sr"
| "count_results sr (r # rs) =
     count_results
       (if Success r then sr\<lparr>SuccessCount := SuccessCount sr + 1\<rparr>
        else sr\<lparr>FailureCount := FailureCount sr + 1\<rparr>) rs"

definition NewSyncResult :: "OperationResult list \<Rightarrow> int \<Rightarrow> SyncResult" where
  "NewSyncResult results duration =
     count_results
       \<lparr>TotalRepos = int (length results), SuccessCount = 0, FailureCount = 0,
        Results = results, Duration = duration\<rparr> results"

definition HasFailures :: "SyncResult \<Rightarrow> bool" where
  "HasFailures sr = (FailureCount sr > 0)"

subsection \<open>Package config\<close>

type_synonym RepositoryType = string

definition RepoTypeGit :: RepositoryType where "RepoTypeGit = ''git''"
definition RepoTypeHTTP :: RepositoryType where "RepoTypeHTTP = ''http''"

record Repository =
  Name :: string
  URL :: string
  Type :: RepositoryType
  Path :: string
  Branch :: string
  Tag :: string
  Commit :: string
  Shallow :: "bool option"
  Depth :: "int option"
  Submodules :: "bool option"
  Tags :: "string list"

record Project =
  Name :: string
  Repositories :: "string list"
  Tags :: "string list"

record GeneralConfig =
  WorkDir :: string
  CacheDir :: string
  Timeout :: int
  DefaultBranch :: string
  RecurseSubmodule :: bool

record HTTPConfig =
  UserAgent :: string
  RetryAttempts :: int
  RetryDelay :: int

record GitConfig =
  ShallowClone :: bool
  CloneDepth :: int

record Config =
  General :: GeneralConfig
  HTTP :: HTTPConfig
  Git :: GitConfig
  Repositories :: "Repository list"
  Projects :: "Project list"

definition GetEffectiveRef :: "Repository \<Rightarrow> string \<Rightarrow> string" where
  "GetEffectiveRef r defaultBranch =
     (if Commit r \<noteq> [] then Commit r
      else if Repository.Tag r \<noteq> [] then Repository.Tag r
      else if Repository.Branch r \<noteq> [] then Repository.Branch r
      else defaultBranch)"

definition GetEffectivePath :: "Repository \<Rightarrow> string" where
  "GetEffectivePath r = (if Path r \<noteq> [] then Path r else Repository.Name r)"

definition IsShallow :: "Repository \<Rightarrow> bool \<Rightarrow> bool" where
  "IsShallow r defaultShallow = (case Shallow r of Some b \<Rightarrow> b | None \<Rightarrow> defaultShallow)"

definition GetDepth :: "Repository \<Rightarrow> int \<Rightarrow> int" where
  "GetDepth r defaultDepth = (case Depth r of Some d \<Rightarrow> d | None \<Rightarrow> defaultDepth)"

definition HasSubmodules :: "Repository \<Rightarrow> bool \<Rightarrow> bool" where
  "HasSubmodules r defaultSubmodules =
     (case Submodules r of Some b \<Rightarrow> b | None \<Rightarrow> defaultSubmodules)"

definition GetRepository :: "Config \<Rightarrow> string \<Rightarrow> Repository option" where
  "GetRepository c name = find (\<lambda>r. Repository.Name r = name) (Config.Repositories c)"

definition GetProject :: "Config \<Rightarrow> string \<Rightarrow> Project option" where
  "GetProject c name = find (\<lambda>p. Project.Name p = name) (Projects c)"

fun project_repos :: "Config \<Rightarrow> string \<Rightarrow> string list \<Rightarrow> error + Repository list" where
  "project_repos c projectName [] = Inr []"
| "project_repos c projectName (repoName # rest) =
     (case GetRepository c repoName of
        None \<Rightarrow> Inl (ErrRepoNotInProject repoName projectName)
      | Some repo \<Rightarrow>
          (case project_repos c projectName rest of
             Inl e \<Rightarrow> Inl e
           | Inr repos \<Rightarrow> Inr (repo # repos)))"

definition GetRepositoriesForProject :: "Config \<Rightarrow> string \<Rightarrow> error + Repository list" where
  "GetRepositoriesForProject c projectName =
     (case GetProject c projectName of
        None \<Rightarrow> Inl (ErrProjectNotFound projectName)
      | Some project \<Rightarrow> project_repos c projectName (Project.Repositories project))"

definition GetRepositoriesByTag :: "Config \<Rightarrow> string \<Rightarrow> Repository list" where
  "GetRepositoriesByTag c tag = filter (\<lambda>repo. tag \<in> set (Repository.Tags repo)) (Config.Repositories c)"

subsection \<open>Package lockfile\<close>

record SubmoduleLock =
  Path :: string
  URL :: string
  ResolvedSHA :: string

record LockEntry =
  URL :: string
  Type :: string
  RequestedRef :: string
  ResolvedSHA :: string
  LastSyncedAt :: int
  Submodules :: "SubmoduleLock list"

record LockFile =
  Version :: int
  GeneratedAt :: int
  Entries :: "string \<rightharpoonup> LockEntry"
  path :: string

definition Update :: "LockFile \<Rightarrow> string \<Rightarrow> LockEntry \<Rightarrow> LockFile" where
  "Update lf name entry = lf\<lparr>Entries := (Entries lf)(name \<mapsto> entry)\<rparr>"

definition Get :: "LockFile \<Rightarrow> string \<Rightarrow> LockEntry option" where
  "Get lf name = Entries lf name"

definition Remove :: "LockFile \<Rightarrow> string \<Rightarrow> LockFile \<times> bool" where
  "Remove lf name =
     (case Entries lf name of
        Some _ \<Rightarrow> (lf\<lparr>Entries := (Entries lf)(name := None)\<rparr>, True)
      | None \<Rightarrow> (lf, False))"

definition Has :: "LockFile \<Rightarrow> string \<Rightarrow> bool" where
  "Has lf name = (Entries lf name \<noteq> None)"

definition ShouldUpdate :: "LockFile \<Rightarrow> string \<Rightarrow> string \<Rightarrow> bool" where
  "ShouldUpdate lf name requestedRef =
     (case Entries lf name of
        None \<Rightarrow> True
      | Some entry \<Rightarrow> RequestedRef entry \<noteq> requestedRef)"

text \<open>\<^verbatim>\<open>GetResolvedSHA\<close> returns \<^verbatim>\<open>(sha, ok)\<close>: \<open>None\<close> is \<^verbatim>\<open>ok == false\<close>.\<close>

definition GetResolvedSHA :: "LockFile \<Rightarrow> string \<Rightarrow> string option" where
  "GetResolvedSHA lf name =
     (case Entries lf name of
        None \<Rightarrow> None
      | Some entry \<Rightarrow> Some (LockEntry.ResolvedSHA entry))"

text \<open>\<^verbatim>\<open>NewEntry\<close> stamps the entry with \<^verbatim>\<open>time.Now()\<close>, here the argument \<open>now\<close>.\<close>

definition NewEntry :: "int \<Rightarrow> string \<Rightarrow> string \<Rightarrow> string \<Rightarrow> string \<Rightarrow> LockEntry" where
  "NewEntry now url repoType requestedRef resolvedSHA =
     \<lparr>URL = url, Type = repoType, RequestedRef = requestedRef, ResolvedSHA = resolvedSHA,
      LastSyncedAt = now, Submodules = []\<rparr>"

subsection \<open>The environment\<close>

text \<open>
  One run of \<^verbatim>\<open>git\<close>: whether the stderr pipe and the start succeed, the progress
  tokens the scanner cuts from stderr (split at CR and LF by \<^verbatim>\<open>scanGitProgress\<close>),
  the bytes \<^verbatim>\<open>Output\<close> or \<^verbatim>\<open>CombinedOutput\<close> return, and the exit error.
\<close>

record Proc =
  PipeErr :: "error option"
  StartErr :: "error option"
  StderrTokens :: "string list"
  Output :: string
  ExitErr :: "error option"

text \<open>
  One HTTP exchange with the file it is written to, as \<^verbatim>\<open>downloadFile\<close> meets them:
  the request, the response head, the reads of the body (\<open>BodyReads\<close>: those that return
  no error; \<open>LastRead\<close> with \<open>ReadErr\<close>: the final one, which returns \<^verbatim>\<open>io.EOF\<close> or
  another error), and the results of creating, writing (by the index of the write)
  and closing the destination.
\<close>

record Exchange =
  RequestErr :: "error option"
  DoErr :: "error option"
  StatusCode :: int
  ContentLength :: int
  BodyReads :: "string list"
  LastRead :: string
  ReadErr :: error
  CreateErr :: "error option"
  WriteErr :: "nat \<Rightarrow> error option"
  CloseErr :: "error option"

text \<open>
  The oracles: the file system (\<open>MkdirAll\<close>, \<open>Stat\<close>), \<^verbatim>\<open>git\<close> by its arguments and
  working directory, the \<open>k\<close>-th GET of a URL within one call, whether a non-blocking
  send finds room in the channel's buffer (by the number of earlier channel operations),
  the order in which a \<^verbatim>\<open>range\<close> visits a map, two clocks, the content of a file, and
  the library functions \<^verbatim>\<open>filepath.Join\<close>, \<^verbatim>\<open>filepath.Dir\<close>, the hexadecimal SHA-256
  digest, the decimal rendering of \<^verbatim>\<open>%d\<close>, \<^verbatim>\<open>strings.TrimSpace\<close>, the submatches of
  \<^verbatim>\<open>percentRegex\<close> and the integer \<^verbatim>\<open>fmt.Sscanf\<close> leaves in its target.
\<close>

record World =
  MkdirAll :: "string \<Rightarrow> error option"
  Stat :: "string \<Rightarrow> bool"
  Git :: "string list \<Rightarrow> string \<Rightarrow> Proc"
  HttpGet :: "string \<Rightarrow> nat \<Rightarrow> Exchange"
  Room :: "nat \<Rightarrow> bool"
  MapRange :: "Repository list \<Rightarrow> Repository list"
  Since :: "string \<Rightarrow> int"
  Now :: "string \<Rightarrow> int"
  Join :: "string \<Rightarrow> string \<Rightarrow> string"
  Dir :: "string \<Rightarrow> string"
  Sha256Hex :: "string \<Rightarrow> string"
  ReadFile :: "string \<Rightarrow> error + string"
  Itoa :: "int \<Rightarrow> string"
  TrimSpace :: "string \<Rightarrow> string"
  FindStringSubmatch :: "string \<Rightarrow> string list"
  Sscanf :: "string \<Rightarrow> int"

datatype effect =
    EMkdirAll string
  | EStat string
  | ESleep int
  | ENewRequest string
  | EHttpDo string string
  | EGit "string list" string
  | ELockGet string
  | ELockUpdate string
  | ELockSave string
  | EUIStart
  | EUISend ProgressMsg
  | EUIComplete

subsection \<open>Package downloader: options and the plain-file transport\<close>

record Options =
  Branch :: string
  Tag :: string
  Commit :: string
  Depth :: int
  Shallow :: bool
  Submodules :: bool
  UserAgent :: string
  RetryAttempts :: int
  RetryDelay :: int
  Timeout :: int

record HTTPDownloader =
  options :: Options
  source :: string

definition NewHTTPDownloader :: "Options \<Rightarrow> HTTPDownloader" where
  "NewHTTPDownloader opts = \<lparr>options = opts, source = []\<rparr>"

text \<open>
  \<^verbatim>\<open>io.Copy(writer, resp.Body)\<close> and the read loop of \<^verbatim>\<open>downloadFileWithProgress\<close>:
  every read that brings bytes is written; the first failing write ends the copy with
  its error. The argument \<open>i\<close> is the index of the next write.
\<close>

fun write_reads :: "Exchange \<Rightarrow> nat \<Rightarrow> string list \<Rightarrow> error option" where
  "write_reads x i [] = None"
| "write_reads x i (b # bs) =
     (if b = [] then write_reads x i bs
      else (case WriteErr x i of
              Some werr \<Rightarrow> Some werr
            | None \<Rightarrow> write_reads x (Suc i) bs))"

definition copy_body :: "Exchange \<Rightarrow> error option" where
  "copy_body x =
     (case write_reads x 0 (BodyReads x @ [LastRead x]) of
        Some werr \<Rightarrow> Some werr
      | None \<Rightarrow> (if ReadErr x = ErrEOF then None else Some (ReadErr x)))"

definition downloadFile ::
  "World \<Rightarrow> HTTPDownloader \<Rightarrow> string \<Rightarrow> string \<Rightarrow> nat \<Rightarrow> effect list \<times> (error + string)" where
  "downloadFile w h src destination k =
     (let x = HttpGet w src k in
      case RequestErr x of
        Some err \<Rightarrow> ([ENewRequest src], Inl err)
      | None \<Rightarrow>
          ([ENewRequest src, EHttpDo src (Options.UserAgent (HTTPDownloader.options h))],
           case DoErr x of
             Some err \<Rightarrow> Inl err
           | None \<Rightarrow>
               if StatusCode x \<noteq> 200 then Inl (ErrHTTPStatus (StatusCode x))
               else (case CreateErr x of
                       Some err \<Rightarrow> Inl err
                     | None \<Rightarrow>
                         (case copy_body x of
                            Some err \<Rightarrow> Inl err
                          | None \<Rightarrow>
                              (case CloseErr x of
                                 Some err \<Rightarrow> Inl (ErrWriteFile err)
                               | None \<Rightarrow>
                                   Inr (Sha256Hex w (concat (BodyReads x) @ LastRead x)))))))"

text \<open>
  The retry loop of \<^verbatim>\<open>Download\<close>:
  \<^verbatim>\<open>for attempt := 0; attempt <= h.options.RetryAttempts; attempt++\<close>, entered with
  \<open>attempt\<close> and \<open>lastErr\<close> as they stand at the loop head.
\<close>

function Download_loop ::
  "World \<Rightarrow> HTTPDownloader \<Rightarrow> string \<Rightarrow> string \<Rightarrow> int \<Rightarrow> error option
     \<Rightarrow> effect list \<times> (error + string)" where
  "Download_loop w h src destination attempt lastErr =
     (if attempt \<le> Options.RetryAttempts (HTTPDownloader.options h) then
        (let pause = (if attempt > 0 then [ESleep (Options.RetryDelay (HTTPDownloader.options h))] else []);
             fetched = downloadFile w h src destination (nat attempt)
         in case snd fetched of
              Inr hash \<Rightarrow> (pause @ fst fetched, Inr hash)
            | Inl err \<Rightarrow>
                (let later = Download_loop w h src destination (attempt + 1) (Some err)
                 in (pause @ fst fetched @ fst later, snd later)))
      else ([], Inl (ErrDownloadAttempts (Options.RetryAttempts (HTTPDownloader.options h) + 1) lastErr)))"
  by pat_completeness auto
termination
  by (relation "measure (\<lambda>(w, h, src, destination, attempt, lastErr).
        nat (Options.RetryAttempts (HTTPDownloader.options h) + 1 - attempt))") auto

text \<open>\<^verbatim>\<open>Download\<close> records the source on the receiver, which is returned first.\<close>

definition Download ::
  "World \<Rightarrow> HTTPDownloader \<Rightarrow> string \<Rightarrow> string
     \<Rightarrow> HTTPDownloader \<times> effect list \<times> (error + string)" where
  "Download w h src destination =
     (let h' = h\<lparr>HTTPDownloader.source := src\<rparr> in
      case MkdirAll w (Dir w destination) of
        Some err \<Rightarrow> (h', [EMkdirAll (Dir w destination)], Inl (ErrCreateDir err))
      | None \<Rightarrow>
          (let run = Download_loop w h' src destination 0 None
           in (h', EMkdirAll (Dir w destination) # fst run, snd run)))"

definition HTTP_Update ::
  "World \<Rightarrow> HTTPDownloader \<Rightarrow> string \<Rightarrow> HTTPDownloader \<times> effect list \<times> (error + string)" where
  "HTTP_Update w h destination =
     (if HTTPDownloader.source h = [] then (h, [], Inl ErrSourceNotSet)
      else Download w h (HTTPDownloader.source h) destination)"

subsection \<open>Progress channels\<close>

text \<open>
  What a goroutine does to its progress channel, in program order: a blocking send
  \<^verbatim>\<open>progress <- u\<close>, a non-blocking one (\<^verbatim>\<open>select\<close> with an empty \<^verbatim>\<open>default\<close>), and
  \<^verbatim>\<open>close(progress)\<close>.
\<close>

datatype chan_op = Send ProgressUpdate | TrySend ProgressUpdate | Close

text \<open>
  A call \<^verbatim>\<open>(sha, progressCh, err) := dl.DownloadWithProgress(...)\<close> returns at once; the
  work is done by a goroutine. \<open>channel\<close> is \<open>None\<close> for a nil channel and otherwise what
  the goroutine does to the channel; \<open>background\<close> is what it does to the outside.
\<close>

record Started =
  first_sha :: string
  channel :: "chan_op list option"
  failure :: "error option"
  background :: "effect list"

text \<open>
  What \<^verbatim>\<open>for update := range progressCh\<close> receives when it runs to the closing of the
  channel: every blocking send, and each non-blocking send that found room (\<open>room i\<close>
  for the channel operation number \<open>i\<close>).
\<close>

fun received :: "(nat \<Rightarrow> bool) \<Rightarrow> nat \<Rightarrow> chan_op list \<Rightarrow> ProgressUpdate list" where
  "received room i [] = []"
| "received room i (Send u # ops) = u # received room (Suc i) ops"
| "received room i (TrySend u # ops) =
     (if room i then u # received room (Suc i) ops else received room (Suc i) ops)"
| "received room i (Close # ops) = []"

definition progress_update :: "ProgressPhase \<Rightarrow> string \<Rightarrow> ProgressUpdate" where
  "progress_update phase msg =
     ProgressUpdate_zero\<lparr>ProgressUpdate.Phase := phase, ProgressUpdate.Message := msg\<rparr>"

definition progress_failed :: "error \<Rightarrow> ProgressUpdate" where
  "progress_failed e =
     ProgressUpdate_zero\<lparr>ProgressUpdate.Phase := PhaseFailed, ProgressUpdate.Error := Some e\<rparr>"

subsection \<open>The plain-file transport with progress\<close>

text \<open>The read loop of \<^verbatim>\<open>downloadFileWithProgress\<close>; \<open>i\<close> is the index of the next write and
  \<open>done\<close> the bytes written so far.\<close>

fun read_loop :: "Exchange \<Rightarrow> nat \<Rightarrow> int \<Rightarrow> string list \<Rightarrow> chan_op list \<times> error option" where
  "read_loop x i done [] = ([], None)"
| "read_loop x i done (b # bs) =
     (if b = [] then read_loop x i done bs
      else (case WriteErr x i of
              Some werr \<Rightarrow> ([], Some werr)
            | None \<Rightarrow>
                (let done' = done + int (length b);
                     tick = (if ContentLength x > 0
                             then [TrySend (ProgressUpdate_zero
                                     \<lparr>ProgressUpdate.Phase := PhaseFetching, BytesTotal := ContentLength x,
                                      BytesDone := done'\<rparr>)]
                             else []);
                     later = read_loop x (Suc i) done' bs
                 in (tick @ fst later, snd later))))"

definition downloadFileWithProgress ::
  "World \<Rightarrow> HTTPDownloader \<Rightarrow> string \<Rightarrow> string \<Rightarrow> nat
     \<Rightarrow> chan_op list \<times> effect list \<times> (error + string)" where
  "downloadFileWithProgress w h src destination k =
     (let x = HttpGet w src k in
      case RequestErr x of
        Some err \<Rightarrow> ([], [ENewRequest src], Inl err)
      | None \<Rightarrow>
          (let effs = [ENewRequest src, EHttpDo src (Options.UserAgent (HTTPDownloader.options h))] in
           case DoErr x of
             Some err \<Rightarrow> ([], effs, Inl err)
           | None \<Rightarrow>
               if StatusCode x \<noteq> 200 then ([], effs, Inl (ErrHTTPStatus (StatusCode x)))
               else
                 (let fetching = Send (progress_update PhaseFetching ''Downloading...'') in
                  case CreateErr x of
                    Some err \<Rightarrow> ([fetching], effs, Inl err)
                  | None \<Rightarrow>
                      (let body = read_loop x 0 0 (BodyReads x @ [LastRead x]) in
                       case snd body of
                         Some werr \<Rightarrow> (fetching # fst body, effs, Inl werr)
                       | None \<Rightarrow>
                           if ReadErr x \<noteq> ErrEOF then (fetching # fst body, effs, Inl (ReadErr x))
                           else (case CloseErr x of
                                   Some err \<Rightarrow> (fetching # fst body, effs, Inl (ErrWriteFile err))
                                 | None \<Rightarrow>
                                     (fetching # fst body, effs,
                                      Inr (Sha256Hex w (concat (BodyReads x) @ LastRead x))))))))"

text \<open>The retry loop inside the goroutine of \<^verbatim>\<open>HTTPDownloader.DownloadWithProgress\<close>, with
  the terminal event that follows it.\<close>

function progress_loop ::
  "World \<Rightarrow> HTTPDownloader \<Rightarrow> string \<Rightarrow> string \<Rightarrow> int \<Rightarrow> error option
     \<Rightarrow> chan_op list \<times> effect list" where
  "progress_loop w h src destination attempt lastErr =
     (if attempt \<le> Options.RetryAttempts (HTTPDownloader.options h) then
        (let retrying =
               (if attempt > 0
                then [Send (progress_update PhaseConnecting
                        (''Retrying ('' @ Itoa w attempt @ ''/''
                           @ Itoa w (Options.RetryAttempts (HTTPDownloader.options h)) @ '')...''))]
                else []);
             pause = (if attempt > 0 then [ESleep (Options.RetryDelay (HTTPDownloader.options h))] else []);
             fetched = downloadFileWithProgress w h src destination (nat attempt)
         in case snd (snd fetched) of
              Inr hash \<Rightarrow>
                (retrying @ fst fetched @ [Send (progress_update PhaseComplete hash)],
                 pause @ fst (snd fetched))
            | Inl err \<Rightarrow>
                (let later = progress_loop w h src destination (attempt + 1) (Some err)
                 in (retrying @ fst fetched @ fst later, pause @ fst (snd fetched) @ snd later)))
      else ([Send (progress_failed (ErrDownloadFailed lastErr))], []))"
  by pat_completeness auto
termination
  by (relation "measure (\<lambda>(w, h, src, destination, attempt, lastErr).
        nat (Options.RetryAttempts (HTTPDownloader.options h) + 1 - attempt))") auto

definition HTTP_DownloadWithProgress ::
  "World \<Rightarrow> HTTPDownloader \<Rightarrow> string \<Rightarrow> string \<Rightarrow> HTTPDownloader \<times> Started" where
  "HTTP_DownloadWithProgress w h src destination =
     (let h' = h\<lparr>HTTPDownloader.source := src\<rparr>;
          connecting = Send (progress_update PhaseConnecting ''Connecting...'');
          body =
            (case MkdirAll w (Dir w destination) of
               Some err \<Rightarrow>
                 ([connecting, Send (progress_failed (ErrCreateDir err))],
                  [EMkdirAll (Dir w destination)])
             | None \<Rightarrow>
                 (let run = progress_loop w h' src destination 0 None
                  in (connecting # fst run, EMkdirAll (Dir w destination) # snd run)))
      in (h', \<lparr>first_sha = [], channel = Some (fst body @ [Close]), failure = None,
               background = snd body\<rparr>))"

definition HTTP_UpdateWithProgress ::
  "World \<Rightarrow> HTTPDownloader \<Rightarrow> string \<Rightarrow> HTTPDownloader \<times> Started" where
  "HTTP_UpdateWithProgress w h destination =
     (if HTTPDownloader.source h = []
      then (h, \<lparr>first_sha = [], channel = None, failure = Some ErrSourceNotSet, background = []\<rparr>)
      else HTTP_DownloadWithProgress w h (HTTPDownloader.source h) destination)"

definition hashFile :: "World \<Rightarrow> string \<Rightarrow> error + string" where
  "hashFile w p = (case ReadFile w p of Inl err \<Rightarrow> Inl err | Inr bytes \<Rightarrow> Inr (Sha256Hex w bytes))"

definition HTTP_GetCurrentRef :: "World \<Rightarrow> HTTPDownloader \<Rightarrow> string \<Rightarrow> error + string" where
  "HTTP_GetCurrentRef w h destination = hashFile w destination"

subsection \<open>The version-control transport\<close>

record GitDownloader =
  options :: Options
  source :: string

definition NewGitDownloader :: "Options \<Rightarrow> GitDownloader" where
  "NewGitDownloader opts = \<lparr>options = opts, source = []\<rparr>"

text \<open>\<^verbatim>\<open>CombinedOutput\<close> and \<^verbatim>\<open>Output\<close> start the command and wait for it: their error is the
  start's or else the exit's.\<close>

definition run_err :: "Proc \<Rightarrow> error option" where
  "run_err p = (case StartErr p of Some err \<Rightarrow> Some err | None \<Rightarrow> ExitErr p)"

definition checkoutRef :: "World \<Rightarrow> GitDownloader \<Rightarrow> string \<Rightarrow> effect list \<times> error option" where
  "checkoutRef w g destination =
     (let opts = GitDownloader.options g;
          checkout = (\<lambda>ref.
            (let args = [''checkout'', ''--force'', ref]
             in ([EGit args destination],
                 case run_err (Git w args destination) of
                   Some err \<Rightarrow> Some (ErrCheckout ref err (Output (Git w args destination)))
                 | None \<Rightarrow> None)))
      in if Options.Commit opts \<noteq> [] then checkout (Options.Commit opts)
         else if Options.Tag opts \<noteq> [] then checkout (Options.Tag opts)
         else if Options.Branch opts \<noteq> [] then checkout (''origin/'' @ Options.Branch opts)
         else ([], None))"

definition getHeadSHA :: "World \<Rightarrow> string \<Rightarrow> effect list \<times> (error + string)" where
  "getHeadSHA w destination =
     (let args = [''rev-parse'', ''HEAD'']
      in ([EGit args destination],
          case run_err (Git w args destination) of
            Some err \<Rightarrow> Inl (ErrHeadSHA err)
          | None \<Rightarrow> Inr (TrimSpace w (Output (Git w args destination)))))"

text \<open>The flags that \<^verbatim>\<open>Download\<close> and \<^verbatim>\<open>DownloadWithProgress\<close> both append to the clone
  command, each with the same three \<^verbatim>\<open>if\<close> statements.\<close>

definition clone_flags :: "World \<Rightarrow> Options \<Rightarrow> string list" where
  "clone_flags w opts =
     (if Options.Shallow opts \<and> Options.Depth opts > 0
      then [''--depth'', Itoa w (Options.Depth opts)] else [])
     @ (if Options.Branch opts \<noteq> [] \<and> Options.Tag opts = [] \<and> Options.Commit opts = []
        then [''--branch'', Options.Branch opts, ''--single-branch''] else [])
     @ (if Options.Submodules opts then [''--recurse-submodules''] else [])"

definition Git_Download ::
  "World \<Rightarrow> GitDownloader \<Rightarrow> string \<Rightarrow> string
     \<Rightarrow> GitDownloader \<times> effect list \<times> (error + string)" where
  "Git_Download w g src destination =
     (let g' = g\<lparr>GitDownloader.source := src\<rparr>;
          opts = GitDownloader.options g;
          args = [''clone''] @ clone_flags w opts @ [src, destination]
      in case run_err (Git w args []) of
           Some err \<Rightarrow> (g', [EGit args []], Inl (ErrClone err (Output (Git w args []))))
         | None \<Rightarrow>
             (let checked = checkoutRef w g' destination in
              case snd checked of
                Some err \<Rightarrow> (g', EGit args [] # fst checked, Inl err)
              | None \<Rightarrow>
                  (let head = getHeadSHA w destination
                   in (g', EGit args [] # fst checked @ fst head, snd head))))"

definition extractPercentage :: "World \<Rightarrow> string \<Rightarrow> int" where
  "extractPercentage w s =
     (let matches = FindStringSubmatch w s
      in if length matches \<ge> 2 then Sscanf w (matches ! 1) else - 1)"

text \<open>The scanner loop over the progress tokens of \<^verbatim>\<open>git\<close>'s stderr.\<close>

fun scan_progress :: "World \<Rightarrow> string list \<Rightarrow> chan_op list" where
  "scan_progress w [] = []"
| "scan_progress w (line # lines) =
     (if line = [] then scan_progress w lines
      else (let update = progress_update PhaseFetching line;
                pct = extractPercentage w line;
                update' = (if pct \<ge> 0 then update\<lparr>BytesDone := pct, BytesTotal := 100\<rparr> else update)
            in TrySend update' # scan_progress w lines))"

text \<open>The goroutine of \<^verbatim>\<open>GitDownloader.DownloadWithProgress\<close>, from the first send to the
  last, for the clone command \<open>args\<close>.\<close>

definition clone_goroutine ::
  "World \<Rightarrow> GitDownloader \<Rightarrow> string list \<Rightarrow> string \<Rightarrow> chan_op list \<times> effect list" where
  "clone_goroutine w g args destination =
     (let opts = GitDownloader.options g;
          connecting = Send (progress_update PhaseConnecting ''Connecting to remote...'');
          fetching = Send (progress_update PhaseFetching ''Cloning repository...'');
          p = Git w args []
      in case PipeErr p of
           Some err \<Rightarrow> ([connecting, fetching, Send (progress_failed (ErrPipe err))], [])
         | None \<Rightarrow>
             (case StartErr p of
                Some err \<Rightarrow>
                  ([connecting, fetching, Send (progress_failed (ErrStartGit err))], [EGit args []])
              | None \<Rightarrow>
                  (let scanned = scan_progress w (StderrTokens p) in
                   case ExitErr p of
                     Some err \<Rightarrow>
                       ([connecting, fetching] @ scanned
                          @ [Send (progress_failed (ErrCloneFailed err))],
                        [EGit args []])
                   | None \<Rightarrow>
                       (let pinned = (Options.Commit opts \<noteq> [] \<or> Options.Tag opts \<noteq> []);
                            announce = (if pinned
                                        then [Send (progress_update PhaseCheckout ''Checking out ref...'')]
                                        else []);
                            checked = (if pinned then checkoutRef w g destination else ([], None))
                        in case snd checked of
                             Some err \<Rightarrow>
                               ([connecting, fetching] @ scanned @ announce
                                  @ [Send (progress_failed err)],
                                EGit args [] # fst checked)
                           | None \<Rightarrow>
                               (let head = getHeadSHA w destination in
                                case snd head of
                                  Inl err \<Rightarrow>
                                    ([connecting, fetching] @ scanned @ announce
                                       @ [Send (progress_failed err)],
                                     EGit args [] # fst checked @ fst head)
                                | Inr sha \<Rightarrow>
                                    ([connecting, fetching] @ scanned @ announce
                                       @ [Send (progress_update PhaseComplete sha)],
                                     EGit args [] # fst checked @ fst head))))))"

text \<open>\<^verbatim>\<open>defer close(progress)\<close> closes the channel when the goroutine ends.\<close>

definition Git_DownloadWithProgress ::
  "World \<Rightarrow> GitDownloader \<Rightarrow> string \<Rightarrow> string \<Rightarrow> GitDownloader \<times> Started" where
  "Git_DownloadWithProgress w g src destination =
     (let g' = g\<lparr>GitDownloader.source := src\<rparr>;
          args = [''clone'', ''--progress''] @ clone_flags w (GitDownloader.options g)
                   @ [src, destination];
          body = clone_goroutine w g' args destination
      in (g', \<lparr>first_sha = [], channel = Some (fst body @ [Close]), failure = None,
               background = snd body\<rparr>))"

definition Git_Update ::
  "World \<Rightarrow> GitDownloader \<Rightarrow> string \<Rightarrow> effect list \<times> (error + string)" where
  "Git_Update w g destination =
     (let args = [''fetch'', ''--all'', ''--force'']
      in case run_err (Git w args destination) of
           Some err \<Rightarrow> ([EGit args destination], Inl (ErrFetch err (Output (Git w args destination))))
         | None \<Rightarrow>
             (let checked = checkoutRef w g destination in
              case snd checked of
                Some err \<Rightarrow> (EGit args destination # fst checked, Inl err)
              | None \<Rightarrow>
                  (let head = getHeadSHA w destination
                   in (EGit args destination # fst checked @ fst head, snd head))))"

text \<open>The goroutine of \<^verbatim>\<open>GitDownloader.UpdateWithProgress\<close>.\<close>

definition fetch_goroutine ::
  "World \<Rightarrow> GitDownloader \<Rightarrow> string \<Rightarrow> chan_op list \<times> effect list" where
  "fetch_goroutine w g destination =
     (let fetching = Send (progress_update PhaseFetching ''Fetching updates...'');
          args = [''fetch'', ''--all'', ''--force'', ''--progress''];
          p = Git w args destination
      in case PipeErr p of
           Some err \<Rightarrow> ([fetching, Send (progress_failed (ErrPipe err))], [])
         | None \<Rightarrow>
             (case StartErr p of
                Some err \<Rightarrow>
                  ([fetching, Send (progress_failed (ErrStartGit err))], [EGit args destination])
              | None \<Rightarrow>
                  (let scanned = scan_progress w (StderrTokens p) in
                   case ExitErr p of
                     Some err \<Rightarrow>
                       ([fetching] @ scanned @ [Send (progress_failed (ErrFetchFailed err))],
                        [EGit args destination])
                   | None \<Rightarrow>
                       (let announce = Send (progress_update PhaseCheckout ''Checking out...'');
                            checked = checkoutRef w g destination
                        in case snd checked of
                             Some err \<Rightarrow>
                               ([fetching] @ scanned @ [announce, Send (progress_failed err)],
                                EGit args destination # fst checked)
                           | None \<Rightarrow>
                               (let head = getHeadSHA w destination in
                                case snd head of
                                  Inl err \<Rightarrow>
                                    ([fetching] @ scanned @ [announce, Send (progress_failed err)],
                                     EGit args destination # fst checked @ fst head)
                                | Inr sha \<Rightarrow>
                                    ([fetching] @ scanned
                                       @ [announce, Send (progress_update PhaseComplete sha)],
                                     EGit args destination # fst checked @ fst head))))))"

definition Git_UpdateWithProgress :: "World \<Rightarrow> GitDownloader \<Rightarrow> string \<Rightarrow> Started" where
  "Git_UpdateWithProgress w g destination =
     (let body = fetch_goroutine w g destination
      in \<lparr>first_sha = [], channel = Some (fst body @ [Close]), failure = None,
          background = snd body\<rparr>)"

definition Git_GetCurrentRef :: "World \<Rightarrow> GitDownloader \<Rightarrow> string \<Rightarrow> effect list \<times> (error + string)" where
  "Git_GetCurrentRef w g destination = getHeadSHA w destination"

subsection \<open>The Downloader interface and its factory\<close>

datatype Downloader = GitDL GitDownloader | HTTPDL HTTPDownloader

definition New :: "RepositoryType \<Rightarrow> Options \<Rightarrow> error + Downloader" where
  "New repoType opts =
     (if repoType = RepoTypeGit then Inr (GitDL (NewGitDownloader opts))
      else if repoType = RepoTypeHTTP then Inr (HTTPDL (NewHTTPDownloader opts))
      else Inl (ErrUnknownRepoType repoType))"

definition NewFromRepository :: "Repository \<Rightarrow> Config \<Rightarrow> error + Downloader" where
  "NewFromRepository repo cfg =
     New (Repository.Type repo)
       \<lparr>Branch = Repository.Branch repo, Tag = Repository.Tag repo, Commit = Repository.Commit repo,
        Depth = GetDepth repo (CloneDepth (Config.Git cfg)),
        Shallow = IsShallow repo (ShallowClone (Config.Git cfg)),
        Submodules = HasSubmodules repo (RecurseSubmodule (Config.General cfg)),
        UserAgent = HTTPConfig.UserAgent (Config.HTTP cfg),
        RetryAttempts = HTTPConfig.RetryAttempts (Config.HTTP cfg),
        RetryDelay = HTTPConfig.RetryDelay (Config.HTTP cfg),
        Timeout = GeneralConfig.Timeout (Config.General cfg)\<rparr>"

fun DownloadWithProgress :: "World \<Rightarrow> Downloader \<Rightarrow> string \<Rightarrow> string \<Rightarrow> Started" where
  "DownloadWithProgress w (GitDL g) src destination = snd (Git_DownloadWithProgress w g src destination)"
| "DownloadWithProgress w (HTTPDL h) src destination = snd (HTTP_DownloadWithProgress w h src destination)"

fun UpdateWithProgress :: "World \<Rightarrow> Downloader \<Rightarrow> string \<Rightarrow> Started" where
  "UpdateWithProgress w (GitDL g) destination = Git_UpdateWithProgress w g destination"
| "UpdateWithProgress w (HTTPDL h) destination = snd (HTTP_UpdateWithProgress w h destination)"

fun GetCurrentRef :: "World \<Rightarrow> Downloader \<Rightarrow> string \<Rightarrow> effect list \<times> (error + string)" where
  "GetCurrentRef w (GitDL g) destination = Git_GetCurrentRef w g destination"
| "GetCurrentRef w (HTTPDL h) destination = ([], HTTP_GetCurrentRef w h destination)"

fun Type_of :: "Downloader \<Rightarrow> string" where
  "Type_of (GitDL g) = ''git''"
| "Type_of (HTTPDL h) = ''http''"

definition Exists :: "World \<Rightarrow> string \<Rightarrow> bool" where
  "Exists w p = Stat w p"

subsection \<open>Package ui: what the manager uses of it\<close>

record ProgressManager =
  started :: bool
  interactive :: bool

definition NewProgressManager :: "bool \<Rightarrow> ProgressManager" where
  "NewProgressManager b = \<lparr>started = False, interactive = b\<rparr>"

text \<open>\<^verbatim>\<open>Start\<close> never returns an error.\<close>

definition Start :: "ProgressManager \<Rightarrow> ProgressManager \<times> error option" where
  "Start pm = (pm\<lparr>started := True\<rparr>, None)"

definition CreateProgressMsg :: "string \<Rightarrow> string \<Rightarrow> ProgressPhase \<Rightarrow> string \<Rightarrow> ProgressMsg" where
  "CreateProgressMsg repoName repoURL phase msg =
     \<lparr>ProgressMsg.RepoName = repoName, ProgressMsg.RepoURL = repoURL, ProgressMsg.Phase = phase, ProgressMsg.Message = msg,
      ProgressMsg.Error = None\<rparr>"

definition CreateProgressMsgWithPercent ::
  "string \<Rightarrow> string \<Rightarrow> ProgressPhase \<Rightarrow> string \<Rightarrow> ProgressMsg" where
  "CreateProgressMsgWithPercent repoName repoURL phase msg =
     \<lparr>ProgressMsg.RepoName = repoName, ProgressMsg.RepoURL = repoURL, ProgressMsg.Phase = phase, ProgressMsg.Message = msg,
      ProgressMsg.Error = None\<rparr>"

definition CreateCompletedMsg :: "string \<Rightarrow> string \<Rightarrow> string \<Rightarrow> ProgressMsg" where
  "CreateCompletedMsg repoName repoURL msg =
     \<lparr>ProgressMsg.RepoName = repoName, ProgressMsg.RepoURL = repoURL, ProgressMsg.Phase = PhaseComplete, ProgressMsg.Message = msg,
      ProgressMsg.Error = None\<rparr>"

definition CreateErrorMsg :: "string \<Rightarrow> string \<Rightarrow> error \<Rightarrow> ProgressMsg" where
  "CreateErrorMsg repoName repoURL err =
     \<lparr>ProgressMsg.RepoName = repoName, ProgressMsg.RepoURL = repoURL, ProgressMsg.Phase = PhaseFailed, ProgressMsg.Message = [],
      ProgressMsg.Error = Some err\<rparr>"

subsection \<open>Package manager\<close>

record RepositoryManager =
  config :: Config
  lockFile :: "LockFile option"
  ui :: "ProgressManager option"
  workDir :: string
  concurrent :: int
  locked :: bool
  interactive :: bool

type_synonym ManagerOption = "RepositoryManager \<Rightarrow> RepositoryManager"

definition WithLockFile :: "LockFile option \<Rightarrow> ManagerOption" where
  "WithLockFile lf m = m\<lparr>lockFile := lf\<rparr>"

definition WithConcurrency :: "int \<Rightarrow> ManagerOption" where
  "WithConcurrency n m = (if n > 0 then m\<lparr>concurrent := n\<rparr> else m)"

definition WithUI :: "ProgressManager option \<Rightarrow> ManagerOption" where
  "WithUI pm m = m\<lparr>ui := pm\<rparr>"

definition WithLocked :: "bool \<Rightarrow> ManagerOption" where
  "WithLocked b m = m\<lparr>locked := b\<rparr>"

definition WithInteractive :: "bool \<Rightarrow> ManagerOption" where
  "WithInteractive b m = m\<lparr>RepositoryManager.interactive := b\<rparr>"

definition NewRepositoryManager :: "Config \<Rightarrow> ManagerOption list \<Rightarrow> RepositoryManager" where
  "NewRepositoryManager cfg opts =
     fold (\<lambda>opt m. opt m) opts
       \<lparr>config = cfg, lockFile = None, ui = None, workDir = WorkDir (Config.General cfg),
        concurrent = 4, locked = False, interactive = True\<rparr>"

text \<open>The field \<^verbatim>\<open>All\<close> of \<^verbatim>\<open>Filter\<close> is \<open>All_flag\<close> here (\<open>All\<close> is HOL's quantifier).\<close>

record Filter =
  Names :: "string list"
  Projects :: "string list"
  Tags :: "string list"
  All_flag :: bool

text \<open>
  \<^verbatim>\<open>repoSet\<close>, a \<^verbatim>\<open>map[string]config.Repository\<close>, as an association list with one pair
  per key; \<^verbatim>\<open>repoSet[name] = repo\<close> is \<open>repoSet_put\<close>. The order in which \<^verbatim>\<open>range\<close> visits
  the map is the oracle \<open>MapRange\<close>, applied to the values.
\<close>

fun repoSet_put :: "string \<Rightarrow> Repository \<Rightarrow> (string \<times> Repository) list \<Rightarrow> (string \<times> Repository) list" where
  "repoSet_put name repo [] = [(name, repo)]"
| "repoSet_put name repo (kv # kvs) =
     (if fst kv = name then (name, repo) # kvs else kv # repoSet_put name repo kvs)"

fun add_names ::
  "Config \<Rightarrow> string list \<Rightarrow> (string \<times> Repository) list \<Rightarrow> error + (string \<times> Repository) list" where
  "add_names c [] repoSet = Inr repoSet"
| "add_names c (name # names) repoSet =
     (case GetRepository c name of
        None \<Rightarrow> Inl (ErrRepoNotFound name)
      | Some repo \<Rightarrow> add_names c names (repoSet_put name repo repoSet))"

fun add_repos :: "Repository list \<Rightarrow> (string \<times> Repository) list \<Rightarrow> (string \<times> Repository) list" where
  "add_repos [] repoSet = repoSet"
| "add_repos (repo # repos) repoSet = add_repos repos (repoSet_put (Repository.Name repo) repo repoSet)"

fun add_projects ::
  "Config \<Rightarrow> string list \<Rightarrow> (string \<times> Repository) list \<Rightarrow> error + (string \<times> Repository) list" where
  "add_projects c [] repoSet = Inr repoSet"
| "add_projects c (projName # projNames) repoSet =
     (case GetRepositoriesForProject c projName of
        Inl err \<Rightarrow> Inl err
      | Inr repos \<Rightarrow> add_projects c projNames (add_repos repos repoSet))"

fun add_tags :: "Config \<Rightarrow> string list \<Rightarrow> (string \<times> Repository) list \<Rightarrow> (string \<times> Repository) list" where
  "add_tags c [] repoSet = repoSet"
| "add_tags c (tag # tags) repoSet = add_tags c tags (add_repos (GetRepositoriesByTag c tag) repoSet)"

definition getRepositories :: "World \<Rightarrow> RepositoryManager \<Rightarrow> Filter \<Rightarrow> error + Repository list" where
  "getRepositories w m f =
     (if All_flag f
         \<or> (Names f = [] \<and> Filter.Projects f = [] \<and> Filter.Tags f = [])
      then Inr (Config.Repositories (config m))
      else (case add_names (config m) (Names f) [] of
              Inl err \<Rightarrow> Inl err
            | Inr named \<Rightarrow>
                (case add_projects (config m) (Filter.Projects f) named of
                   Inl err \<Rightarrow> Inl err
                 | Inr grouped \<Rightarrow>
                     Inr (MapRange w (map snd (add_tags (config m) (Filter.Tags f) grouped))))))"

definition getRepoPath :: "World \<Rightarrow> RepositoryManager \<Rightarrow> Repository \<Rightarrow> string" where
  "getRepoPath w m repo = Join w (workDir m) (GetEffectivePath repo)"

text \<open>\<^verbatim>\<open>if m.ui != nil { m.ui.SendProgress(msg) }\<close>; the send never blocks.\<close>

definition ui_send :: "RepositoryManager \<Rightarrow> ProgressMsg \<Rightarrow> effect list" where
  "ui_send m msg = (case ui m of None \<Rightarrow> [] | Some pm \<Rightarrow> [EUISend msg])"

text \<open>The loop \<^verbatim>\<open>for update := range progressCh\<close> of \<^verbatim>\<open>syncRepository\<close> over the updates it
  receives, entered with the current value of \<^verbatim>\<open>sha\<close>: the error of the first update that
  carries one, or else the final \<^verbatim>\<open>sha\<close>.\<close>

fun drain ::
  "RepositoryManager \<Rightarrow> Repository \<Rightarrow> string \<Rightarrow> ProgressUpdate list \<Rightarrow> effect list \<times> (error + string)" where
  "drain m repo sha [] = ([], Inr sha)"
| "drain m repo sha (update # rest) =
     (let shown = ui_send m (CreateProgressMsgWithPercent (Repository.Name repo) (Repository.URL repo)
                                (ProgressUpdate.Phase update) (ProgressUpdate.Message update))
      in case ProgressUpdate.Error update of
           Some err \<Rightarrow> (shown, Inl err)
         | None \<Rightarrow>
             (let later = drain m repo
                            (if ProgressUpdate.Phase update = PhaseComplete
                             then ProgressUpdate.Message update else sha) rest
              in (shown @ fst later, snd later)))"

text \<open>
  Lines 189 to 257 of \<^verbatim>\<open>syncRepository\<close>: create the downloader, start the update or the
  download, drain the channel, fall back to \<^verbatim>\<open>GetCurrentRef\<close>. The result is the error
  stored in \<^verbatim>\<open>result.Error\<close> or the resolved \<^verbatim>\<open>sha\<close>. What the goroutine does is listed
  before what the loop shows of its updates. The channel is nil only together with an
  error, so the range over a nil channel (which would block) is never reached.
\<close>

definition resolveRef ::
  "World \<Rightarrow> RepositoryManager \<Rightarrow> Repository \<Rightarrow> effect list \<times> (error + string)" where
  "resolveRef w m repo =
     (let repoPath = getRepoPath w m repo;
          report = (\<lambda>err. ui_send m (CreateErrorMsg (Repository.Name repo) (Repository.URL repo) err))
      in case NewFromRepository repo (config m) of
           Inl err \<Rightarrow> (report (ErrCreateDownloader err), Inl (ErrCreateDownloader err))
         | Inr dl \<Rightarrow>
             (let exists = Exists w repoPath;
                  begun = (if exists then UpdateWithProgress w dl repoPath
                           else DownloadWithProgress w dl (Repository.URL repo) repoPath)
              in case failure begun of
                   Some err \<Rightarrow> (EStat repoPath # report err, Inl err)
                 | None \<Rightarrow>
                     (let drained = drain m repo (first_sha begun)
                                      (case channel begun of
                                         None \<Rightarrow> []
                                       | Some ops \<Rightarrow> received (Room w) 0 ops);
                          sofar = EStat repoPath # background begun @ fst drained
                      in case snd drained of
                           Inl err \<Rightarrow> (sofar, Inl err)
                         | Inr sha \<Rightarrow>
                             if sha = [] then
                               (let current = GetCurrentRef w dl repoPath in
                                case snd current of
                                  Inl err \<Rightarrow>
                                    (sofar @ fst current @ report (ErrGetCurrentRef err),
                                     Inl (ErrGetCurrentRef err))
                                | Inr sha' \<Rightarrow> (sofar @ fst current, Inr sha'))
                             else (sofar, Inr sha))))"

definition syncRepository ::
  "World \<Rightarrow> RepositoryManager \<Rightarrow> Repository \<Rightarrow> effect list \<times> OperationResult outcome" where
  "syncRepository w m repo =
     (let result = \<lparr>RepoName = Repository.Name repo, RepoURL = Repository.URL repo, Success = False,
                    Error = None, Duration = 0, CommitSHA = [],
                    Branch = Repository.Branch repo, Tag = Repository.Tag repo\<rparr>;
          failed = (\<lambda>err. result\<lparr>OperationResult.Error := Some err,
                                 OperationResult.Duration := Since w (Repository.Name repo)\<rparr>);
          report = (\<lambda>err. ui_send m (CreateErrorMsg (Repository.Name repo) (Repository.URL repo) err));
          init = ui_send m (CreateProgressMsg (Repository.Name repo) (Repository.URL repo)
                              PhaseInit ''Starting...'');
          lookup = (if locked m \<and> lockFile m \<noteq> None then [ELockGet (Repository.Name repo)] else []);
          target = (if locked m
                    then (case lockFile m of
                            None \<Rightarrow> Some []
                          | Some lf \<Rightarrow> GetResolvedSHA lf (Repository.Name repo))
                    else Some [])
      in case target of
           None \<Rightarrow> (init @ lookup @ report ErrNoLockEntry, Ret (failed ErrNoLockEntry))
         | Some targetSHA \<Rightarrow>
             (let resolved = resolveRef w m repo;
                  sofar = init @ lookup @ fst resolved
              in case snd resolved of
                   Inl err \<Rightarrow> (sofar, Ret (failed err))
                 | Inr sha \<Rightarrow>
                     if locked m \<and> targetSHA \<noteq> [] \<and> sha \<noteq> targetSHA then
                       (case slice_to targetSHA 8 of
                          Panic \<Rightarrow> (sofar, Panic)
                        | Ret expected \<Rightarrow>
                            (case slice_to sha 8 of
                               Panic \<Rightarrow> (sofar, Panic)
                             | Ret got \<Rightarrow>
                                 (sofar @ report (ErrSHAMismatch expected got),
                                  Ret (failed (ErrSHAMismatch expected got)))))
                     else
                       (let synced = result\<lparr>Success := True, CommitSHA := sha,
                                             OperationResult.Duration := Since w (Repository.Name repo)\<rparr>
                        in case ui m of
                             None \<Rightarrow> (sofar, Ret synced)
                           | Some pm \<Rightarrow>
                               (case slice_to sha 8 of
                                  Panic \<Rightarrow> (sofar, Panic)
                                | Ret short \<Rightarrow>
                                    (sofar @ [EUISend (CreateCompletedMsg (Repository.Name repo)
                                                (Repository.URL repo) (''Synced at '' @ short))],
                                     Ret synced)))))"

text \<open>The loop of \<^verbatim>\<open>updateLockFile\<close> over the results.\<close>

fun update_entries ::
  "World \<Rightarrow> Config \<Rightarrow> LockFile \<Rightarrow> OperationResult list \<Rightarrow> LockFile \<times> effect list" where
  "update_entries w c lf [] = (lf, [])"
| "update_entries w c lf (result # rest) =
     (if \<not> Success result then update_entries w c lf rest
      else (case GetRepository c (OperationResult.RepoName result) of
              None \<Rightarrow> update_entries w c lf rest
            | Some repo \<Rightarrow>
                (let requestedRef = GetEffectiveRef repo (DefaultBranch (Config.General c));
                     entry = NewEntry (Now w (OperationResult.RepoName result)) (Repository.URL repo)
                               (Repository.Type repo) requestedRef (CommitSHA result);
                     later = update_entries w c (Update lf (OperationResult.RepoName result) entry) rest
                 in (fst later, ELockUpdate (OperationResult.RepoName result) # snd later))))"

definition updateLockFile ::
  "World \<Rightarrow> RepositoryManager \<Rightarrow> OperationResult list \<Rightarrow> RepositoryManager \<times> effect list" where
  "updateLockFile w m results =
     (case lockFile m of
        None \<Rightarrow> (m, [])
      | Some lf \<Rightarrow>
          if locked m then (m, [])
          else (let updated = update_entries w (config m) lf results
                in (m\<lparr>lockFile := Some (fst updated)\<rparr>, snd updated)))"

definition ensureWorkDir :: "World \<Rightarrow> RepositoryManager \<Rightarrow> effect list \<times> error option" where
  "ensureWorkDir w m = ([EMkdirAll (workDir m)], MkdirAll w (workDir m))"

text \<open>A panic in one of the goroutines ends the process: the call does not return.\<close>

fun join_all :: "'a outcome list \<Rightarrow> 'a list outcome" where
  "join_all [] = Ret []"
| "join_all (Panic # rest) = Panic"
| "join_all (Ret x # rest) = (case join_all rest of Panic \<Rightarrow> Panic | Ret xs \<Rightarrow> Ret (x # xs))"

text \<open>
  \<^verbatim>\<open>Sync\<close> returns the manager as the call leaves it, the effects, and the error or the
  report. The goroutines run concurrently under the semaphore; each result is a function
  of the world, the manager and the repository alone, and the effects of the tasks are
  listed task after task, in the order of the slots.
\<close>

definition Sync ::
  "World \<Rightarrow> RepositoryManager \<Rightarrow> Filter
     \<Rightarrow> (RepositoryManager \<times> effect list \<times> (error + SyncResult)) outcome" where
  "Sync w m f =
     (let made = ensureWorkDir w m in
      case snd made of
        Some err \<Rightarrow> Ret (m, fst made, Inl (ErrWorkDir err))
      | None \<Rightarrow>
          (case getRepositories w m f of
             Inl err \<Rightarrow> Ret (m, fst made, Inl err)
           | Inr repos \<Rightarrow>
               if length repos = 0 then Ret (m, fst made, Inr SyncResult_zero)
               else
                 (let m1 = (case ui m of
                              None \<Rightarrow> m\<lparr>ui := Some (fst (Start (NewProgressManager
                                                                   (RepositoryManager.interactive m))))\<rparr>
                            | Some pm \<Rightarrow> m);
                      opened = (case ui m of None \<Rightarrow> [EUIStart] | Some pm \<Rightarrow> []);
                      tasks = map (syncRepository w m1) repos
                  in case join_all (map snd tasks) of
                       Panic \<Rightarrow> Panic
                     | Ret results \<Rightarrow>
                         (let locked_in = updateLockFile w m1 results
                          in Ret (fst locked_in,
                                  fst made @ opened @ concat (map fst tasks) @ snd locked_in
                                    @ [EUIComplete],
                                  Inr (NewSyncResult results (Since w [])))))))"

text \<open>\<^verbatim>\<open>SaveLockFile\<close> persists the lock file with \<^verbatim>\<open>LockFile.Save\<close>; whether the write
  succeeds is not modelled. No other function of the manager persists it.\<close>

definition SaveLockFile :: "RepositoryManager \<Rightarrow> string \<Rightarrow> effect list" where
  "SaveLockFile m p = (case lockFile m of None \<Rightarrow> [] | Some lf \<Rightarrow> [ELockSave p])"

subsection \<open>Notions the properties are stated with\<close>

text \<open>An attempt of the plain-file transport is one call of \<^verbatim>\<open>downloadFile\<close>, which
  begins with \<^verbatim>\<open>http.NewRequest\<close>.\<close>

fun is_attempt :: "effect \<Rightarrow> bool" where
  "is_attempt (ENewRequest u) = True"
| "is_attempt e = False"

definition attempts :: "effect list \<Rightarrow> nat" where
  "attempts effs = length (filter is_attempt effs)"

text \<open>The effects of the attempts \<open>a, a + 1, ..., a + n - 1\<close> with the pause before
  each one that is not attempt \<open>0\<close>.\<close>

definition pause_before :: "HTTPDownloader \<Rightarrow> nat \<Rightarrow> effect list" where
  "pause_before h k = (if k > 0 then [ESleep (Options.RetryDelay (HTTPDownloader.options h))] else [])"

definition schedule ::
  "World \<Rightarrow> HTTPDownloader \<Rightarrow> string \<Rightarrow> string \<Rightarrow> nat \<Rightarrow> nat \<Rightarrow> effect list" where
  "schedule w h src destination a n =
     concat (map (\<lambda>k. pause_before h k @ fst (downloadFile w h src destination k)) [a ..< a + n])"

definition fetch :: "World \<Rightarrow> HTTPDownloader \<Rightarrow> string \<Rightarrow> string \<Rightarrow> nat \<Rightarrow> error + string" where
  "fetch w h src destination k = snd (downloadFile w h src destination k)"

definition fails_from_to ::
  "World \<Rightarrow> HTTPDownloader \<Rightarrow> string \<Rightarrow> string \<Rightarrow> nat \<Rightarrow> nat \<Rightarrow> bool" where
  "fails_from_to w h src destination a b =
     list_all (\<lambda>j. isl (fetch w h src destination j)) [a ..< b]"

text \<open>A channel is closed exactly once, and nothing is done to it afterwards.\<close>

definition closed_once :: "chan_op list \<Rightarrow> bool" where
  "closed_once ops = (count_list ops Close = 1 \<and> ops \<noteq> [] \<and> last ops = Close)"

text \<open>The last update is terminal (\<open>complete\<close> or \<open>failed\<close>) and no earlier one is.\<close>

definition terminal_last :: "ProgressUpdate list \<Rightarrow> bool" where
  "terminal_last us =
     (us \<noteq> [] \<and> IsComplete (last us) \<and> list_all (\<lambda>u. \<not> IsComplete u) (butlast us))"

text \<open>A channel operation that carries a non-terminal update.\<close>

fun quiet :: "chan_op \<Rightarrow> bool" where
  "quiet (Send u) = (\<not> IsComplete u)"
| "quiet (TrySend u) = (\<not> IsComplete u)"
| "quiet Close = False"

text \<open>The body of a goroutine ends with the blocking send of a terminal update, after
  operations that carry non-terminal ones only.\<close>

definition finishing :: "chan_op list \<Rightarrow> bool" where
  "finishing ops =
     (ops \<noteq> [] \<and> list_all quiet (butlast ops)
      \<and> (case last ops of Send t \<Rightarrow> IsComplete t | TrySend t \<Rightarrow> False | Close \<Rightarrow> False))"

text \<open>The last operation of a goroutine's body is the blocking send of an update that
  carries an error or has phase \<open>complete\<close>.\<close>

definition concluding :: "chan_op list \<Rightarrow> bool" where
  "concluding ops =
     (ops \<noteq> []
      \<and> (case last ops of
            Send t \<Rightarrow> ProgressUpdate.Error t \<noteq> None \<or> ProgressUpdate.Phase t = PhaseComplete
          | TrySend t \<Rightarrow> False
          | Close \<Rightarrow> False))"

subsection \<open>Example environments\<close>

text \<open>A server that answers every GET with seven bytes, and one that answers 500.\<close>

definition ok_exchange :: Exchange where
  "ok_exchange =
     \<lparr>RequestErr = None, DoErr = None, StatusCode = 200, ContentLength = 7,
      BodyReads = [''succ''], LastRead = ''ess'', ReadErr = ErrEOF, CreateErr = None,
      WriteErr = (\<lambda>i. None), CloseErr = None\<rparr>"

definition bad_exchange :: Exchange where
  "bad_exchange = ok_exchange\<lparr>StatusCode := 500\<rparr>"

definition calm_proc :: Proc where
  "calm_proc = \<lparr>PipeErr = None, StartErr = None, StderrTokens = [], Output = [], ExitErr = None\<rparr>"

definition calm_world :: World where
  "calm_world =
     \<lparr>MkdirAll = (\<lambda>p. None), Stat = (\<lambda>p. False), Git = (\<lambda>args dir. calm_proc),
      HttpGet = (\<lambda>u k. ok_exchange), Room = (\<lambda>i. True), MapRange = (\<lambda>xs. xs),
      Since = (\<lambda>n. 0), Now = (\<lambda>n. 0), Join = (\<lambda>a b. a @ ''/'' @ b), Dir = (\<lambda>p. ''.''),
      Sha256Hex = (\<lambda>bytes. ''sha256-of-'' @ bytes),
      ReadFile = (\<lambda>p. Inl (ErrExternal ''no such file'')), Itoa = (\<lambda>i. ''n''),
      TrimSpace = (\<lambda>s. s), FindStringSubmatch = (\<lambda>s. []), Sscanf = (\<lambda>s. 0)\<rparr>"

text \<open>The backend of \<^verbatim>\<open>TestHTTPDownloader_Download_Retry\<close>: two failures, then success;
  and a backend that always fails.\<close>

definition flaky_world :: World where
  "flaky_world = calm_world\<lparr>HttpGet := (\<lambda>u k. if k < 2 then bad_exchange else ok_exchange)\<rparr>"

definition down_world :: World where
  "down_world = calm_world\<lparr>HttpGet := (\<lambda>u k. bad_exchange)\<rparr>"

definition zero_options :: Options where
  "zero_options =
     \<lparr>Branch = [], Tag = [], Commit = [], Depth = 0, Shallow = False, Submodules = False,
      UserAgent = [], RetryAttempts = 0, RetryDelay = 0, Timeout = 0\<rparr>"

definition retry3 :: HTTPDownloader where
  "retry3 = NewHTTPDownloader (zero_options\<lparr>Options.RetryAttempts := 3, Options.RetryDelay := 1000000\<rparr>)"

text \<open>An effect on the Lock Store: a read, a write, or persisting it.\<close>

fun touches_lock :: "effect \<Rightarrow> bool" where
  "touches_lock (ELockGet n) = True"
| "touches_lock (ELockUpdate n) = True"
| "touches_lock (ELockSave p) = True"
| "touches_lock e = False"

text \<open>An effect of a per-repository task: everything but creating the work directory.\<close>

fun task_effect :: "effect \<Rightarrow> bool" where
  "task_effect (EMkdirAll p) = False"
| "task_effect e = True"

text \<open>A catalog with three repositories and one project, as in
  \<^verbatim>\<open>TestRepositoryManager_GetRepositories_Filter\<close>.\<close>

definition zero_repo :: Repository where
  "zero_repo =
     \<lparr>Repository.Name = [], Repository.URL = [], Repository.Type = [], Repository.Path = [],
      Repository.Branch = [], Repository.Tag = [], Repository.Commit = [],
      Repository.Shallow = None, Repository.Depth = None, Repository.Submodules = None,
      Repository.Tags = []\<rparr>"

definition repo1 :: Repository where
  "repo1 = zero_repo\<lparr>Repository.Name := ''repo1'', Repository.URL := ''https://example.com/1.git'',
                      Repository.Type := RepoTypeGit, Repository.Tags := [''backend'']\<rparr>"

definition repo2 :: Repository where
  "repo2 = zero_repo\<lparr>Repository.Name := ''repo2'', Repository.URL := ''https://example.com/2.git'',
                      Repository.Type := RepoTypeGit, Repository.Tags := [''frontend'']\<rparr>"

definition repo3 :: Repository where
  "repo3 = zero_repo\<lparr>Repository.Name := ''repo3'', Repository.URL := ''https://example.com/3.bin'',
                      Repository.Type := RepoTypeHTTP, Repository.Tags := [''backend'', ''core'']\<rparr>"

definition test_config :: Config where
  "test_config =
     \<lparr>Config.General =
        \<lparr>WorkDir = ''/work'', CacheDir = [], GeneralConfig.Timeout = 0, DefaultBranch = ''main'',
         RecurseSubmodule = True\<rparr>,
      Config.HTTP =
        \<lparr>HTTPConfig.UserAgent = ''Harbormaster/1.0'', HTTPConfig.RetryAttempts = 3,
         HTTPConfig.RetryDelay = 2000000000\<rparr>,
      Config.Git = \<lparr>ShallowClone = True, CloneDepth = 1\<rparr>,
      Config.Repositories = [repo1, repo2, repo3],
      Config.Projects =
        [\<lparr>Project.Name = ''proj1'', Project.Repositories = [''repo1'', ''repo2''],
          Project.Tags = []\<rparr>]\<rparr>"

definition empty_lock :: LockFile where
  "empty_lock = \<lparr>Version = 1, GeneratedAt = 0, Entries = Map.empty, path = []\<rparr>"

definition test_manager :: RepositoryManager where
  "test_manager = NewRepositoryManager test_config [WithLockFile (Some empty_lock)]"

definition zero_filter :: Filter where
  "zero_filter = \<lparr>Names = [], Filter.Projects = [], Filter.Tags = [], All_flag = False\<rparr>"

text \<open>An environment for a run over the three repositories: \<^verbatim>\<open>git rev-parse HEAD\<close> prints a
  revision id, every \<^verbatim>\<open>git\<close> command on the second repository's directory fails, and the
  server answers as in \<open>calm_world\<close>.\<close>

definition head_sha :: string where
  "head_sha = ''0123456789abcdef0123456789abcdef01234567''"

definition sync_world :: World where
  "sync_world = calm_world
     \<lparr>World.Git := (\<lambda>args dir.
         if args = [''rev-parse'', ''HEAD''] then calm_proc\<lparr>Output := head_sha\<rparr>
         else if last args = ''/work/repo2''
              then calm_proc\<lparr>ExitErr := Some (ErrExternal ''exit status 128'')\<rparr>
         else calm_proc)\<rparr>"

definition all_filter :: Filter where
  "all_filter = zero_filter\<lparr>All_flag := True\<rparr>"

text \<open>The invariant of \<open>repoSet\<close>: one pair per key, each value a repository of the catalog
  filed under its own name.\<close>

definition filed :: "Config \<Rightarrow> (string \<times> Repository) list \<Rightarrow> bool" where
  "filed c repoSet =
     (distinct (map fst repoSet)
      \<and> list_all (\<lambda>kv. Repository.Name (snd kv) = fst kv \<and> snd kv \<in> set (Config.Repositories c)) repoSet)"

text \<open>The manager as the tasks of \<^verbatim>\<open>Sync\<close> see it: with a progress UI.\<close>

definition test_manager_ui :: RepositoryManager where
  "test_manager_ui = test_manager\<lparr>ui := Some (fst (Start (NewProgressManager True)))\<rparr>"

text \<open>A lock file whose entry for \<open>repo1\<close> has an empty resolved reference, one whose entry
  holds another revision than the environment's, one whose entry holds a short
  reference (as in \<^verbatim>\<open>TestRepositoryManager_Remove\<close>), and managers in locked mode on them.\<close>

definition entry_of :: "string \<Rightarrow> LockEntry" where
  "entry_of resolved =
     \<lparr>LockEntry.URL = ''https://example.com/1.git'', LockEntry.Type = ''git'',
      RequestedRef = ''main'', LockEntry.ResolvedSHA = resolved, LastSyncedAt = 0,
      LockEntry.Submodules = []\<rparr>"

definition lock_with :: "string \<Rightarrow> LockFile" where
  "lock_with resolved = Update empty_lock ''repo1'' (entry_of resolved)"

definition other_sha :: string where
  "other_sha = ''fedcba9876543210fedcba9876543210fedcba98''"

definition locked_manager :: "LockFile \<Rightarrow> RepositoryManager" where
  "locked_manager lf =
     NewRepositoryManager test_config
       [WithLockFile (Some lf), WithLocked True,
        WithUI (Some (fst (Start (NewProgressManager True))))]"

text \<open>An environment in which the destination of every repository exists already.\<close>

definition synced_world :: World where
  "synced_world = sync_world\<lparr>Stat := (\<lambda>p. True)\<rparr>"

text \<open>A downloader for the branch selector \<^verbatim>\<open>v1.0\<close> alone, and an environment in which
  \<^verbatim>\<open>git checkout\<close> fails (the remote has no branch of that name, only a tag, which
  \<^verbatim>\<open>git clone --branch\<close> accepts).\<close>

definition branch_only :: GitDownloader where
  "branch_only = NewGitDownloader (zero_options\<lparr>Options.Branch := ''v1.0''\<rparr>)"

definition no_remote_branch_world :: World where
  "no_remote_branch_world = calm_world
     \<lparr>World.Git := (\<lambda>args dir.
         if args = [''rev-parse'', ''HEAD''] then calm_proc\<lparr>Output := head_sha\<rparr>
         else if take 1 args = [''checkout'']
              then calm_proc\<lparr>ExitErr := Some (ErrExternal ''exit status 1'')\<rparr>
         else calm_proc)\<rparr>"

text \<open>A catalog whose repositories select their reference in the four ways: by commit
  (with a tag and a branch as well), by tag (with a branch as well), by branch, and not
  at all; and a fifth whose clone fails. A lock file left by an earlier run, with entries
  for the first and the last. An environment in which every \<^verbatim>\<open>git\<close> command on the last
  repository's directory fails.\<close>

definition repo_pinned :: Repository where
  "repo_pinned = zero_repo\<lparr>Repository.Name := ''pinned'', Repository.URL := ''https://example.com/pinned.git'',
                            Repository.Type := RepoTypeGit, Repository.Branch := ''dev'',
                            Repository.Tag := ''v1.0'', Repository.Commit := ''c0ffee0''\<rparr>"

definition repo_tagged :: Repository where
  "repo_tagged = zero_repo\<lparr>Repository.Name := ''tagged'', Repository.URL := ''https://example.com/tagged.git'',
                            Repository.Type := RepoTypeGit, Repository.Branch := ''dev'',
                            Repository.Tag := ''v1.0''\<rparr>"

definition repo_tracking :: Repository where
  "repo_tracking = zero_repo\<lparr>Repository.Name := ''tracking'', Repository.URL := ''https://example.com/tracking.git'',
                              Repository.Type := RepoTypeGit, Repository.Branch := ''dev''\<rparr>"

definition repo_plain :: Repository where
  "repo_plain = zero_repo\<lparr>Repository.Name := ''plain'', Repository.URL := ''https://example.com/plain.bin'',
                           Repository.Type := RepoTypeHTTP\<rparr>"

definition repo_broken :: Repository where
  "repo_broken = zero_repo\<lparr>Repository.Name := ''broken'', Repository.URL := ''https://example.com/broken.git'',
                            Repository.Type := RepoTypeGit, Repository.Commit := ''c0ffee0''\<rparr>"

definition ref_config :: Config where
  "ref_config = test_config\<lparr>Config.Repositories :=
                                [repo_pinned, repo_tagged, repo_tracking, repo_plain, repo_broken],
                              Config.Projects := []\<rparr>"

definition prior_lock :: LockFile where
  "prior_lock = Update (Update empty_lock ''broken'' (entry_of other_sha)) ''pinned'' (entry_of other_sha)"

definition ref_manager :: RepositoryManager where
  "ref_manager = NewRepositoryManager ref_config [WithLockFile (Some prior_lock)]"

definition ref_manager_ui :: RepositoryManager where
  "ref_manager_ui = ref_manager\<lparr>ui := Some (fst (Start (NewProgressManager True)))\<rparr>"

definition ref_world :: World where
  "ref_world = calm_world
     \<lparr>World.Git := (\<lambda>args dir.
         if args = [''rev-parse'', ''HEAD''] then calm_proc\<lparr>Output := head_sha\<rparr>
         else if last args = ''/work/broken''
              then calm_proc\<lparr>ExitErr := Some (ErrExternal ''exit status 128'')\<rparr>
         else calm_proc)\<rparr>"

text \<open>A lock file with entries for the first repository (another revision than the
  environment's) and the third (the digest the server's file has) of the catalog of three,
  and a manager in locked mode without a lock file.\<close>

definition lock_both :: LockFile where
  "lock_both =
     Update (lock_with other_sha) ''repo3''
       \<lparr>LockEntry.URL = ''https://example.com/3.bin'', LockEntry.Type = ''http'',
        RequestedRef = ''main'', LockEntry.ResolvedSHA = ''sha256-of-success'', LastSyncedAt = 0,
        LockEntry.Submodules = []\<rparr>"

definition bare_locked_manager :: RepositoryManager where
  "bare_locked_manager =
     NewRepositoryManager test_config
       [WithLocked True, WithUI (Some (fst (Start (NewProgressManager True))))]"

subsection \<open>The goroutines of Sync\<close>

text \<open>
  Lines 42 to 60 of \<^verbatim>\<open>Sync\<close> as a transition system. The main goroutine spawns one
  goroutine per repository, in order, after \<^verbatim>\<open>wg.Add(1)\<close>; each goroutine runs
  \<^verbatim>\<open>sem.acquire()\<close>, then \<^verbatim>\<open>m.syncRepository\<close>, then (deferred, whether the task returned
  a success or a failure) \<^verbatim>\<open>sem.release()\<close> and \<^verbatim>\<open>wg.Done()\<close>; the main goroutine
  leaves \<^verbatim>\<open>wg.Wait()\<close> when the counter is zero.

  The semaphore is a channel of capacity \<open>N\<close>: \<open>sem\<close> is the number of values in it. A send
  to a full channel and a receive from an empty one block: the event is not enabled.
\<close>

datatype task_pc = NotSpawned | Waiting | Running | Completed | Released | Finished

datatype event = Spawn | Acquire nat | Complete nat | Release nat | Done nat | Return

record sched =
  pcs :: "task_pc list"
  sem :: nat
  wg :: nat
  next_i :: nat
  returned :: bool

definition init :: "nat \<Rightarrow> sched" where
  "init n = \<lparr>pcs = replicate n NotSpawned, sem = 0, wg = 0, next_i = 0, returned = False\<rparr>"

definition at_pc :: "sched \<Rightarrow> nat \<Rightarrow> task_pc \<Rightarrow> bool" where
  "at_pc s i pc = (i < length (pcs s) \<and> pcs s ! i = pc)"

fun fire :: "nat \<Rightarrow> event \<Rightarrow> sched \<Rightarrow> sched option" where
  "fire N Spawn s =
     (if next_i s < length (pcs s)
      then Some (s\<lparr>pcs := (pcs s)[next_i s := Waiting], wg := wg s + 1, next_i := next_i s + 1\<rparr>)
      else None)"
| "fire N (Acquire i) s =
     (if at_pc s i Waiting \<and> sem s < N
      then Some (s\<lparr>pcs := (pcs s)[i := Running], sem := sem s + 1\<rparr>)
      else None)"
| "fire N (Complete i) s =
     (if at_pc s i Running then Some (s\<lparr>pcs := (pcs s)[i := Completed]\<rparr>) else None)"
| "fire N (Release i) s =
     (if at_pc s i Completed \<and> sem s > 0
      then Some (s\<lparr>pcs := (pcs s)[i := Released], sem := sem s - 1\<rparr>)
      else None)"
| "fire N (Done i) s =
     (if at_pc s i Released \<and> wg s > 0
      then Some (s\<lparr>pcs := (pcs s)[i := Finished], wg := wg s - 1\<rparr>)
      else None)"
| "fire N Return s =
     (if next_i s = length (pcs s) \<and> wg s = 0 \<and> \<not> returned s
      then Some (s\<lparr>returned := True\<rparr>)
      else None)"

text \<open>The state after a sequence of events, when each is enabled in its turn.\<close>

fun run :: "nat \<Rightarrow> event list \<Rightarrow> sched \<Rightarrow> sched option" where
  "run N [] s = Some s"
| "run N (e # es) s = (case fire N e s of None \<Rightarrow> None | Some s' \<Rightarrow> run N es s')"

text \<open>The transport operations in flight: the tasks inside \<^verbatim>\<open>syncRepository\<close>.\<close>

definition in_flight :: "sched \<Rightarrow> nat" where
  "in_flight s = count_list (pcs s) Running"

text \<open>The invariant of the reachable states.\<close>

definition sched_inv :: "nat \<Rightarrow> nat \<Rightarrow> sched \<Rightarrow> bool" where
  "sched_inv N n s =
     (length (pcs s) = n \<and> next_i s \<le> n
      \<and> list_all (\<lambda>i. (pcs s ! i = NotSpawned) = (next_i s \<le> i)) [0 ..< n]
      \<and> sem s = count_list (pcs s) Running + count_list (pcs s) Completed
      \<and> sem s \<le> N
      \<and> wg s = count_list (pcs s) Waiting + count_list (pcs s) Running
                 + count_list (pcs s) Completed + count_list (pcs s) Released
      \<and> (if returned s then pcs s = replicate n Finished else True))"

text \<open>A manager that syncs one repository at a time.\<close>

definition serial_manager :: RepositoryManager where
  "serial_manager = NewRepositoryManager test_config [WithConcurrency 1]"

section \<open>Properties\<close>

subsection \<open>The retry loop of the plain-file transport\<close>

lemma attempts_downloadFile: "attempts (fst (downloadFile w h src dst k)) = 1"
  by (simp add: downloadFile_def attempts_def Let_def split: option.splits)

lemma attempts_append: "attempts (xs @ ys) = attempts xs + attempts ys"
  by (simp add: attempts_def)

lemma attempts_if_sleep: "attempts (if c then [ESleep d] else []) = 0"
  by (simp add: attempts_def)

lemma attempts_Nil: "attempts [] = 0"
  by (simp add: attempts_def)

declare Download_loop.simps [simp del]

lemma loop_stop:
  "\<not> a \<le> Options.RetryAttempts (HTTPDownloader.options h) \<Longrightarrow>
   Download_loop w h src dst a l =
     ([], Inl (ErrDownloadAttempts (Options.RetryAttempts (HTTPDownloader.options h) + 1) l))"
  by (subst Download_loop.simps) simp

lemma loop_ok:
  "a \<le> Options.RetryAttempts (HTTPDownloader.options h) \<Longrightarrow> 0 \<le> a \<Longrightarrow>
   fetch w h src dst (nat a) = Inr hash \<Longrightarrow>
   Download_loop w h src dst a l =
     (pause_before h (nat a) @ fst (downloadFile w h src dst (nat a)), Inr hash)"
  by (subst Download_loop.simps) (simp add: Let_def fetch_def pause_before_def)

lemma loop_retry:
  "a \<le> Options.RetryAttempts (HTTPDownloader.options h) \<Longrightarrow> 0 \<le> a \<Longrightarrow>
   fetch w h src dst (nat a) = Inl err \<Longrightarrow>
   Download_loop w h src dst a l =
     (pause_before h (nat a) @ fst (downloadFile w h src dst (nat a))
        @ fst (Download_loop w h src dst (a + 1) (Some err)),
      snd (Download_loop w h src dst (a + 1) (Some err)))"
  by (subst Download_loop.simps) (simp add: Let_def fetch_def pause_before_def)

lemma attempts_pause: "attempts (pause_before h k) = 0"
  by (simp add: attempts_def pause_before_def)

lemma schedule_0: "schedule w h src dst a 0 = []"
  by (simp add: schedule_def)

lemma schedule_Suc:
  "schedule w h src dst a (Suc n) =
     pause_before h a @ fst (downloadFile w h src dst a) @ schedule w h src dst (Suc a) n"
proof -
  have "[a ..< a + Suc n] = a # [Suc a ..< Suc a + n]"
    by (simp add: upt_conv_Cons del: upt_Suc)
  then show ?thesis by (simp add: schedule_def del: upt_Suc)
qed

lemma loop_induct [consumes 1, case_names stop ok retry]:
  assumes "0 \<le> a"
    and "\<And>a l. 0 \<le> a \<Longrightarrow> \<not> a \<le> Options.RetryAttempts (HTTPDownloader.options h) \<Longrightarrow> P a l"
    and "\<And>a l hash. 0 \<le> a \<Longrightarrow> a \<le> Options.RetryAttempts (HTTPDownloader.options h) \<Longrightarrow>
           fetch w h src dst (nat a) = Inr hash \<Longrightarrow> P a l"
    and "\<And>a l err. 0 \<le> a \<Longrightarrow> a \<le> Options.RetryAttempts (HTTPDownloader.options h) \<Longrightarrow>
           fetch w h src dst (nat a) = Inl err \<Longrightarrow> P (a + 1) (Some err) \<Longrightarrow> P a l"
  shows "P a l"
  using assms(1)
proof (induction "nat (Options.RetryAttempts (HTTPDownloader.options h) + 1 - a)" arbitrary: a l)
  case 0
  then show ?case using assms(2) by simp
next
  case (Suc n)
  then have le: "a \<le> Options.RetryAttempts (HTTPDownloader.options h)" by simp
  show ?case
  proof (cases "fetch w h src dst (nat a)")
    case (Inr hash)
    then show ?thesis using assms(3) Suc.prems le by blast
  next
    case (Inl err)
    have "P (a + 1) (Some err)"
      using Suc.hyps(1) [of "a + 1"] Suc.hyps(2) Suc.prems by simp
    then show ?thesis using assms(4) Suc.prems le Inl by blast
  qed
qed

lemma loop_attempts_le:
  assumes "0 \<le> a"
  shows "attempts (fst (Download_loop w h src dst a l))
           \<le> nat (Options.RetryAttempts (HTTPDownloader.options h) + 1 - a)"
  using assms
proof (induction a l rule: loop_induct [where h = h and w = w and src = src and dst = dst])
  case (stop a l)
  then show ?case by (simp add: loop_stop attempts_Nil)
next
  case (ok a l hash)
  then show ?case
    by (simp add: loop_ok attempts_append attempts_pause attempts_downloadFile)
next
  case (retry a l err)
  then show ?case
    by (simp add: loop_retry attempts_append attempts_pause attempts_downloadFile)
qed

lemma loop_schedule:
  assumes "0 \<le> a"
  shows "fst (Download_loop w h src dst a l)
           = schedule w h src dst (nat a) (attempts (fst (Download_loop w h src dst a l)))"
  using assms
proof (induction a l rule: loop_induct [where h = h and w = w and src = src and dst = dst])
  case (stop a l)
  then show ?case by (simp add: loop_stop attempts_Nil schedule_0)
next
  case (ok a l hash)
  then show ?case
    by (simp add: loop_ok attempts_append attempts_pause attempts_downloadFile
        schedule_Suc schedule_0)
next
  case (retry a l err)
  have n: "nat (a + 1) = Suc (nat a)" using retry.hyps by simp
  show ?case
    using retry
    by (simp add: loop_retry attempts_append attempts_pause attempts_downloadFile
        schedule_Suc n)
qed

lemma fails_from_to_step:
  "a < b \<Longrightarrow> fails_from_to w h src dst a b =
     (isl (fetch w h src dst a) \<and> fails_from_to w h src dst (Suc a) b)"
  by (simp add: fails_from_to_def upt_rec [of a b])

lemma loop_first_success:
  assumes "0 \<le> a"
    and "nat a \<le> k" and "int k \<le> Options.RetryAttempts (HTTPDownloader.options h)"
    and "fails_from_to w h src dst (nat a) k"
    and "fetch w h src dst k = Inr hash"
  shows "snd (Download_loop w h src dst a l) = Inr hash
         \<and> attempts (fst (Download_loop w h src dst a l)) = k - nat a + 1"
  using assms
proof (induction a l rule: loop_induct [where h = h and w = w and src = src and dst = dst])
  case (stop a l)
  then show ?case by simp
next
  case (ok a l hash')
  have "nat a = k"
  proof (rule ccontr)
    assume "nat a \<noteq> k"
    then have "nat a < k" using ok.prems by simp
    then have "isl (fetch w h src dst (nat a))"
      using ok.prems by (simp add: fails_from_to_step)
    then show False using ok.hyps by simp
  qed
  then show ?case
    using ok
    by (simp add: loop_ok attempts_append attempts_pause attempts_downloadFile)
next
  case (retry a l err)
  have lt: "nat a < k"
  proof (rule ccontr)
    assume "\<not> nat a < k"
    then have "nat a = k" using retry.prems by simp
    then show False using retry.hyps retry.prems by simp
  qed
  have n: "nat (a + 1) = Suc (nat a)" using retry.hyps by simp
  have "fails_from_to w h src dst (nat (a + 1)) k"
    using retry.prems lt by (simp add: fails_from_to_step n)
  then have "snd (Download_loop w h src dst (a + 1) (Some err)) = Inr hash \<and>
        attempts (fst (Download_loop w h src dst (a + 1) (Some err))) = k - nat (a + 1) + 1"
    using retry.IH retry.prems lt n by simp
  then show ?case
    using retry.hyps lt n
    by (simp add: loop_retry attempts_append attempts_pause attempts_downloadFile)
qed

lemma loop_all_fail:
  assumes "0 \<le> a"
    and "a \<le> Options.RetryAttempts (HTTPDownloader.options h)"
    and "fails_from_to w h src dst (nat a) (nat (Options.RetryAttempts (HTTPDownloader.options h) + 1))"
  shows "\<exists>err. fetch w h src dst (nat (Options.RetryAttempts (HTTPDownloader.options h))) = Inl err
           \<and> snd (Download_loop w h src dst a l)
               = Inl (ErrDownloadAttempts (Options.RetryAttempts (HTTPDownloader.options h) + 1) (Some err))
           \<and> attempts (fst (Download_loop w h src dst a l))
               = nat (Options.RetryAttempts (HTTPDownloader.options h) + 1 - a)"
  using assms
proof (induction a l rule: loop_induct [where h = h and w = w and src = src and dst = dst])
  case (stop a l)
  then show ?case by simp
next
  case (ok a l hash)
  have "nat a < nat (Options.RetryAttempts (HTTPDownloader.options h) + 1)" using ok.hyps by simp
  then have "isl (fetch w h src dst (nat a))"
    using ok.prems by (simp add: fails_from_to_step)
  then show ?case using ok.hyps by simp
next
  case (retry a l err)
  have n: "nat (a + 1) = Suc (nat a)" using retry.hyps by simp
  have lt: "nat a < nat (Options.RetryAttempts (HTTPDownloader.options h) + 1)" using retry.hyps by simp
  have rest: "fails_from_to w h src dst (nat (a + 1)) (nat (Options.RetryAttempts (HTTPDownloader.options h) + 1))"
    using retry.prems lt by (simp add: fails_from_to_step n)
  show ?case
  proof (cases "a + 1 \<le> Options.RetryAttempts (HTTPDownloader.options h)")
    case True
    from retry.IH [OF True rest] obtain e where
      "fetch w h src dst (nat (Options.RetryAttempts (HTTPDownloader.options h))) = Inl e"
      "snd (Download_loop w h src dst (a + 1) (Some err))
         = Inl (ErrDownloadAttempts (Options.RetryAttempts (HTTPDownloader.options h) + 1) (Some e))"
      "attempts (fst (Download_loop w h src dst (a + 1) (Some err)))
         = nat (Options.RetryAttempts (HTTPDownloader.options h) + 1 - (a + 1))"
      by blast
    then show ?thesis
      using retry.hyps
      by (simp add: loop_retry attempts_append attempts_pause attempts_downloadFile)
  next
    case False
    then have eq: "a = Options.RetryAttempts (HTTPDownloader.options h)" using retry.hyps by simp
    have "fetch w h src dst (nat (Options.RetryAttempts (HTTPDownloader.options h))) = Inl err"
      using retry.hyps eq by simp
    then show ?thesis
      using retry.hyps False eq
      by (simp add: loop_retry loop_stop attempts_append attempts_pause
          attempts_downloadFile attempts_Nil)
  qed
qed

text \<open>
  C5. \<^verbatim>\<open>HTTPDownloader.Download\<close> with \<open>RetryAttempts = R \<ge> 0\<close>, once the parent directory
  exists: it makes at most \<open>R + 1\<close> attempts; its effects are exactly the attempts
  \<open>0, 1, ...\<close> in order, each but the first after a pause of \<open>RetryDelay\<close>; when attempt
  \<open>k \<le> R\<close> is the first to succeed the call returns that attempt's digest after exactly
  \<open>k + 1\<close> attempts; and when all of the attempts \<open>0..R\<close> fail the call returns the error
  of attempt \<open>R\<close> wrapped with the attempt count \<open>R + 1\<close>, after exactly \<open>R + 1\<close> attempts.
\<close>

theorem Download_retry_policy:
  assumes R: "0 \<le> Options.RetryAttempts (HTTPDownloader.options h)"
    and dir: "MkdirAll w (Dir w destination) = None"
    and run: "Download w h src destination = (h', effs, result)"
  shows "int (attempts effs) \<le> Options.RetryAttempts (HTTPDownloader.options h) + 1
       \<and> effs = EMkdirAll (Dir w destination) # schedule w h' src destination 0 (attempts effs)
       \<and> (\<forall>k hash. int k \<le> Options.RetryAttempts (HTTPDownloader.options h)
             \<and> fails_from_to w h' src destination 0 k
             \<and> fetch w h' src destination k = Inr hash
             \<longrightarrow> result = Inr hash \<and> attempts effs = k + 1)
       \<and> (fails_from_to w h' src destination 0 (nat (Options.RetryAttempts (HTTPDownloader.options h) + 1))
             \<longrightarrow> (\<exists>err. fetch w h' src destination (nat (Options.RetryAttempts (HTTPDownloader.options h))) = Inl err
                    \<and> result = Inl (ErrDownloadAttempts (Options.RetryAttempts (HTTPDownloader.options h) + 1) (Some err)))
                 \<and> int (attempts effs) = Options.RetryAttempts (HTTPDownloader.options h) + 1)"
proof -
  let ?R = "Options.RetryAttempts (HTTPDownloader.options h)"
  have h': "h' = h\<lparr>HTTPDownloader.source := src\<rparr>"
    and effs: "effs = EMkdirAll (Dir w destination) # fst (Download_loop w h' src destination 0 None)"
    and result: "result = snd (Download_loop w h' src destination 0 None)"
    using run dir by (auto simp add: Download_def Let_def)
  have R': "Options.RetryAttempts (HTTPDownloader.options h') = ?R" by (simp add: h')
  have att: "attempts effs = attempts (fst (Download_loop w h' src destination 0 None))"
    by (simp add: effs attempts_def)
  have le: "int (attempts effs) \<le> ?R + 1"
    using loop_attempts_le [of 0 w h' src destination None] R by (simp add: att R')
  have shape: "effs = EMkdirAll (Dir w destination) # schedule w h' src destination 0 (attempts effs)"
  proof -
    have "fst (Download_loop w h' src destination 0 None)
            = schedule w h' src destination 0 (attempts effs)"
      using loop_schedule [of 0 w h' src destination None] by (simp add: att)
    then show ?thesis by (metis effs)
  qed
  have first: "result = Inr hash \<and> attempts effs = k + 1"
    if "int k \<le> ?R" "fails_from_to w h' src destination 0 k" "fetch w h' src destination k = Inr hash"
    for k hash
    using loop_first_success [of 0 k h' w src destination hash None] that
    by (simp add: result att R')
  have none: "(\<exists>err. fetch w h' src destination (nat ?R) = Inl err
                 \<and> result = Inl (ErrDownloadAttempts (?R + 1) (Some err)))
              \<and> int (attempts effs) = ?R + 1"
    if "fails_from_to w h' src destination 0 (nat (?R + 1))"
    using loop_all_fail [of 0 h' w src destination None] that R
    by (auto simp add: result att R')
  show ?thesis using le shape first none by blast
qed

text \<open>The two runs of the spec's retry test: three attempts allowed beyond the first,
  a backend that fails twice and then succeeds, and a backend that always fails.\<close>

lemma fetch_flaky_world: "fetch flaky_world (retry3\<lparr>HTTPDownloader.source := ''u''\<rparr>) ''u'' ''d'' k =
   (if k < 2 then Inl (ErrHTTPStatus 500) else Inr ''sha256-of-success'')"
  by (simp add: fetch_def downloadFile_def flaky_world_def calm_world_def retry3_def
      NewHTTPDownloader_def zero_options_def ok_exchange_def bad_exchange_def copy_body_def Let_def)

lemma fetch_down_world: "fetch down_world (retry3\<lparr>HTTPDownloader.source := ''u''\<rparr>) ''u'' ''d'' k = Inl (ErrHTTPStatus 500)"
  by (simp add: fetch_def downloadFile_def down_world_def calm_world_def retry3_def
      NewHTTPDownloader_def zero_options_def ok_exchange_def bad_exchange_def copy_body_def Let_def)

theorem Download_retry_policy_witness:
  "0 \<le> Options.RetryAttempts (HTTPDownloader.options retry3)
   \<and> MkdirAll flaky_world (Dir flaky_world ''d'') = None
   \<and> snd (snd (Download flaky_world retry3 ''u'' ''d'')) = Inr ''sha256-of-success''
   \<and> attempts (fst (snd (Download flaky_world retry3 ''u'' ''d''))) = 3
   \<and> MkdirAll down_world (Dir down_world ''d'') = None
   \<and> snd (snd (Download down_world retry3 ''u'' ''d'')) = Inl (ErrDownloadAttempts 4 (Some (ErrHTTPStatus 500)))
   \<and> attempts (fst (snd (Download down_world retry3 ''u'' ''d''))) = 4"
proof -
  have R: "0 \<le> Options.RetryAttempts (HTTPDownloader.options retry3)"
    and R3: "Options.RetryAttempts (HTTPDownloader.options retry3) = 3"
    by (simp_all add: retry3_def NewHTTPDownloader_def zero_options_def)
  have d1: "MkdirAll flaky_world (Dir flaky_world ''d'') = None"
    by (simp add: flaky_world_def calm_world_def)
  have d2: "MkdirAll down_world (Dir down_world ''d'') = None"
    by (simp add: down_world_def calm_world_def)
  obtain h1 e1 r1 where run1: "Download flaky_world retry3 ''u'' ''d'' = (h1, e1, r1)"
    by (cases "Download flaky_world retry3 ''u'' ''d''") auto
  have h1: "h1 = retry3\<lparr>HTTPDownloader.source := ''u''\<rparr>"
    using run1 by (auto simp add: Download_def Let_def split: option.splits)
  obtain h2 e2 r2 where run2: "Download down_world retry3 ''u'' ''d'' = (h2, e2, r2)"
    by (cases "Download down_world retry3 ''u'' ''d''") auto
  have h2: "h2 = retry3\<lparr>HTTPDownloader.source := ''u''\<rparr>"
    using run2 by (auto simp add: Download_def Let_def split: option.splits)
  have upt2: "[0..<2] = [0, Suc 0]" and upt4: "[0..<4] = [0, 1, 2, 3]"
    by (simp_all add: upt_rec)
  have "\<forall>k hash. int k \<le> Options.RetryAttempts (HTTPDownloader.options retry3)
             \<and> fails_from_to flaky_world h1 ''u'' ''d'' 0 k
             \<and> fetch flaky_world h1 ''u'' ''d'' k = Inr hash
             \<longrightarrow> r1 = Inr hash \<and> attempts e1 = k + 1"
    using Download_retry_policy [OF R d1 run1] by blast
  from this [rule_format, of 2 "''sha256-of-success''"]
  have A: "r1 = Inr ''sha256-of-success'' \<and> attempts e1 = 3"
    by (simp add: h1 fetch_flaky_world R3 fails_from_to_def upt2)
  have B: "r2 = Inl (ErrDownloadAttempts 4 (Some (ErrHTTPStatus 500))) \<and> attempts e2 = 4"
    using Download_retry_policy [OF R d2 run2]
    by (simp add: h2 fetch_down_world R3 fails_from_to_def upt4)
  show ?thesis using R d1 d2 A B by (simp add: run1 run2)
qed

subsection \<open>Progress streams end with a terminal update\<close>

lemmas phase_defs = PhaseInit_def PhaseConnecting_def PhaseFetching_def PhaseCheckout_def
  PhaseComplete_def PhaseFailed_def

lemma quiet_progress_update:
  "phase = PhaseConnecting \<or> phase = PhaseFetching \<or> phase = PhaseCheckout
   \<Longrightarrow> \<not> IsComplete (progress_update phase msg)"
  by (auto simp add: IsComplete_def progress_update_def ProgressUpdate_zero_def phase_defs)

lemma terminal_complete: "IsComplete (progress_update PhaseComplete msg)"
  by (simp add: IsComplete_def progress_update_def ProgressUpdate_zero_def)

lemma terminal_failed: "IsComplete (progress_failed e)"
  by (simp add: IsComplete_def progress_failed_def ProgressUpdate_zero_def)

lemma received_append_quiet:
  "list_all quiet pre \<Longrightarrow>
   \<exists>us. received room i (pre @ rest) = us @ received room (i + length pre) rest
        \<and> list_all (\<lambda>u. \<not> IsComplete u) us"
proof (induction pre arbitrary: i)
  case Nil
  then show ?case by simp
next
  case (Cons op pre)
  then have q: "list_all quiet pre" by simp
  from Cons.IH [OF q, of "Suc i"] obtain us where
    us: "received room (Suc i) (pre @ rest) = us @ received room (Suc i + length pre) rest"
        "list_all (\<lambda>u. \<not> IsComplete u) us" by blast
  show ?case
  proof (cases op)
    case (Send u)
    then have "\<not> IsComplete u" using Cons.prems by simp
    then show ?thesis using Send us
      by (intro exI [of _ "u # us"]) simp
  next
    case (TrySend u)
    then have nu: "\<not> IsComplete u" using Cons.prems by simp
    show ?thesis
    proof (cases "room i")
      case True
      then show ?thesis using TrySend us nu by (intro exI [of _ "u # us"]) simp
    next
      case False
      then show ?thesis using TrySend us by (intro exI [of _ us]) simp
    qed
  next
    case Close
    then show ?thesis using Cons.prems by simp
  qed
qed

lemma quiet_not_Close: "list_all quiet pre \<Longrightarrow> count_list pre Close = 0"
  by (induction pre) auto

lemma stream_ok:
  assumes "list_all quiet pre" and "IsComplete t"
  shows "closed_once (pre @ [Send t, Close])
         \<and> terminal_last (received room i (pre @ [Send t, Close]))"
proof -
  from received_append_quiet [OF assms(1), of room i "[Send t, Close]"] obtain us where
    "received room i (pre @ [Send t, Close]) = us @ [t]" "list_all (\<lambda>u. \<not> IsComplete u) us"
    by auto
  then have "terminal_last (received room i (pre @ [Send t, Close]))"
    using assms(2) by (simp add: terminal_last_def)
  moreover have "closed_once (pre @ [Send t, Close])"
    using quiet_not_Close [OF assms(1)] by (simp add: closed_once_def)
  ultimately show ?thesis by simp
qed

lemma quiet_read_loop: "list_all quiet (fst (read_loop x i d bs))"
proof (induction x i d bs rule: read_loop.induct)
  case (1 x i d)
  then show ?case by simp
next
  case (2 x i d b bs)
  then show ?case
    by (auto simp add: Let_def IsComplete_def ProgressUpdate_zero_def phase_defs
        split: option.splits)
qed

lemma quiet_downloadFileWithProgress:
  "list_all quiet (fst (downloadFileWithProgress w h src dst k))"
  using quiet_read_loop [of "HttpGet w src k" 0 0]
  by (simp add: downloadFileWithProgress_def Let_def quiet_progress_update
      split: option.splits)

lemma quiet_scan_progress: "list_all quiet (scan_progress w ls)"
proof (induction ls)
  case Nil
  then show ?case by simp
next
  case (Cons l ls)
  then show ?case
    by (simp add: Let_def IsComplete_def progress_update_def ProgressUpdate_zero_def phase_defs)
qed

lemma finishingI: "list_all quiet pre \<Longrightarrow> IsComplete t \<Longrightarrow> finishing (pre @ [Send t])"
  by (simp add: finishing_def)

lemma finishingD:
  assumes "finishing ops"
  shows "\<exists>pre t. ops = pre @ [Send t] \<and> list_all quiet pre \<and> IsComplete t"
proof -
  from assms have ne: "ops \<noteq> []" and q: "list_all quiet (butlast ops)"
    and l: "(case last ops of Send t \<Rightarrow> IsComplete t | TrySend t \<Rightarrow> False | Close \<Rightarrow> False)"
    by (simp_all add: finishing_def)
  from l obtain t where t: "last ops = Send t" "IsComplete t"
    by (cases "last ops") simp_all
  have "ops = butlast ops @ [Send t]" using ne t(1) by (metis append_butlast_last_id)
  then show ?thesis using q t(2) by blast
qed

lemma finishing_prepend: "list_all quiet xs \<Longrightarrow> finishing ops \<Longrightarrow> finishing (xs @ ops)"
proof -
  assume xs: "list_all quiet xs" and "finishing ops"
  then obtain pre t where "ops = pre @ [Send t]" "list_all quiet pre" "IsComplete t"
    using finishingD by blast
  then show ?thesis using finishingI [of "xs @ pre" t] xs by simp
qed

lemma finishing_Cons: "quiet x \<Longrightarrow> finishing ops \<Longrightarrow> finishing (x # ops)"
  using finishing_prepend [of "[x]" ops] by simp

lemma finishing_single: "IsComplete t \<Longrightarrow> finishing [Send t]"
  using finishingI [of "[]" t] by simp

declare progress_loop.simps [simp del]

lemma finishing_progress_loop: "finishing (fst (progress_loop w h src dst a l))"
proof (induction w h src dst a l rule: progress_loop.induct)
  case (1 w h src dst a l)
  let ?R = "Options.RetryAttempts (HTTPDownloader.options h)"
  show ?case
  proof (cases "a \<le> ?R")
    case False
    then show ?thesis
      by (subst progress_loop.simps) (simp add: finishing_single terminal_failed)
  next
    case True
    let ?retrying = "if a > 0
                then [Send (progress_update PhaseConnecting
                        (''Retrying ('' @ Itoa w a @ ''/'' @ Itoa w ?R @ '')...''))]
                else []"
    have qr: "list_all quiet ?retrying" by (simp add: quiet_progress_update)
    have qf: "list_all quiet (fst (downloadFileWithProgress w h src dst (nat a)))"
      by (rule quiet_downloadFileWithProgress)
    show ?thesis
    proof (cases "snd (snd (downloadFileWithProgress w h src dst (nat a)))")
      case (Inr hash)
      have "finishing (?retrying @ fst (downloadFileWithProgress w h src dst (nat a))
                         @ [Send (progress_update PhaseComplete hash)])"
        using finishingI [of "?retrying @ fst (downloadFileWithProgress w h src dst (nat a))"
            "progress_update PhaseComplete hash"] qr qf terminal_complete
        by simp
      then show ?thesis using True Inr
        by (subst progress_loop.simps) (simp add: Let_def)
    next
      case (Inl err)
      have "finishing (fst (progress_loop w h src dst (a + 1) (Some err)))"
        using "1.IH" [OF True refl refl refl Inl] .
      then have "finishing (?retrying @ fst (downloadFileWithProgress w h src dst (nat a))
                   @ fst (progress_loop w h src dst (a + 1) (Some err)))"
        using qr qf by (intro finishing_prepend) simp_all
      then show ?thesis using True Inl
        by (subst progress_loop.simps) (simp add: Let_def)
    qed
  qed
qed

lemma finishing_stream:
  assumes "finishing body"
  shows "closed_once (body @ [Close]) \<and> terminal_last (received room i (body @ [Close]))"
proof -
  from assms obtain pre t where "body = pre @ [Send t]" "list_all quiet pre" "IsComplete t"
    using finishingD by blast
  then show ?thesis using stream_ok [of pre t room i] by simp
qed

lemma HTTP_DownloadWithProgress_finishing:
  "\<exists>body. channel (snd (HTTP_DownloadWithProgress w h src dst)) = Some (body @ [Close])
          \<and> finishing body"
proof (cases "MkdirAll w (Dir w dst)")
  case None
  have "finishing (Send (progress_update PhaseConnecting ''Connecting...'')
          # fst (progress_loop w (h\<lparr>HTTPDownloader.source := src\<rparr>) src dst 0 None))"
    by (intro finishing_Cons finishing_progress_loop) (simp add: quiet_progress_update)
  then show ?thesis using None
    by (simp add: HTTP_DownloadWithProgress_def Let_def)
next
  case (Some err)
  have "finishing ([Send (progress_update PhaseConnecting ''Connecting...'')]
          @ [Send (progress_failed (ErrCreateDir err))])"
    by (intro finishingI) (simp_all add: quiet_progress_update terminal_failed)
  then show ?thesis using Some
    by (simp add: HTTP_DownloadWithProgress_def Let_def)
qed

lemma finishing_one: "finishing [Send t] = IsComplete t"
  by (simp add: finishing_def)

lemma finishing_Cons_iff: "zs \<noteq> [] \<Longrightarrow> finishing (x # zs) = (quiet x \<and> finishing zs)"
  by (auto simp add: finishing_def)

lemma finishing_append_iff:
  "zs \<noteq> [] \<Longrightarrow> finishing (ys @ zs) = (list_all quiet ys \<and> finishing zs)"
  by (auto simp add: finishing_def butlast_append)

lemmas finishing_iffs = finishing_one finishing_Cons_iff finishing_append_iff

lemma clone_goroutine_finishing: "finishing (fst (clone_goroutine w g args dst))"
  unfolding clone_goroutine_def Let_def
  by (auto split: option.splits sum.splits
      simp add: finishing_iffs quiet_progress_update quiet_scan_progress
        terminal_failed terminal_complete)

lemma fetch_goroutine_finishing: "finishing (fst (fetch_goroutine w g dst))"
  unfolding fetch_goroutine_def Let_def
  by (auto split: option.splits sum.splits
      simp add: finishing_iffs quiet_progress_update quiet_scan_progress
        terminal_failed terminal_complete)

text \<open>
  C6. For both transports, whenever \<^verbatim>\<open>DownloadWithProgress\<close> or \<^verbatim>\<open>UpdateWithProgress\<close>
  returns a channel: the goroutine closes the channel exactly once, as its last
  operation on it; and whichever of the non-blocking sends find room in the buffer, the
  sequence of updates received up to the closing is not empty, its last update has
  phase \<open>complete\<close> or \<open>failed\<close>, and no earlier update has such a phase.
\<close>

theorem progress_stream_terminal:
  "(channel (DownloadWithProgress w dl src destination) = Some ops
      \<longrightarrow> closed_once ops \<and> terminal_last (received room 0 ops))
   \<and> (channel (UpdateWithProgress w dl destination) = Some ops'
      \<longrightarrow> closed_once ops' \<and> terminal_last (received room 0 ops'))"
proof (cases dl)
  case (GitDL g)
  show ?thesis
    using finishing_stream [OF clone_goroutine_finishing, where room = room and i = 0]
      finishing_stream [OF fetch_goroutine_finishing, where room = room and i = 0]
    by (auto simp add: GitDL Git_DownloadWithProgress_def Git_UpdateWithProgress_def Let_def)
next
  case (HTTPDL h)
  have "channel (snd (HTTP_UpdateWithProgress w h destination)) = Some ops'
        \<Longrightarrow> closed_once ops' \<and> terminal_last (received room 0 ops')"
    using HTTP_DownloadWithProgress_finishing [of w h "HTTPDownloader.source h" destination]
      finishing_stream [of _ room 0]
    by (auto simp add: HTTP_UpdateWithProgress_def split: if_splits)
  then show ?thesis
    using HTTP_DownloadWithProgress_finishing [of w h src destination]
      finishing_stream [of _ room 0]
    by (auto simp add: HTTPDL)
qed

theorem progress_stream_terminal_witness:
  "channel (DownloadWithProgress calm_world (GitDL (NewGitDownloader zero_options)) ''u'' ''d'')
     = Some [Send (progress_update PhaseConnecting ''Connecting to remote...''),
             Send (progress_update PhaseFetching ''Cloning repository...''),
             Send (progress_update PhaseComplete []), Close]
   \<and> closed_once [Send (progress_update PhaseConnecting ''Connecting to remote...''),
             Send (progress_update PhaseFetching ''Cloning repository...''),
             Send (progress_update PhaseComplete []), Close]
   \<and> terminal_last (received (\<lambda>i. True) 0
            [Send (progress_update PhaseConnecting ''Connecting to remote...''),
             Send (progress_update PhaseFetching ''Cloning repository...''),
             Send (progress_update PhaseComplete []), Close])
   \<and> channel (UpdateWithProgress calm_world (GitDL (NewGitDownloader zero_options)) ''d'')
     = Some [Send (progress_update PhaseFetching ''Fetching updates...''),
             Send (progress_update PhaseCheckout ''Checking out...''),
             Send (progress_update PhaseComplete []), Close]
   \<and> closed_once [Send (progress_update PhaseFetching ''Fetching updates...''),
             Send (progress_update PhaseCheckout ''Checking out...''),
             Send (progress_update PhaseComplete []), Close]
   \<and> terminal_last (received (\<lambda>i. True) 0
            [Send (progress_update PhaseFetching ''Fetching updates...''),
             Send (progress_update PhaseCheckout ''Checking out...''),
             Send (progress_update PhaseComplete []), Close])"
proof -
  have d: "channel (DownloadWithProgress calm_world (GitDL (NewGitDownloader zero_options)) ''u'' ''d'')
     = Some [Send (progress_update PhaseConnecting ''Connecting to remote...''),
             Send (progress_update PhaseFetching ''Cloning repository...''),
             Send (progress_update PhaseComplete []), Close]"
    by (simp add: Git_DownloadWithProgress_def clone_goroutine_def clone_flags_def
        NewGitDownloader_def zero_options_def calm_world_def calm_proc_def checkoutRef_def
        getHeadSHA_def run_err_def Let_def)
  have u: "channel (UpdateWithProgress calm_world (GitDL (NewGitDownloader zero_options)) ''d'')
     = Some [Send (progress_update PhaseFetching ''Fetching updates...''),
             Send (progress_update PhaseCheckout ''Checking out...''),
             Send (progress_update PhaseComplete []), Close]"
    by (simp add: Git_UpdateWithProgress_def fetch_goroutine_def
        NewGitDownloader_def zero_options_def calm_world_def calm_proc_def checkoutRef_def
        getHeadSHA_def run_err_def Let_def)
  let ?X = "[Send (progress_update PhaseConnecting ''Connecting to remote...''),
             Send (progress_update PhaseFetching ''Cloning repository...''),
             Send (progress_update PhaseComplete []), Close]"
  let ?Y = "[Send (progress_update PhaseFetching ''Fetching updates...''),
             Send (progress_update PhaseCheckout ''Checking out...''),
             Send (progress_update PhaseComplete []), Close]"
  note T = progress_stream_terminal [of calm_world "GitDL (NewGitDownloader zero_options)"
        "''u''" "''d''" ?X "\<lambda>i. True" ?Y]
  have A: "closed_once ?X \<and> terminal_last (received (\<lambda>i. True) 0 ?X)"
    using T d by blast
  have B: "closed_once ?Y \<and> terminal_last (received (\<lambda>i. True) 0 ?Y)"
    using T u by blast
  show ?thesis using d u A B by blast
qed

subsection \<open>Selection errors and the empty selection\<close>

lemma add_names_unknown:
  "find (\<lambda>n. GetRepository c n = None) names = Some n0
   \<Longrightarrow> add_names c names repoSet = Inl (ErrRepoNotFound n0)"
  by (induction names arbitrary: repoSet) (auto split: option.splits)

lemma find_unknown:
  "name \<in> set names \<Longrightarrow> GetRepository c name = None
   \<Longrightarrow> \<exists>n0. find (\<lambda>n. GetRepository c n = None) names = Some n0"
  by (cases "find (\<lambda>n. GetRepository c n = None) names") (auto simp add: find_None_iff)

lemmas test_defs = test_manager_def NewRepositoryManager_def WithLockFile_def test_config_def
  repo1_def repo2_def repo3_def zero_repo_def zero_filter_def calm_world_def
  RepoTypeGit_def RepoTypeHTTP_def

text \<open>
  C3. A filter that does not ask for all repositories and names a repository that is not
  in the catalog: \<^verbatim>\<open>Sync\<close> returns an error and no report; all it has done is to create
  the work directory, so no task was started, no result was produced, and the manager
  (with its lock file) is as it was. When the work directory could be created, the error
  is "repository not found" for the first unknown name of the filter.
\<close>

theorem Sync_unknown_name:
  assumes "\<not> All_flag f" and "name \<in> set (Names f)" and "GetRepository (config m) name = None"
  shows "\<exists>err. Sync w m f = Ret (m, [EMkdirAll (workDir m)], Inl err)
           \<and> (MkdirAll w (workDir m) = None
                \<longrightarrow> (\<exists>n0. find (\<lambda>n. GetRepository (config m) n = None) (Names f) = Some n0
                          \<and> err = ErrRepoNotFound n0))"
proof -
  from find_unknown [OF assms(2,3)] obtain n0 where
    n0: "find (\<lambda>n. GetRepository (config m) n = None) (Names f) = Some n0" by blast
  have ne: "Names f \<noteq> []" using assms(2) by auto
  have "getRepositories w m f = Inl (ErrRepoNotFound n0)"
    using assms(1) ne add_names_unknown [OF n0] by (simp add: getRepositories_def)
  then show ?thesis
    using n0 by (simp add: Sync_def ensureWorkDir_def Let_def split: option.splits)
qed

theorem Sync_unknown_name_witness:
  "\<not> All_flag (zero_filter\<lparr>Names := [''nonexistent'']\<rparr>)
   \<and> ''nonexistent'' \<in> set (Names (zero_filter\<lparr>Names := [''nonexistent'']\<rparr>))
   \<and> GetRepository (config test_manager) ''nonexistent'' = None
   \<and> MkdirAll calm_world (workDir test_manager) = None
   \<and> Sync calm_world test_manager (zero_filter\<lparr>Names := [''nonexistent'']\<rparr>)
       = Ret (test_manager, [EMkdirAll ''/work''], Inl (ErrRepoNotFound ''nonexistent''))"
proof -
  let ?f = "zero_filter\<lparr>Names := [''nonexistent'']\<rparr>"
  have a: "\<not> All_flag ?f" by (simp add: zero_filter_def)
  have b: "''nonexistent'' \<in> set (Names ?f)" by simp
  have c: "GetRepository (config test_manager) ''nonexistent'' = None"
    by (simp add: GetRepository_def test_defs)
  have d: "MkdirAll calm_world (workDir test_manager) = None"
    by (simp add: calm_world_def)
  have e: "workDir test_manager = ''/work''" by (simp add: test_defs)
  have f: "find (\<lambda>n. GetRepository (config test_manager) n = None) (Names ?f) = Some ''nonexistent''"
    using c by simp
  from Sync_unknown_name [OF a b c, of calm_world] d e f
  have "Sync calm_world test_manager ?f
       = Ret (test_manager, [EMkdirAll ''/work''], Inl (ErrRepoNotFound ''nonexistent''))"
    by auto
  then show ?thesis using a b c d by blast
qed

text \<open>
  C8. A filter that resolves to the empty list: all \<^verbatim>\<open>Sync\<close> does is to create the work
  directory, so the Lock Store is neither read, written nor persisted, and the manager
  (with its lock file) is returned as it was; when the directory could be created, the
  call returns a report with no results whose three counts are zero.
\<close>

theorem Sync_empty_set:
  assumes "getRepositories w m f = Inr []"
  shows "\<exists>outcome. Sync w m f = Ret (m, [EMkdirAll (workDir m)], outcome)
           \<and> (MkdirAll w (workDir m) = None
                \<longrightarrow> (\<exists>report. outcome = Inr report \<and> TotalRepos report = 0
                       \<and> SuccessCount report = 0 \<and> FailureCount report = 0
                       \<and> Results report = [] \<and> \<not> HasFailures report))"
  using assms
  by (simp add: Sync_def ensureWorkDir_def Let_def SyncResult_zero_def HasFailures_def
      split: option.splits)

theorem Sync_empty_set_witness:
  "getRepositories calm_world test_manager (zero_filter\<lparr>Filter.Tags := [''docs'']\<rparr>) = Inr []
   \<and> MkdirAll calm_world (workDir test_manager) = None
   \<and> Sync calm_world test_manager (zero_filter\<lparr>Filter.Tags := [''docs'']\<rparr>)
       = Ret (test_manager, [EMkdirAll ''/work''], Inr SyncResult_zero)"
proof -
  let ?f = "zero_filter\<lparr>Filter.Tags := [''docs'']\<rparr>"
  have a: "getRepositories calm_world test_manager ?f = Inr []"
    by (simp add: getRepositories_def GetRepositoriesByTag_def test_defs)
  have d: "MkdirAll calm_world (workDir test_manager) = None"
    by (simp add: calm_world_def)
  have e: "workDir test_manager = ''/work''" by (simp add: test_defs)
  from Sync_empty_set [OF a] d e obtain report where
    "Sync calm_world test_manager ?f = Ret (test_manager, [EMkdirAll ''/work''], Inr report)"
    "TotalRepos report = 0" "SuccessCount report = 0" "FailureCount report = 0"
    "Results report = []"
    by auto
  moreover have "Sync calm_world test_manager ?f
       = Ret (test_manager, [EMkdirAll ''/work''], Inr SyncResult_zero)"
    using a d e by (simp add: Sync_def ensureWorkDir_def)
  ultimately show ?thesis using a d by blast
qed

subsection \<open>The lock file after a sync\<close>

lemma GetRepository_Some:
  "GetRepository c name = Some repo
   \<Longrightarrow> Repository.Name repo = name \<and> repo \<in> set (Config.Repositories c)"
  by (auto simp add: GetRepository_def find_Some_iff)

lemma GetRepository_distinct:
  assumes "distinct (map Repository.Name (Config.Repositories c))"
    and "repo \<in> set (Config.Repositories c)"
  shows "GetRepository c (Repository.Name repo) = Some repo"
proof (cases "GetRepository c (Repository.Name repo)")
  case None
  then show ?thesis using assms(2) by (auto simp add: GetRepository_def find_None_iff)
next
  case (Some repo')
  then have "Repository.Name repo' = Repository.Name repo" "repo' \<in> set (Config.Repositories c)"
    using GetRepository_Some by blast+
  then have "repo' = repo"
    using assms by (meson distinct_map inj_onD)
  then show ?thesis using Some by simp
qed

lemma set_repoSet_put:
  "fst ` set (repoSet_put name repo repoSet) = insert name (fst ` set repoSet)"
  by (induction repoSet) auto

lemma filed_put:
  "filed c repoSet \<Longrightarrow> repo \<in> set (Config.Repositories c) \<Longrightarrow> Repository.Name repo = name
   \<Longrightarrow> filed c (repoSet_put name repo repoSet)"
proof (induction repoSet)
  case Nil
  then show ?case by (simp add: filed_def)
next
  case (Cons kv kvs)
  then have tl: "filed c kvs" by (simp add: filed_def)
  show ?case
  proof (cases "fst kv = name")
    case True
    then show ?thesis using Cons.prems by (simp add: filed_def)
  next
    case False
    have "filed c (repoSet_put name repo kvs)" using Cons.IH tl Cons.prems by simp
    moreover have "fst kv \<notin> set (map fst (repoSet_put name repo kvs))"
      using False Cons.prems(1) by (simp add: set_repoSet_put filed_def)
    ultimately show ?thesis using False Cons.prems(1) by (simp add: filed_def)
  qed
qed

lemma filed_add_repos:
  "filed c repoSet \<Longrightarrow> set repos \<subseteq> set (Config.Repositories c) \<Longrightarrow> filed c (add_repos repos repoSet)"
  by (induction repos arbitrary: repoSet) (simp_all add: filed_put)

lemma filed_add_names:
  "filed c repoSet \<Longrightarrow> add_names c names repoSet = Inr out \<Longrightarrow> filed c out"
proof (induction names arbitrary: repoSet)
  case Nil
  then show ?case by simp
next
  case (Cons name names)
  then show ?case
    by (auto split: option.splits dest!: GetRepository_Some intro: filed_put)
qed

lemma project_repos_subset:
  "project_repos c p names = Inr repos \<Longrightarrow> set repos \<subseteq> set (Config.Repositories c)"
  by (induction names arbitrary: repos)
     (auto split: option.splits sum.splits dest!: GetRepository_Some)

lemma filed_add_projects:
  "filed c repoSet \<Longrightarrow> add_projects c ps repoSet = Inr out \<Longrightarrow> filed c out"
proof (induction ps arbitrary: repoSet)
  case Nil
  then show ?case by simp
next
  case (Cons p ps)
  show ?case
  proof (cases "GetRepositoriesForProject c p")
    case (Inl e)
    then show ?thesis using Cons.prems by simp
  next
    case (Inr repos)
    then have "set repos \<subseteq> set (Config.Repositories c)"
      by (auto simp add: GetRepositoriesForProject_def split: option.splits
          dest: project_repos_subset)
    then have "filed c (add_repos repos repoSet)" using Cons.prems(1) filed_add_repos by blast
    then show ?thesis using Cons.IH Cons.prems(2) Inr by simp
  qed
qed

lemma filed_add_tags: "filed c repoSet \<Longrightarrow> filed c (add_tags c tags repoSet)"
proof (induction tags arbitrary: repoSet)
  case Nil
  then show ?case by simp
next
  case (Cons t ts)
  have "set (GetRepositoriesByTag c t) \<subseteq> set (Config.Repositories c)"
    by (auto simp add: GetRepositoriesByTag_def)
  then show ?case using Cons filed_add_repos by simp
qed

lemma filed_values:
  assumes "filed c repoSet"
  shows "distinct (map Repository.Name (map snd repoSet))
         \<and> set (map snd repoSet) \<subseteq> set (Config.Repositories c)"
proof -
  have eq: "map Repository.Name (map snd repoSet) = map fst repoSet"
    using assms by (induction repoSet) (auto simp add: filed_def)
  have "distinct (map fst repoSet)" using assms by (simp add: filed_def)
  then have "distinct (map Repository.Name (map snd repoSet))" by (simp only: eq)
  moreover have "set (map snd repoSet) \<subseteq> set (Config.Repositories c)"
    using assms by (auto simp add: filed_def list_all_iff)
  ultimately show ?thesis by blast
qed

lemma getRepositories_selection:
  assumes "getRepositories w m f = Inr repos"
    and "distinct (map Repository.Name (Config.Repositories (config m)))"
    and "\<forall>xs. mset (MapRange w xs) = mset xs"
  shows "distinct (map Repository.Name repos) \<and> set repos \<subseteq> set (Config.Repositories (config m))"
proof (cases "All_flag f \<or> (Names f = [] \<and> Filter.Projects f = [] \<and> Filter.Tags f = [])")
  case True
  then have "repos = Config.Repositories (config m)"
    using assms(1) by (simp add: getRepositories_def)
  then show ?thesis using assms(2) by simp
next
  case False
  then obtain named grouped where
    n: "add_names (config m) (Names f) [] = Inr named"
    and g: "add_projects (config m) (Filter.Projects f) named = Inr grouped"
    and r: "repos = MapRange w (map snd (add_tags (config m) (Filter.Tags f) grouped))"
    using assms(1) by (auto simp add: getRepositories_def split: sum.splits)
  have "filed (config m) []" by (simp add: filed_def)
  then have "filed (config m) named" using n filed_add_names by blast
  then have "filed (config m) grouped" using g filed_add_projects by blast
  then have "filed (config m) (add_tags (config m) (Filter.Tags f) grouped)"
    using filed_add_tags by blast
  from filed_values [OF this]
  have d: "distinct (map Repository.Name (map snd (add_tags (config m) (Filter.Tags f) grouped)))"
    and s: "set (map snd (add_tags (config m) (Filter.Tags f) grouped))
              \<subseteq> set (Config.Repositories (config m))" by blast+
  have p: "mset repos = mset (map snd (add_tags (config m) (Filter.Tags f) grouped))"
    using assms(3) r by simp
  have "mset (map Repository.Name repos)
          = mset (map Repository.Name (map snd (add_tags (config m) (Filter.Tags f) grouped)))"
    using p by (metis mset_map)
  then have "distinct (map Repository.Name repos)"
    using d by (metis mset_eq_imp_distinct_iff)
  moreover have "set repos = set (map snd (add_tags (config m) (Filter.Tags f) grouped))"
    using p by (metis set_mset_mset)
  ultimately show ?thesis using s by simp
qed

lemma syncRepository_names:
  "syncRepository w m repo = (effs, Ret r)
   \<Longrightarrow> OperationResult.RepoName r = Repository.Name repo
       \<and> OperationResult.RepoURL r = Repository.URL repo"
  by (auto simp add: syncRepository_def Let_def
      split: option.splits sum.splits outcome.splits if_splits)

lemma join_all_Ret:
  "join_all outs = Ret xs \<Longrightarrow> outs = map Ret xs"
proof (induction outs arbitrary: xs)
  case Nil
  then show ?case by simp
next
  case (Cons out outs)
  then show ?case by (cases out) (auto split: outcome.splits)
qed

lemma tasks_names:
  assumes "join_all (map snd (map (syncRepository w m) repos)) = Ret results"
  shows "map OperationResult.RepoName results = map Repository.Name repos
         \<and> map OperationResult.RepoURL results = map Repository.URL repos"
proof -
  have eq: "map snd (map (syncRepository w m) repos) = map Ret results"
    using join_all_Ret [OF assms] .
  then have len: "length results = length repos"
    by (metis length_map)
  have "OperationResult.RepoName (results ! i) = Repository.Name (repos ! i)
        \<and> OperationResult.RepoURL (results ! i) = Repository.URL (repos ! i)"
    if "i < length repos" for i
  proof -
    have "snd (syncRepository w m (repos ! i)) = Ret (results ! i)"
      using eq that len by (metis length_map nth_map)
    then show ?thesis
      using syncRepository_names [of w m "repos ! i" "fst (syncRepository w m (repos ! i))"]
      by (metis prod.collapse)
  qed
  then show ?thesis using len by (auto intro!: nth_equalityI)
qed

lemma update_entries_other:
  "n \<notin> OperationResult.RepoName ` {r \<in> set results. Success r}
   \<Longrightarrow> Entries (fst (update_entries w c lf results)) n = Entries lf n"
proof (induction results arbitrary: lf)
  case Nil
  then show ?case by simp
next
  case (Cons r rs)
  then have rest: "n \<notin> OperationResult.RepoName ` {r \<in> set rs. Success r}" by auto
  show ?case
  proof (cases "Success r")
    case False
    then show ?thesis using Cons.IH [OF rest] by simp
  next
    case True
    then have "OperationResult.RepoName r \<noteq> n" using Cons.prems by auto
    then show ?thesis
      using Cons.IH [OF rest] True
      by (simp add: Let_def Update_def split: option.splits)
  qed
qed

lemma update_entries_written:
  assumes "distinct (map OperationResult.RepoName results)"
    and "r \<in> set results" and "Success r"
    and "GetRepository c (OperationResult.RepoName r) = Some repo"
  shows "Entries (fst (update_entries w c lf results)) (OperationResult.RepoName r)
           = Some (NewEntry (Now w (OperationResult.RepoName r)) (Repository.URL repo)
                     (Repository.Type repo)
                     (GetEffectiveRef repo (DefaultBranch (Config.General c))) (CommitSHA r))"
  using assms
proof (induction results arbitrary: lf)
  case Nil
  then show ?case by simp
next
  case (Cons x xs)
  show ?case
  proof (cases "x = r")
    case True
    have "OperationResult.RepoName r \<notin> OperationResult.RepoName ` {y \<in> set xs. Success y}"
      using Cons.prems(1) True by auto
    from update_entries_other [OF this]
    show ?thesis using True Cons.prems(3,4)
      by (simp add: Let_def Update_def)
  next
    case False
    then have "r \<in> set xs" using Cons.prems(2) by simp
    moreover have "distinct (map OperationResult.RepoName xs)" using Cons.prems(1) by simp
    ultimately have IH: "\<And>lf. Entries (fst (update_entries w c lf xs)) (OperationResult.RepoName r)
           = Some (NewEntry (Now w (OperationResult.RepoName r)) (Repository.URL repo)
                     (Repository.Type repo)
                     (GetEffectiveRef repo (DefaultBranch (Config.General c))) (CommitSHA r))"
      using Cons.IH Cons.prems(3,4) by blast
    show ?thesis using IH by (simp add: Let_def split: option.splits)
  qed
qed

lemma Sync_run:
  assumes "MkdirAll w (workDir m) = None" and "getRepositories w m f = Inr repos"
    and "repos \<noteq> []"
    and "m1 = (case ui m of
                 None \<Rightarrow> m\<lparr>ui := Some (fst (Start (NewProgressManager
                                                      (RepositoryManager.interactive m))))\<rparr>
               | Some pm \<Rightarrow> m)"
    and "join_all (map snd (map (syncRepository w m1) repos)) = Ret results"
  shows "\<exists>effs. Sync w m f
           = Ret (fst (updateLockFile w m1 results), effs,
                  Inr (NewSyncResult results (Since w [])))"
  using assms by (simp add: Sync_def ensureWorkDir_def Let_def)

lemmas world_defs = sync_world_def calm_proc_def head_sha_def ok_exchange_def

lemmas transport_defs = resolveRef_def NewFromRepository_def New_def getRepoPath_def
  GetEffectivePath_def Exists_def Git_DownloadWithProgress_def clone_goroutine_def
  clone_flags_def checkoutRef_def getHeadSHA_def run_err_def NewGitDownloader_def
  HTTP_DownloadWithProgress_def downloadFileWithProgress_def NewHTTPDownloader_def
  GetDepth_def IsShallow_def HasSubmodules_def ui_send_def progress_update_def
  progress_failed_def ProgressUpdate_zero_def phase_defs slice_to_def
  CreateProgressMsg_def CreateProgressMsgWithPercent_def CreateCompletedMsg_def
  CreateErrorMsg_def Start_def NewProgressManager_def

lemma concluding_one:
  "concluding [Send t] = (ProgressUpdate.Error t \<noteq> None \<or> ProgressUpdate.Phase t = PhaseComplete)"
  by (simp add: concluding_def)

lemma concluding_Cons_iff: "zs \<noteq> [] \<Longrightarrow> concluding (x # zs) = concluding zs"
  by (simp add: concluding_def)

lemma concluding_append_iff: "zs \<noteq> [] \<Longrightarrow> concluding (ys @ zs) = concluding zs"
  by (simp add: concluding_def)

lemmas concluding_iffs = concluding_one concluding_Cons_iff concluding_append_iff

lemma concluding_failed: "ProgressUpdate.Error (progress_failed e) \<noteq> None"
  by (simp add: progress_failed_def ProgressUpdate_zero_def)

lemma concluding_complete: "ProgressUpdate.Phase (progress_update PhaseComplete msg) = PhaseComplete"
  by (simp add: progress_update_def ProgressUpdate_zero_def)

lemma clone_goroutine_concluding: "concluding (fst (clone_goroutine w g args dst))"
  unfolding clone_goroutine_def Let_def
  by (auto split: option.splits sum.splits
      simp add: concluding_iffs concluding_failed concluding_complete)

lemma fetch_goroutine_concluding: "concluding (fst (fetch_goroutine w g dst))"
  unfolding fetch_goroutine_def Let_def
  by (auto split: option.splits sum.splits
      simp add: concluding_iffs concluding_failed concluding_complete)

lemma concluding_progress_loop: "concluding (fst (progress_loop w h src dst a l))"
proof (induction w h src dst a l rule: progress_loop.induct)
  case (1 w h src dst a l)
  let ?R = "Options.RetryAttempts (HTTPDownloader.options h)"
  show ?case
  proof (cases "a \<le> ?R")
    case False
    then show ?thesis
      by (subst progress_loop.simps) (simp add: concluding_iffs concluding_failed)
  next
    case True
    show ?thesis
    proof (cases "snd (snd (downloadFileWithProgress w h src dst (nat a)))")
      case (Inr hash)
      then show ?thesis using True
        by (subst progress_loop.simps)
          (simp add: Let_def concluding_iffs concluding_complete)
    next
      case (Inl err)
      have c: "concluding (fst (progress_loop w h src dst (a + 1) (Some err)))"
        using "1.IH" [OF True refl refl refl Inl] .
      then have ne: "fst (progress_loop w h src dst (a + 1) (Some err)) \<noteq> []"
        by (simp add: concluding_def)
      show ?thesis using True Inl c ne
        by (subst progress_loop.simps) (simp add: Let_def concluding_append_iff)
    qed
  qed
qed

lemma HTTP_DownloadWithProgress_concluding:
  "\<exists>body. channel (snd (HTTP_DownloadWithProgress w h src dst)) = Some (body @ [Close])
          \<and> finishing body \<and> concluding body"
proof (cases "MkdirAll w (Dir w dst)")
  case None
  let ?loop = "fst (progress_loop w (h\<lparr>HTTPDownloader.source := src\<rparr>) src dst 0 None)"
  have f: "finishing (Send (progress_update PhaseConnecting ''Connecting...'') # ?loop)"
    by (intro finishing_Cons finishing_progress_loop) (simp add: quiet_progress_update)
  have "concluding ?loop" by (rule concluding_progress_loop)
  then have "concluding (Send (progress_update PhaseConnecting ''Connecting...'') # ?loop)"
    by (simp add: concluding_def)
  then show ?thesis using None f
    by (simp add: HTTP_DownloadWithProgress_def Let_def)
next
  case (Some err)
  have "finishing ([Send (progress_update PhaseConnecting ''Connecting...'')]
          @ [Send (progress_failed (ErrCreateDir err))])"
    by (intro finishingI) (simp_all add: quiet_progress_update terminal_failed)
  moreover have "concluding ([Send (progress_update PhaseConnecting ''Connecting...'')]
          @ [Send (progress_failed (ErrCreateDir err))])"
    by (simp add: concluding_iffs concluding_failed)
  ultimately show ?thesis using Some
    by (simp add: HTTP_DownloadWithProgress_def Let_def)
qed

text \<open>What is received from a started operation that did not fail at once.\<close>

lemma body_received:
  assumes "finishing body" and "concluding body"
  shows "\<exists>us t. received room i (body @ [Close]) = us @ [t]
           \<and> (ProgressUpdate.Error t \<noteq> None \<or> ProgressUpdate.Phase t = PhaseComplete)"
proof -
  from assms(1) obtain pre t where b: "body = pre @ [Send t]" "list_all quiet pre"
    using finishingD by blast
  from received_append_quiet [OF b(2), of room i "[Send t, Close]"] obtain us where
    "received room i (pre @ [Send t, Close]) = us @ [t]" by auto
  moreover have "ProgressUpdate.Error t \<noteq> None \<or> ProgressUpdate.Phase t = PhaseComplete"
    using assms(2) b(1) by (simp add: concluding_def)
  ultimately show ?thesis using b(1) by auto
qed

lemma started_received:
  assumes "begun = UpdateWithProgress w dl destination
           \<or> begun = DownloadWithProgress w dl src destination"
    and "failure begun = None"
  shows "\<exists>ops us t. channel begun = Some ops \<and> received room 0 ops = us @ [t]
           \<and> (ProgressUpdate.Error t \<noteq> None \<or> ProgressUpdate.Phase t = PhaseComplete)"
proof (cases dl)
  case (GitDL g)
  show ?thesis
    using assms(1)
      body_received [OF clone_goroutine_finishing clone_goroutine_concluding, of room 0]
      body_received [OF fetch_goroutine_finishing fetch_goroutine_concluding, of room 0]
    by (auto simp add: GitDL Git_DownloadWithProgress_def Git_UpdateWithProgress_def Let_def)
next
  case (HTTPDL h)
  have d: "\<exists>ops us t. channel (snd (HTTP_DownloadWithProgress w h s destination)) = Some ops
             \<and> received room 0 ops = us @ [t]
             \<and> (ProgressUpdate.Error t \<noteq> None \<or> ProgressUpdate.Phase t = PhaseComplete)" for s
    using HTTP_DownloadWithProgress_concluding [of w h s destination] body_received [of _ room 0]
    by metis
  show ?thesis
    using assms d [of src] d [of "HTTPDownloader.source h"]
    by (auto simp add: HTTPDL HTTP_UpdateWithProgress_def split: if_splits)
qed

lemma drain_snoc:
  "snd (drain m repo s0 (us @ [t])) = Inr s
   \<Longrightarrow> ProgressUpdate.Error t = None
       \<and> (ProgressUpdate.Phase t = PhaseComplete \<longrightarrow> s = ProgressUpdate.Message t)"
proof (induction us arbitrary: s0)
  case Nil
  then show ?case by (auto simp add: Let_def split: option.splits)
next
  case (Cons u us)
  then show ?case by (auto simp add: Let_def split: option.splits)
qed

lemma syncRepository_success:
  "snd (syncRepository w m repo) = Ret r \<Longrightarrow> Success r
   \<Longrightarrow> snd (resolveRef w m repo) = Inr (CommitSHA r)"
  by (auto simp add: syncRepository_def Let_def
      split: option.splits sum.splits outcome.splits if_splits)

lemma resolveRef_success:
  assumes "snd (resolveRef w m repo) = Inr sha"
  shows "\<exists>dl ops. NewFromRepository repo (config m) = Inr dl
           \<and> channel (if Exists w (getRepoPath w m repo)
                      then UpdateWithProgress w dl (getRepoPath w m repo)
                      else DownloadWithProgress w dl (Repository.URL repo) (getRepoPath w m repo))
               = Some ops
           \<and> received (Room w) 0 ops \<noteq> []
           \<and> ProgressUpdate.Phase (last (received (Room w) 0 ops)) = PhaseComplete
           \<and> (if ProgressUpdate.Message (last (received (Room w) 0 ops)) = []
              then snd (GetCurrentRef w dl (getRepoPath w m repo)) = Inr sha
              else sha = ProgressUpdate.Message (last (received (Room w) 0 ops)))"
proof -
  let ?path = "getRepoPath w m repo"
  obtain dl where dl: "NewFromRepository repo (config m) = Inr dl"
    using assms by (cases "NewFromRepository repo (config m)") (auto simp add: resolveRef_def Let_def)
  define begun where "begun = (if Exists w ?path then UpdateWithProgress w dl ?path
                               else DownloadWithProgress w dl (Repository.URL repo) ?path)"
  have nf: "failure begun = None"
    using assms dl by (cases "failure begun") (auto simp add: resolveRef_def Let_def begun_def)
  have "begun = UpdateWithProgress w dl ?path
        \<or> begun = DownloadWithProgress w dl (Repository.URL repo) ?path"
    by (simp add: begun_def)
  from started_received [OF this nf, of "Room w"] obtain ops us t where
    ch: "channel begun = Some ops" and rc: "received (Room w) 0 ops = us @ [t]"
    and t: "ProgressUpdate.Error t \<noteq> None \<or> ProgressUpdate.Phase t = PhaseComplete"
    by blast
  obtain s where s: "snd (drain m repo (first_sha begun) (us @ [t])) = Inr s"
    and fin: "if s = [] then snd (GetCurrentRef w dl ?path) = Inr sha else sha = s"
    using assms dl nf ch rc
    by (cases "snd (drain m repo (first_sha begun) (us @ [t]))")
      (auto simp add: resolveRef_def Let_def begun_def split: sum.splits if_splits)
  from drain_snoc [OF s] t have "ProgressUpdate.Phase t = PhaseComplete"
    "s = ProgressUpdate.Message t" by auto
  then show ?thesis
    using dl ch rc fin unfolding begun_def by (intro exI [of _ dl] exI [of _ ops]) simp
qed

lemma join_all_nth:
  assumes "join_all (map snd (map (syncRepository w m) repos)) = Ret results"
    and "r \<in> set results"
  shows "\<exists>repo \<in> set repos. snd (syncRepository w m repo) = Ret r"
proof -
  have eq: "map snd (map (syncRepository w m) repos) = map Ret results"
    using join_all_Ret [OF assms(1)] .
  then have len: "length results = length repos" by (metis length_map)
  from assms(2) obtain i where i: "i < length results" "results ! i = r"
    by (auto simp add: in_set_conv_nth)
  have "snd (syncRepository w m (repos ! i)) = Ret (results ! i)"
    using eq i len by (metis length_map nth_map)
  then show ?thesis using i len by auto
qed

lemmas ref_defs = ref_manager_ui_def ref_manager_def ref_config_def test_config_def
  NewRepositoryManager_def WithLockFile_def repo_pinned_def repo_tagged_def repo_tracking_def
  repo_plain_def repo_broken_def zero_repo_def RepoTypeGit_def RepoTypeHTTP_def

lemmas ref_world_defs = ref_world_def calm_world_def calm_proc_def head_sha_def ok_exchange_def

lemma ref_task1:
  "snd (syncRepository ref_world ref_manager_ui repo_pinned)
     = Ret \<lparr>OperationResult.RepoName = ''pinned'', RepoURL = ''https://example.com/pinned.git'',
            Success = True, Error = None, Duration = 0, CommitSHA = head_sha,
            Branch = ''dev'', Tag = ''v1.0''\<rparr>"
  by (simp add: syncRepository_def ref_defs ref_world_defs transport_defs Let_def)

lemma ref_task2:
  "snd (syncRepository ref_world ref_manager_ui repo_tagged)
     = Ret \<lparr>OperationResult.RepoName = ''tagged'', RepoURL = ''https://example.com/tagged.git'',
            Success = True, Error = None, Duration = 0, CommitSHA = head_sha,
            Branch = ''dev'', Tag = ''v1.0''\<rparr>"
  by (simp add: syncRepository_def ref_defs ref_world_defs transport_defs Let_def)

lemma ref_task3:
  "snd (syncRepository ref_world ref_manager_ui repo_tracking)
     = Ret \<lparr>OperationResult.RepoName = ''tracking'', RepoURL = ''https://example.com/tracking.git'',
            Success = True, Error = None, Duration = 0, CommitSHA = head_sha,
            Branch = ''dev'', Tag = []\<rparr>"
  by (simp add: syncRepository_def ref_defs ref_world_defs transport_defs Let_def)

lemma ref_task4:
  "snd (syncRepository ref_world ref_manager_ui repo_plain)
     = Ret \<lparr>OperationResult.RepoName = ''plain'', RepoURL = ''https://example.com/plain.bin'',
            Success = True, Error = None, Duration = 0, CommitSHA = ''sha256-of-success'',
            Branch = [], Tag = []\<rparr>"
  by (simp add: syncRepository_def ref_defs ref_world_defs transport_defs Let_def
      progress_loop.simps)

lemma ref_task5:
  "snd (syncRepository ref_world ref_manager_ui repo_broken)
     = Ret \<lparr>OperationResult.RepoName = ''broken'', RepoURL = ''https://example.com/broken.git'',
            Success = False, Error = Some (ErrCloneFailed (ErrExternal ''exit status 128'')),
            Duration = 0, CommitSHA = [], Branch = [], Tag = []\<rparr>"
  by (simp add: syncRepository_def ref_defs ref_world_defs transport_defs Let_def)

text \<open>
  C2. A \<^verbatim>\<open>Sync\<close> that is not in locked mode, over a catalog without duplicate names and with
  a lock file, returns a report. Then for every result of the report:
  \<^item> if it is successful, the catalog has a repository of its name, whose URL is the
    result's; the transport made for that repository returned a channel, the last update
    received from it has phase \<open>complete\<close>, and the result's resolved reference is the
    message of that update (or, should the message be empty, what \<^verbatim>\<open>GetCurrentRef\<close>
    returns); and the entry of its name in the lock file after the call holds the
    repository's URL and type, as requested reference the repository's commit if it has
    one, else its tag if it has one, else its branch if it has one, else the default
    branch of the configuration, and as resolved reference the result's;
  \<^item> if it failed, the entry of its name is what it was before the call (an entry or
    none).
\<close>

theorem Sync_updates_lock:
  assumes "\<not> locked m" and "lockFile m = Some lf"
    and "distinct (map Repository.Name (Config.Repositories (config m)))"
    and "\<forall>xs. mset (MapRange w xs) = mset xs"
    and "Sync w m f = Ret (m', effs, Inr report)"
  shows "\<exists>lf'. lockFile m' = Some lf'
           \<and> (\<forall>r \<in> set (Results report).
                 (Success r \<longrightarrow>
                    (\<exists>repo dl ops.
                         GetRepository (config m) (OperationResult.RepoName r) = Some repo
                       \<and> OperationResult.RepoURL r = Repository.URL repo
                       \<and> NewFromRepository repo (config m) = Inr dl
                       \<and> channel (if Exists w (getRepoPath w m repo)
                                  then UpdateWithProgress w dl (getRepoPath w m repo)
                                  else DownloadWithProgress w dl (Repository.URL repo)
                                         (getRepoPath w m repo))
                           = Some ops
                       \<and> received (Room w) 0 ops \<noteq> []
                       \<and> ProgressUpdate.Phase (last (received (Room w) 0 ops)) = PhaseComplete
                       \<and> (if ProgressUpdate.Message (last (received (Room w) 0 ops)) = []
                          then snd (GetCurrentRef w dl (getRepoPath w m repo)) = Inr (CommitSHA r)
                          else CommitSHA r = ProgressUpdate.Message (last (received (Room w) 0 ops)))
                       \<and> Entries lf' (OperationResult.RepoName r)
                           = Some \<lparr>LockEntry.URL = Repository.URL repo,
                                   LockEntry.Type = Repository.Type repo,
                                   RequestedRef =
                                     (if Repository.Commit repo \<noteq> [] then Repository.Commit repo
                                      else if Repository.Tag repo \<noteq> [] then Repository.Tag repo
                                      else if Repository.Branch repo \<noteq> [] then Repository.Branch repo
                                      else DefaultBranch (Config.General (config m))),
                                   LockEntry.ResolvedSHA = CommitSHA r,
                                   LastSyncedAt = Now w (OperationResult.RepoName r),
                                   LockEntry.Submodules = []\<rparr>))
               \<and> (\<not> Success r \<longrightarrow>
                    Entries lf' (OperationResult.RepoName r)
                      = Entries lf (OperationResult.RepoName r)))"
proof -
  have mk: "MkdirAll w (workDir m) = None"
    using assms(5) by (auto simp add: Sync_def ensureWorkDir_def Let_def split: option.splits)
  obtain repos where repos: "getRepositories w m f = Inr repos"
    using assms(5) mk
    by (cases "getRepositories w m f") (auto simp add: Sync_def ensureWorkDir_def Let_def)
  show ?thesis
  proof (cases "repos = []")
    case True
    then have "m' = m" "report = SyncResult_zero"
      using assms(5) mk repos by (auto simp add: Sync_def ensureWorkDir_def Let_def)
    then show ?thesis using assms(2) by (simp add: SyncResult_zero_def)
  next
    case False
    define m1 where "m1 = (case ui m of
                              None \<Rightarrow> m\<lparr>ui := Some (fst (Start (NewProgressManager
                                                                   (RepositoryManager.interactive m))))\<rparr>
                            | Some pm \<Rightarrow> m)"
    have m1: "config m1 = config m" "lockFile m1 = Some lf" "\<not> locked m1"
      and path: "getRepoPath w m1 = getRepoPath w m"
      using assms(1,2) by (auto simp add: m1_def getRepoPath_def fun_eq_iff split: option.splits)
    obtain results where
      j: "join_all (map snd (map (syncRepository w m1) repos)) = Ret results"
      and m': "m' = fst (updateLockFile w m1 results)"
      and rep: "report = NewSyncResult results (Since w [])"
      using assms(5) mk repos False
      by (auto simp add: Sync_def ensureWorkDir_def Let_def m1_def split: outcome.splits)
    have count: "Results (count_results sr rs) = Results sr" for sr rs
      by (induction rs arbitrary: sr) simp_all
    have res: "Results report = results" by (simp add: rep NewSyncResult_def count)
    from getRepositories_selection [OF repos assms(3,4)]
    have d: "distinct (map Repository.Name repos)"
      and sub: "set repos \<subseteq> set (Config.Repositories (config m))" by blast+
    from tasks_names [OF j]
    have names: "map OperationResult.RepoName results = map Repository.Name repos" by blast
    have dr: "distinct (map OperationResult.RepoName results)" using d names by simp
    let ?lf' = "fst (update_entries w (config m) lf results)"
    have lf': "lockFile m' = Some ?lf'"
      using m1 by (simp add: m' updateLockFile_def Let_def)
    have ok: "\<exists>repo dl ops.
                   GetRepository (config m) (OperationResult.RepoName r) = Some repo
                 \<and> OperationResult.RepoURL r = Repository.URL repo
                 \<and> NewFromRepository repo (config m) = Inr dl
                 \<and> channel (if Exists w (getRepoPath w m repo)
                            then UpdateWithProgress w dl (getRepoPath w m repo)
                            else DownloadWithProgress w dl (Repository.URL repo)
                                   (getRepoPath w m repo))
                     = Some ops
                 \<and> received (Room w) 0 ops \<noteq> []
                 \<and> ProgressUpdate.Phase (last (received (Room w) 0 ops)) = PhaseComplete
                 \<and> (if ProgressUpdate.Message (last (received (Room w) 0 ops)) = []
                    then snd (GetCurrentRef w dl (getRepoPath w m repo)) = Inr (CommitSHA r)
                    else CommitSHA r = ProgressUpdate.Message (last (received (Room w) 0 ops)))
                 \<and> Entries ?lf' (OperationResult.RepoName r)
                    = Some (NewEntry (Now w (OperationResult.RepoName r)) (Repository.URL repo)
                         (Repository.Type repo)
                         (GetEffectiveRef repo (DefaultBranch (Config.General (config m))))
                         (CommitSHA r))"
      if r: "r \<in> set results" and s: "Success r" for r
    proof -
      from join_all_nth [OF j r] obtain repo where
        repo: "repo \<in> set repos" and run: "snd (syncRepository w m1 repo) = Ret r" by blast
      from syncRepository_names [of w m1 repo "fst (syncRepository w m1 repo)" r] run
      have n: "OperationResult.RepoName r = Repository.Name repo"
        and u: "OperationResult.RepoURL r = Repository.URL repo"
        by (metis prod.collapse)+
      have "repo \<in> set (Config.Repositories (config m))" using sub repo by auto
      then have g: "GetRepository (config m) (OperationResult.RepoName r) = Some repo"
        using GetRepository_distinct [OF assms(3)] n by simp
      from resolveRef_success [OF syncRepository_success [OF run s]] obtain dl ops where
        t: "NewFromRepository repo (config m) = Inr dl"
           "channel (if Exists w (getRepoPath w m repo)
                      then UpdateWithProgress w dl (getRepoPath w m repo)
                      else DownloadWithProgress w dl (Repository.URL repo) (getRepoPath w m repo))
               = Some ops"
           "received (Room w) 0 ops \<noteq> []"
           "ProgressUpdate.Phase (last (received (Room w) 0 ops)) = PhaseComplete"
           "if ProgressUpdate.Message (last (received (Room w) 0 ops)) = []
              then snd (GetCurrentRef w dl (getRepoPath w m repo)) = Inr (CommitSHA r)
              else CommitSHA r = ProgressUpdate.Message (last (received (Room w) 0 ops))"
        unfolding m1(1) path by blast
      from update_entries_written [OF dr r s g] g u t show ?thesis by blast
    qed
    have bad: "Entries ?lf' (OperationResult.RepoName r) = Entries lf (OperationResult.RepoName r)"
      if r: "r \<in> set results" and s: "\<not> Success r" for r
    proof -
      have "OperationResult.RepoName r \<notin> OperationResult.RepoName ` {y \<in> set results. Success y}"
      proof
        assume "OperationResult.RepoName r \<in> OperationResult.RepoName ` {y \<in> set results. Success y}"
        then obtain y where y: "y \<in> set results" "Success y"
          "OperationResult.RepoName y = OperationResult.RepoName r" by auto
        then have "y = r" using dr r by (meson distinct_map inj_onD)
        then show False using y(2) s by simp
      qed
      then show ?thesis by (rule update_entries_other)
    qed
    have entry: "NewEntry (Now w n) (Repository.URL repo) (Repository.Type repo)
                   (GetEffectiveRef repo (DefaultBranch (Config.General (config m)))) sha
                 = \<lparr>LockEntry.URL = Repository.URL repo,
                    LockEntry.Type = Repository.Type repo,
                    RequestedRef =
                      (if Repository.Commit repo \<noteq> [] then Repository.Commit repo
                       else if Repository.Tag repo \<noteq> [] then Repository.Tag repo
                       else if Repository.Branch repo \<noteq> [] then Repository.Branch repo
                       else DefaultBranch (Config.General (config m))),
                    LockEntry.ResolvedSHA = sha,
                    LastSyncedAt = Now w n,
                    LockEntry.Submodules = []\<rparr>" for n repo sha
      by (simp add: NewEntry_def GetEffectiveRef_def)
    show ?thesis
      unfolding res
    proof (intro exI [of _ ?lf'] conjI ballI impI)
      show "lockFile m' = Some ?lf'" by (rule lf')
    next
      fix r assume "r \<in> set results" "Success r"
      from ok [OF this] show "\<exists>repo dl ops.
                         GetRepository (config m) (OperationResult.RepoName r) = Some repo
                       \<and> OperationResult.RepoURL r = Repository.URL repo
                       \<and> NewFromRepository repo (config m) = Inr dl
                       \<and> channel (if Exists w (getRepoPath w m repo)
                                  then UpdateWithProgress w dl (getRepoPath w m repo)
                                  else DownloadWithProgress w dl (Repository.URL repo)
                                         (getRepoPath w m repo))
                           = Some ops
                       \<and> received (Room w) 0 ops \<noteq> []
                       \<and> ProgressUpdate.Phase (last (received (Room w) 0 ops)) = PhaseComplete
                       \<and> (if ProgressUpdate.Message (last (received (Room w) 0 ops)) = []
                          then snd (GetCurrentRef w dl (getRepoPath w m repo)) = Inr (CommitSHA r)
                          else CommitSHA r = ProgressUpdate.Message (last (received (Room w) 0 ops)))
                       \<and> Entries ?lf' (OperationResult.RepoName r)
                           = Some \<lparr>LockEntry.URL = Repository.URL repo,
                                   LockEntry.Type = Repository.Type repo,
                                   RequestedRef =
                                     (if Repository.Commit repo \<noteq> [] then Repository.Commit repo
                                      else if Repository.Tag repo \<noteq> [] then Repository.Tag repo
                                      else if Repository.Branch repo \<noteq> [] then Repository.Branch repo
                                      else DefaultBranch (Config.General (config m))),
                                   LockEntry.ResolvedSHA = CommitSHA r,
                                   LastSyncedAt = Now w (OperationResult.RepoName r),
                                   LockEntry.Submodules = []\<rparr>"
        unfolding entry .
    next
      fix r assume "r \<in> set results" "\<not> Success r"
      from bad [OF this]
      show "Entries ?lf' (OperationResult.RepoName r) = Entries lf (OperationResult.RepoName r)" .
    qed
  qed
qed

theorem Sync_updates_lock_witness:
  "\<not> locked ref_manager \<and> lockFile ref_manager = Some prior_lock
   \<and> distinct (map Repository.Name (Config.Repositories (config ref_manager)))
   \<and> (\<forall>xs. mset (MapRange ref_world xs) = mset xs)
   \<and> Entries prior_lock ''pinned'' = Some (entry_of other_sha)
   \<and> Entries prior_lock ''tagged'' = None
   \<and> Entries prior_lock ''broken'' = Some (entry_of other_sha)
   \<and> (case NewFromRepository repo_pinned (config ref_manager) of
         Inl err \<Rightarrow> False
       | Inr dl \<Rightarrow>
           \<not> Exists ref_world (getRepoPath ref_world ref_manager repo_pinned)
           \<and> map_option (received (Room ref_world) 0)
               (channel (DownloadWithProgress ref_world dl (Repository.URL repo_pinned)
                           (getRepoPath ref_world ref_manager repo_pinned)))
             = Some [progress_update PhaseConnecting ''Connecting to remote...'',
                     progress_update PhaseFetching ''Cloning repository...'',
                     progress_update PhaseCheckout ''Checking out ref...'',
                     progress_update PhaseComplete head_sha])
   \<and> (case Sync ref_world ref_manager all_filter of
         Ret (m', effs, Inr report) \<Rightarrow>
           map Success (Results report) = [True, True, True, True, False]
           \<and> map CommitSHA (Results report)
               = [head_sha, head_sha, head_sha, ''sha256-of-success'', []]
           \<and> (case lockFile m' of
                 None \<Rightarrow> False
               | Some lf' \<Rightarrow>
                   Entries lf' ''pinned''
                     = Some \<lparr>LockEntry.URL = ''https://example.com/pinned.git'', LockEntry.Type = ''git'',
                             RequestedRef = ''c0ffee0'', LockEntry.ResolvedSHA = head_sha,
                             LastSyncedAt = 0, LockEntry.Submodules = []\<rparr>
                   \<and> Entries lf' ''tagged''
                     = Some \<lparr>LockEntry.URL = ''https://example.com/tagged.git'', LockEntry.Type = ''git'',
                             RequestedRef = ''v1.0'', LockEntry.ResolvedSHA = head_sha,
                             LastSyncedAt = 0, LockEntry.Submodules = []\<rparr>
                   \<and> Entries lf' ''tracking''
                     = Some \<lparr>LockEntry.URL = ''https://example.com/tracking.git'', LockEntry.Type = ''git'',
                             RequestedRef = ''dev'', LockEntry.ResolvedSHA = head_sha,
                             LastSyncedAt = 0, LockEntry.Submodules = []\<rparr>
                   \<and> Entries lf' ''plain''
                     = Some \<lparr>LockEntry.URL = ''https://example.com/plain.bin'', LockEntry.Type = ''http'',
                             RequestedRef = ''main'', LockEntry.ResolvedSHA = ''sha256-of-success'',
                             LastSyncedAt = 0, LockEntry.Submodules = []\<rparr>
                   \<and> Entries lf' ''broken'' = Some (entry_of other_sha))
       | Ret (m', effs, Inl err) \<Rightarrow> False
       | Panic \<Rightarrow> False)"
proof -
  let ?r1 = "\<lparr>OperationResult.RepoName = ''pinned'', RepoURL = ''https://example.com/pinned.git'',
            Success = True, Error = None, Duration = 0, CommitSHA = head_sha,
            Branch = ''dev'', Tag = ''v1.0''\<rparr>"
  let ?r2 = "\<lparr>OperationResult.RepoName = ''tagged'', RepoURL = ''https://example.com/tagged.git'',
            Success = True, Error = None, Duration = 0, CommitSHA = head_sha,
            Branch = ''dev'', Tag = ''v1.0''\<rparr>"
  let ?r3 = "\<lparr>OperationResult.RepoName = ''tracking'', RepoURL = ''https://example.com/tracking.git'',
            Success = True, Error = None, Duration = 0, CommitSHA = head_sha,
            Branch = ''dev'', Tag = []\<rparr>"
  let ?r4 = "\<lparr>OperationResult.RepoName = ''plain'', RepoURL = ''https://example.com/plain.bin'',
            Success = True, Error = None, Duration = 0, CommitSHA = ''sha256-of-success'',
            Branch = [], Tag = []\<rparr>"
  let ?r5 = "\<lparr>OperationResult.RepoName = ''broken'', RepoURL = ''https://example.com/broken.git'',
            Success = False, Error = Some (ErrCloneFailed (ErrExternal ''exit status 128'')),
            Duration = 0, CommitSHA = [], Branch = [], Tag = []\<rparr>"
  have cfg: "config ref_manager = ref_config"
    by (simp add: ref_manager_def NewRepositoryManager_def WithLockFile_def)
  have a: "\<not> locked ref_manager" and b: "lockFile ref_manager = Some prior_lock"
    by (simp_all add: ref_manager_def NewRepositoryManager_def WithLockFile_def)
  have c: "distinct (map Repository.Name (Config.Repositories (config ref_manager)))"
    by (simp add: cfg ref_defs)
  have d: "\<forall>xs. mset (MapRange ref_world xs) = mset xs"
    by (simp add: ref_world_def calm_world_def)
  have prior: "Entries prior_lock ''pinned'' = Some (entry_of other_sha)"
    "Entries prior_lock ''tagged'' = None"
    "Entries prior_lock ''broken'' = Some (entry_of other_sha)"
    by (simp_all add: prior_lock_def Update_def empty_lock_def)
  have stream: "case NewFromRepository repo_pinned (config ref_manager) of
         Inl err \<Rightarrow> False
       | Inr dl \<Rightarrow>
           \<not> Exists ref_world (getRepoPath ref_world ref_manager repo_pinned)
           \<and> map_option (received (Room ref_world) 0)
               (channel (DownloadWithProgress ref_world dl (Repository.URL repo_pinned)
                           (getRepoPath ref_world ref_manager repo_pinned)))
             = Some [progress_update PhaseConnecting ''Connecting to remote...'',
                     progress_update PhaseFetching ''Cloning repository...'',
                     progress_update PhaseCheckout ''Checking out ref...'',
                     progress_update PhaseComplete head_sha]"
    by (simp add: cfg ref_config_def test_config_def ref_manager_def NewRepositoryManager_def
        WithLockFile_def repo_pinned_def zero_repo_def RepoTypeGit_def RepoTypeHTTP_def
        NewFromRepository_def New_def getRepoPath_def GetEffectivePath_def Exists_def
        Git_DownloadWithProgress_def clone_goroutine_def clone_flags_def checkoutRef_def
        getHeadSHA_def run_err_def NewGitDownloader_def GetDepth_def IsShallow_def
        HasSubmodules_def ref_world_defs Let_def)
  have mk: "MkdirAll ref_world (workDir ref_manager) = None"
    by (simp add: ref_world_def calm_world_def)
  have sel: "getRepositories ref_world ref_manager all_filter
               = Inr [repo_pinned, repo_tagged, repo_tracking, repo_plain, repo_broken]"
    by (simp add: getRepositories_def all_filter_def zero_filter_def cfg ref_config_def)
  have ui_eq: "ref_manager_ui = (case ui ref_manager of
                 None \<Rightarrow> ref_manager\<lparr>ui := Some (fst (Start (NewProgressManager
                                                      (RepositoryManager.interactive ref_manager))))\<rparr>
               | Some pm \<Rightarrow> ref_manager)"
    by (simp add: ref_manager_ui_def ref_manager_def NewRepositoryManager_def WithLockFile_def)
  have j: "join_all (map snd (map (syncRepository ref_world ref_manager_ui)
                       [repo_pinned, repo_tagged, repo_tracking, repo_plain, repo_broken]))
             = Ret [?r1, ?r2, ?r3, ?r4, ?r5]"
    by (simp add: ref_task1 ref_task2 ref_task3 ref_task4 ref_task5)
  from Sync_run [OF mk sel _ ui_eq j] obtain m' effs report where
    run: "Sync ref_world ref_manager all_filter = Ret (m', effs, Inr report)"
    and rep: "report = NewSyncResult [?r1, ?r2, ?r3, ?r4, ?r5] (Since ref_world [])"
    by auto
  have res: "Results report = [?r1, ?r2, ?r3, ?r4, ?r5]"
    by (simp add: rep NewSyncResult_def)
  from Sync_updates_lock [OF a b c d run] obtain lf' where
    lf': "lockFile m' = Some lf'"
    and each: "\<And>r. r \<in> set (Results report) \<Longrightarrow>
                 (Success r \<longrightarrow>
                    (\<exists>repo. GetRepository (config ref_manager) (OperationResult.RepoName r) = Some repo
                       \<and> Entries lf' (OperationResult.RepoName r)
                           = Some \<lparr>LockEntry.URL = Repository.URL repo,
                                   LockEntry.Type = Repository.Type repo,
                                   RequestedRef =
                                     (if Repository.Commit repo \<noteq> [] then Repository.Commit repo
                                      else if Repository.Tag repo \<noteq> [] then Repository.Tag repo
                                      else if Repository.Branch repo \<noteq> [] then Repository.Branch repo
                                      else DefaultBranch (Config.General (config ref_manager))),
                                   LockEntry.ResolvedSHA = CommitSHA r,
                                   LastSyncedAt = Now ref_world (OperationResult.RepoName r),
                                   LockEntry.Submodules = []\<rparr>))
               \<and> (\<not> Success r \<longrightarrow>
                    Entries lf' (OperationResult.RepoName r)
                      = Entries prior_lock (OperationResult.RepoName r))"
    by blast
  have g: "GetRepository ref_config ''pinned'' = Some repo_pinned"
    "GetRepository ref_config ''tagged'' = Some repo_tagged"
    "GetRepository ref_config ''tracking'' = Some repo_tracking"
    "GetRepository ref_config ''plain'' = Some repo_plain"
    by (simp_all add: GetRepository_def ref_defs)
  have now: "Now ref_world n = 0" for n by (simp add: ref_world_def calm_world_def)
  have e1: "Entries lf' ''pinned''
              = Some \<lparr>LockEntry.URL = ''https://example.com/pinned.git'', LockEntry.Type = ''git'',
                      RequestedRef = ''c0ffee0'', LockEntry.ResolvedSHA = head_sha,
                      LastSyncedAt = 0, LockEntry.Submodules = []\<rparr>"
    using each [of ?r1]
    by (simp add: res cfg g now) (simp_all add: ref_defs)
  have e2: "Entries lf' ''tagged''
              = Some \<lparr>LockEntry.URL = ''https://example.com/tagged.git'', LockEntry.Type = ''git'',
                      RequestedRef = ''v1.0'', LockEntry.ResolvedSHA = head_sha,
                      LastSyncedAt = 0, LockEntry.Submodules = []\<rparr>"
    using each [of ?r2]
    by (simp add: res cfg g now) (simp_all add: ref_defs)
  have e3: "Entries lf' ''tracking''
              = Some \<lparr>LockEntry.URL = ''https://example.com/tracking.git'', LockEntry.Type = ''git'',
                      RequestedRef = ''dev'', LockEntry.ResolvedSHA = head_sha,
                      LastSyncedAt = 0, LockEntry.Submodules = []\<rparr>"
    using each [of ?r3]
    by (simp add: res cfg g now) (simp_all add: ref_defs)
  have e4: "Entries lf' ''plain''
              = Some \<lparr>LockEntry.URL = ''https://example.com/plain.bin'', LockEntry.Type = ''http'',
                      RequestedRef = ''main'', LockEntry.ResolvedSHA = ''sha256-of-success'',
                      LastSyncedAt = 0, LockEntry.Submodules = []\<rparr>"
    using each [of ?r4]
    by (simp add: res cfg g now) (simp_all add: ref_defs)
  have e5: "Entries lf' ''broken'' = Some (entry_of other_sha)"
    using each [of ?r5] by (simp add: res prior)
  show ?thesis
    using a b c d prior stream e1 e2 e3 e4 e5 by (simp add: run lf' res)
qed

subsection \<open>Locked mode\<close>

lemma updateLockFile_locked: "locked m \<Longrightarrow> updateLockFile w m results = (m, [])"
  by (simp add: updateLockFile_def split: option.splits)

lemma Sync_locked_frame:
  assumes "locked m" and "Sync w m f = Ret (m', effs, out)"
  shows "lockFile m' = lockFile m"
proof -
  let ?m1 = "case ui m of
               None \<Rightarrow> m\<lparr>ui := Some (fst (Start (NewProgressManager
                                                    (RepositoryManager.interactive m))))\<rparr>
             | Some pm \<Rightarrow> m"
  have l: "locked ?m1" and lf: "lockFile ?m1 = lockFile m"
    using assms(1) by (auto split: option.splits)
  have "m' = m \<or> m' = ?m1"
    using assms(2) updateLockFile_locked [OF l]
    by (auto simp add: Sync_def ensureWorkDir_def Let_def
        split: option.splits sum.splits if_splits outcome.splits)
  then show ?thesis using lf by auto
qed

lemmas locked_defs = locked_manager_def NewRepositoryManager_def WithLockFile_def WithLocked_def
  WithUI_def lock_with_def entry_of_def empty_lock_def Update_def other_sha_def

lemma resolve_repo1:
  "snd (resolveRef sync_world (locked_manager lf) repo1) = Inr head_sha"
  by (simp add: locked_manager_def NewRepositoryManager_def WithLockFile_def WithLocked_def
      WithUI_def test_config_def repo1_def zero_repo_def RepoTypeGit_def RepoTypeHTTP_def
      calm_world_def world_defs transport_defs Let_def)

lemma resolve_repo3:
  "snd (resolveRef sync_world (locked_manager lf) repo3) = Inr ''sha256-of-success''"
  by (simp add: locked_manager_def NewRepositoryManager_def WithLockFile_def WithLocked_def
      WithUI_def test_config_def repo3_def zero_repo_def RepoTypeGit_def RepoTypeHTTP_def
      calm_world_def world_defs transport_defs Let_def progress_loop.simps)

lemma resolve_repo1_bare:
  "snd (resolveRef sync_world bare_locked_manager repo1) = Inr head_sha"
  by (simp add: bare_locked_manager_def NewRepositoryManager_def WithLocked_def
      WithUI_def test_config_def repo1_def zero_repo_def RepoTypeGit_def RepoTypeHTTP_def
      calm_world_def world_defs transport_defs Let_def)

text \<open>
  C1, as amended. A manager in locked mode.
  \<^item> With a lock file that has no entry for the repository's name: the task only looks
    the entry up and reports; it fails with the "no lock entry" error and never reaches
    the transport.
  \<^item> With a lock file whose entry has a non-empty resolved reference, and a transport that
    resolves (\<open>resolveRef\<close>) to a different reference: the task fails with the mismatch
    error, which carries the first 8 bytes of both, if both have at least 8 bytes; if one
    is shorter, the slice \<^verbatim>\<open>[:8]\<close> panics.
  \<^item> With a lock file whose entry has an empty resolved reference, or the reference the
    transport resolves to: the check passes (\<^verbatim>\<open>targetSHA != ""\<close> guards it) and the task
    succeeds with what the transport resolved (with a progress UI, the completion message
    slices that reference, and panics if it is shorter than 8 bytes).
  \<^item> Without a lock file (\<^verbatim>\<open>m.lockFile == nil\<close>): nothing is looked up and nothing is
    checked; the task succeeds with whatever the transport resolved.
  \<^item> Whatever \<^verbatim>\<open>Sync\<close> returns, the lock file of the manager is what it was before.
\<close>

theorem locked_mode:
  assumes "locked m"
  shows "(\<forall>lf. lockFile m = Some lf \<and> Entries lf (Repository.Name repo) = None \<longrightarrow>
            syncRepository w m repo
              = (ui_send m (CreateProgressMsg (Repository.Name repo) (Repository.URL repo)
                              PhaseInit ''Starting...'')
                   @ [ELockGet (Repository.Name repo)]
                   @ ui_send m (CreateErrorMsg (Repository.Name repo) (Repository.URL repo)
                                  ErrNoLockEntry),
                 Ret \<lparr>OperationResult.RepoName = Repository.Name repo,
                      OperationResult.RepoURL = Repository.URL repo, Success = False,
                      OperationResult.Error = Some ErrNoLockEntry,
                      OperationResult.Duration = Since w (Repository.Name repo), CommitSHA = [],
                      OperationResult.Branch = Repository.Branch repo,
                      OperationResult.Tag = Repository.Tag repo\<rparr>))
       \<and> (\<forall>lf e sha. lockFile m = Some lf \<and> Entries lf (Repository.Name repo) = Some e
              \<and> snd (resolveRef w m repo) = Inr sha
              \<and> LockEntry.ResolvedSHA e \<noteq> [] \<and> sha \<noteq> LockEntry.ResolvedSHA e
              \<longrightarrow> snd (syncRepository w m repo)
                    = (if 8 \<le> length (LockEntry.ResolvedSHA e) \<and> 8 \<le> length sha
                       then Ret \<lparr>OperationResult.RepoName = Repository.Name repo,
                           OperationResult.RepoURL = Repository.URL repo, Success = False,
                           OperationResult.Error =
                             Some (ErrSHAMismatch (take 8 (LockEntry.ResolvedSHA e)) (take 8 sha)),
                           OperationResult.Duration = Since w (Repository.Name repo),
                           CommitSHA = [],
                           OperationResult.Branch = Repository.Branch repo,
                           OperationResult.Tag = Repository.Tag repo\<rparr>
                       else Panic))
       \<and> (\<forall>lf e sha. lockFile m = Some lf \<and> Entries lf (Repository.Name repo) = Some e
              \<and> snd (resolveRef w m repo) = Inr sha
              \<and> (LockEntry.ResolvedSHA e = [] \<or> LockEntry.ResolvedSHA e = sha)
              \<longrightarrow> snd (syncRepository w m repo)
                    = (if ui m = None \<or> 8 \<le> length sha
                       then Ret \<lparr>OperationResult.RepoName = Repository.Name repo,
                           OperationResult.RepoURL = Repository.URL repo, Success = True,
                           OperationResult.Error = None,
                           OperationResult.Duration = Since w (Repository.Name repo),
                           CommitSHA = sha,
                           OperationResult.Branch = Repository.Branch repo,
                           OperationResult.Tag = Repository.Tag repo\<rparr>
                       else Panic))
       \<and> (\<forall>sha. lockFile m = None \<and> snd (resolveRef w m repo) = Inr sha
              \<longrightarrow> syncRepository w m repo
                    = (ui_send m (CreateProgressMsg (Repository.Name repo) (Repository.URL repo)
                                    PhaseInit ''Starting...'')
                         @ fst (resolveRef w m repo)
                         @ (if ui m = None \<or> length sha < 8 then []
                            else [EUISend (CreateCompletedMsg (Repository.Name repo)
                                    (Repository.URL repo) (''Synced at '' @ take 8 sha))]),
                       if ui m = None \<or> 8 \<le> length sha
                       then Ret \<lparr>OperationResult.RepoName = Repository.Name repo,
                           OperationResult.RepoURL = Repository.URL repo, Success = True,
                           OperationResult.Error = None,
                           OperationResult.Duration = Since w (Repository.Name repo),
                           CommitSHA = sha,
                           OperationResult.Branch = Repository.Branch repo,
                           OperationResult.Tag = Repository.Tag repo\<rparr>
                       else Panic))
       \<and> (\<forall>f m' effs out. Sync w m f = Ret (m', effs, out) \<longrightarrow> lockFile m' = lockFile m)"
proof -
  have A: "syncRepository w m repo
              = (ui_send m (CreateProgressMsg (Repository.Name repo) (Repository.URL repo)
                              PhaseInit ''Starting...'')
                   @ [ELockGet (Repository.Name repo)]
                   @ ui_send m (CreateErrorMsg (Repository.Name repo) (Repository.URL repo)
                                  ErrNoLockEntry),
                 Ret \<lparr>OperationResult.RepoName = Repository.Name repo,
                      OperationResult.RepoURL = Repository.URL repo, Success = False,
                      OperationResult.Error = Some ErrNoLockEntry,
                      OperationResult.Duration = Since w (Repository.Name repo), CommitSHA = [],
                      OperationResult.Branch = Repository.Branch repo,
                      OperationResult.Tag = Repository.Tag repo\<rparr>)"
    if "lockFile m = Some lf" "Entries lf (Repository.Name repo) = None" for lf
    using assms that by (simp add: syncRepository_def GetResolvedSHA_def Let_def)
  have B: "snd (syncRepository w m repo)
                    = (if 8 \<le> length (LockEntry.ResolvedSHA e) \<and> 8 \<le> length sha
                       then Ret \<lparr>OperationResult.RepoName = Repository.Name repo,
                           OperationResult.RepoURL = Repository.URL repo, Success = False,
                           OperationResult.Error =
                             Some (ErrSHAMismatch (take 8 (LockEntry.ResolvedSHA e)) (take 8 sha)),
                           OperationResult.Duration = Since w (Repository.Name repo),
                           CommitSHA = [],
                           OperationResult.Branch = Repository.Branch repo,
                           OperationResult.Tag = Repository.Tag repo\<rparr>
                       else Panic)"
    if "lockFile m = Some lf" "Entries lf (Repository.Name repo) = Some e"
      "snd (resolveRef w m repo) = Inr sha"
      "LockEntry.ResolvedSHA e \<noteq> []" "sha \<noteq> LockEntry.ResolvedSHA e"
    for lf e sha
    using assms that
    by (auto simp add: syncRepository_def GetResolvedSHA_def Let_def slice_to_def)
  have C: "snd (syncRepository w m repo)
                    = (if ui m = None \<or> 8 \<le> length sha
                       then Ret \<lparr>OperationResult.RepoName = Repository.Name repo,
                           OperationResult.RepoURL = Repository.URL repo, Success = True,
                           OperationResult.Error = None,
                           OperationResult.Duration = Since w (Repository.Name repo),
                           CommitSHA = sha,
                           OperationResult.Branch = Repository.Branch repo,
                           OperationResult.Tag = Repository.Tag repo\<rparr>
                       else Panic)"
    if "lockFile m = Some lf" "Entries lf (Repository.Name repo) = Some e"
      "snd (resolveRef w m repo) = Inr sha"
      "LockEntry.ResolvedSHA e = [] \<or> LockEntry.ResolvedSHA e = sha"
    for lf e sha
    using assms that
    by (auto simp add: syncRepository_def GetResolvedSHA_def Let_def slice_to_def
        split: option.splits)
  have D: "syncRepository w m repo
                    = (ui_send m (CreateProgressMsg (Repository.Name repo) (Repository.URL repo)
                                    PhaseInit ''Starting...'')
                         @ fst (resolveRef w m repo)
                         @ (if ui m = None \<or> length sha < 8 then []
                            else [EUISend (CreateCompletedMsg (Repository.Name repo)
                                    (Repository.URL repo) (''Synced at '' @ take 8 sha))]),
                       if ui m = None \<or> 8 \<le> length sha
                       then Ret \<lparr>OperationResult.RepoName = Repository.Name repo,
                           OperationResult.RepoURL = Repository.URL repo, Success = True,
                           OperationResult.Error = None,
                           OperationResult.Duration = Since w (Repository.Name repo),
                           CommitSHA = sha,
                           OperationResult.Branch = Repository.Branch repo,
                           OperationResult.Tag = Repository.Tag repo\<rparr>
                       else Panic)"
    if "lockFile m = None" "snd (resolveRef w m repo) = Inr sha" for sha
    using assms that
    by (auto simp add: syncRepository_def Let_def slice_to_def split: option.splits)
  have E: "lockFile m' = lockFile m" if "Sync w m f = Ret (m', effs, out)" for f m' effs out
    using Sync_locked_frame [OF assms that] .
  show ?thesis
  proof (intro conjI allI impI)
    fix lf assume "lockFile m = Some lf \<and> Entries lf (Repository.Name repo) = None"
    then show "syncRepository w m repo
              = (ui_send m (CreateProgressMsg (Repository.Name repo) (Repository.URL repo)
                              PhaseInit ''Starting...'')
                   @ [ELockGet (Repository.Name repo)]
                   @ ui_send m (CreateErrorMsg (Repository.Name repo) (Repository.URL repo)
                                  ErrNoLockEntry),
                 Ret \<lparr>OperationResult.RepoName = Repository.Name repo,
                      OperationResult.RepoURL = Repository.URL repo, Success = False,
                      OperationResult.Error = Some ErrNoLockEntry,
                      OperationResult.Duration = Since w (Repository.Name repo), CommitSHA = [],
                      OperationResult.Branch = Repository.Branch repo,
                      OperationResult.Tag = Repository.Tag repo\<rparr>)"
      using A by blast
  qed (use B C D E in blast)+
qed

theorem locked_mode_witness:
  "locked (locked_manager lock_both) \<and> lockFile (locked_manager lock_both) = Some lock_both
   \<and> Entries lock_both (Repository.Name repo1) = Some (entry_of other_sha)
   \<and> snd (resolveRef sync_world (locked_manager lock_both) repo1) = Inr head_sha
   \<and> LockEntry.ResolvedSHA (entry_of other_sha) \<noteq> []
   \<and> head_sha \<noteq> LockEntry.ResolvedSHA (entry_of other_sha)
   \<and> Entries lock_both (Repository.Name repo2) = None
   \<and> (case Entries lock_both (Repository.Name repo3) of
         None \<Rightarrow> False
       | Some e \<Rightarrow> LockEntry.ResolvedSHA e = ''sha256-of-success'')
   \<and> snd (resolveRef sync_world (locked_manager lock_both) repo3) = Inr ''sha256-of-success''
   \<and> (case Sync sync_world (locked_manager lock_both) all_filter of
         Ret (m', effs, Inr report) \<Rightarrow>
           Results report
             = [\<lparr>OperationResult.RepoName = ''repo1'', RepoURL = ''https://example.com/1.git'',
                 Success = False, Error = Some (ErrSHAMismatch ''fedcba98'' ''01234567''),
                 Duration = 0, CommitSHA = [], Branch = [], Tag = []\<rparr>,
                \<lparr>OperationResult.RepoName = ''repo2'', RepoURL = ''https://example.com/2.git'',
                 Success = False, Error = Some ErrNoLockEntry, Duration = 0, CommitSHA = [],
                 Branch = [], Tag = []\<rparr>,
                \<lparr>OperationResult.RepoName = ''repo3'', RepoURL = ''https://example.com/3.bin'',
                 Success = True, Error = None, Duration = 0, CommitSHA = ''sha256-of-success'',
                 Branch = [], Tag = []\<rparr>]
           \<and> lockFile m' = Some lock_both
       | Ret (m', effs, Inl err) \<Rightarrow> False
       | Panic \<Rightarrow> False)
   \<and> locked bare_locked_manager \<and> lockFile bare_locked_manager = None
   \<and> snd (resolveRef sync_world bare_locked_manager repo1) = Inr head_sha
   \<and> snd (syncRepository sync_world bare_locked_manager repo1)
       = Ret \<lparr>OperationResult.RepoName = ''repo1'', RepoURL = ''https://example.com/1.git'',
              Success = True, Error = None, Duration = 0, CommitSHA = head_sha,
              Branch = [], Tag = []\<rparr>"
proof -
  let ?m = "locked_manager lock_both"
  let ?r1 = "\<lparr>OperationResult.RepoName = ''repo1'', RepoURL = ''https://example.com/1.git'',
                 Success = False, Error = Some (ErrSHAMismatch ''fedcba98'' ''01234567''),
                 Duration = 0, CommitSHA = [], Branch = [], Tag = []\<rparr>"
  let ?r2 = "\<lparr>OperationResult.RepoName = ''repo2'', RepoURL = ''https://example.com/2.git'',
                 Success = False, Error = Some ErrNoLockEntry, Duration = 0, CommitSHA = [],
                 Branch = [], Tag = []\<rparr>"
  let ?r3 = "\<lparr>OperationResult.RepoName = ''repo3'', RepoURL = ''https://example.com/3.bin'',
                 Success = True, Error = None, Duration = 0, CommitSHA = ''sha256-of-success'',
                 Branch = [], Tag = []\<rparr>"
  let ?e3 = "\<lparr>LockEntry.URL = ''https://example.com/3.bin'', LockEntry.Type = ''http'',
        RequestedRef = ''main'', LockEntry.ResolvedSHA = ''sha256-of-success'', LastSyncedAt = 0,
        LockEntry.Submodules = []\<rparr>"
  have m: "locked ?m" "lockFile ?m = Some lock_both"
    "ui ?m = Some (fst (Start (NewProgressManager True)))" "config ?m = test_config"
    "workDir ?m = ''/work''"
    by (simp_all add: locked_manager_def NewRepositoryManager_def WithLockFile_def
        WithLocked_def WithUI_def test_config_def)
  have bm: "locked bare_locked_manager" "lockFile bare_locked_manager = None"
    "ui bare_locked_manager = Some (fst (Start (NewProgressManager True)))"
    by (simp_all add: bare_locked_manager_def NewRepositoryManager_def WithLocked_def WithUI_def)
  have e1: "Entries lock_both (Repository.Name repo1) = Some (entry_of other_sha)"
    and e2: "Entries lock_both (Repository.Name repo2) = None"
    and e3: "Entries lock_both (Repository.Name repo3) = Some ?e3"
    and sha: "LockEntry.ResolvedSHA (entry_of other_sha) = other_sha"
    by (simp_all add: lock_both_def lock_with_def entry_of_def empty_lock_def Update_def
        repo1_def repo2_def repo3_def zero_repo_def)
  have len: "8 \<le> length other_sha" "8 \<le> length head_sha" "head_sha \<noteq> other_sha"
    "take 8 other_sha = ''fedcba98''" "take 8 head_sha = ''01234567''" "other_sha \<noteq> []"
    by (simp_all add: other_sha_def head_sha_def)
  have r: "Repository.Name repo1 = ''repo1''" "Repository.URL repo1 = ''https://example.com/1.git''"
    "Repository.Branch repo1 = []" "Repository.Tag repo1 = []"
    "Repository.Name repo2 = ''repo2''" "Repository.URL repo2 = ''https://example.com/2.git''"
    "Repository.Branch repo2 = []" "Repository.Tag repo2 = []"
    "Repository.Name repo3 = ''repo3''" "Repository.URL repo3 = ''https://example.com/3.bin''"
    "Repository.Branch repo3 = []" "Repository.Tag repo3 = []"
    by (simp_all add: repo1_def repo2_def repo3_def zero_repo_def)
  have s: "Since sync_world n = 0" for n
    by (simp add: sync_world_def calm_world_def)
  note T1 = locked_mode [OF m(1), of repo1 sync_world]
  note T2 = locked_mode [OF m(1), of repo2 sync_world]
  note T3 = locked_mode [OF m(1), of repo3 sync_world]
  note T4 = locked_mode [OF bm(1), of repo1 sync_world]
  have A: "snd (syncRepository sync_world ?m repo2) = Ret ?r2"
    using T2 [THEN conjunct1, rule_format, of lock_both] m(2) e2 by (simp add: r s)
  have "snd (syncRepository sync_world ?m repo1)
          = (if 8 \<le> length (LockEntry.ResolvedSHA (entry_of other_sha)) \<and> 8 \<le> length head_sha
                       then Ret \<lparr>OperationResult.RepoName = Repository.Name repo1,
                           OperationResult.RepoURL = Repository.URL repo1, Success = False,
                           OperationResult.Error =
                             Some (ErrSHAMismatch (take 8 (LockEntry.ResolvedSHA (entry_of other_sha)))
                                     (take 8 head_sha)),
                           OperationResult.Duration = Since sync_world (Repository.Name repo1),
                           CommitSHA = [],
                           OperationResult.Branch = Repository.Branch repo1,
                           OperationResult.Tag = Repository.Tag repo1\<rparr>
                       else Panic)"
    using T1 [THEN conjunct2, THEN conjunct1, rule_format, of lock_both "entry_of other_sha" head_sha]
      m(2) e1 resolve_repo1 [of lock_both] len sha
    by simp
  then have B: "snd (syncRepository sync_world ?m repo1) = Ret ?r1"
    by (simp add: r s sha len)
  have "snd (syncRepository sync_world ?m repo3)
          = (if ui ?m = None \<or> 8 \<le> length ''sha256-of-success''
                       then Ret \<lparr>OperationResult.RepoName = Repository.Name repo3,
                           OperationResult.RepoURL = Repository.URL repo3, Success = True,
                           OperationResult.Error = None,
                           OperationResult.Duration = Since sync_world (Repository.Name repo3),
                           CommitSHA = ''sha256-of-success'',
                           OperationResult.Branch = Repository.Branch repo3,
                           OperationResult.Tag = Repository.Tag repo3\<rparr>
                       else Panic)"
    using T3 [THEN conjunct2, THEN conjunct2, THEN conjunct1, rule_format,
        of lock_both ?e3 "''sha256-of-success''"]
      m(2) e3 resolve_repo3 [of lock_both]
    by simp
  then have C: "snd (syncRepository sync_world ?m repo3) = Ret ?r3"
    by (simp add: r s)
  have "syncRepository sync_world bare_locked_manager repo1
          = (ui_send bare_locked_manager
               (CreateProgressMsg (Repository.Name repo1) (Repository.URL repo1)
                  PhaseInit ''Starting...'')
               @ fst (resolveRef sync_world bare_locked_manager repo1)
               @ (if ui bare_locked_manager = None \<or> length head_sha < 8 then []
                  else [EUISend (CreateCompletedMsg (Repository.Name repo1)
                          (Repository.URL repo1) (''Synced at '' @ take 8 head_sha))]),
             if ui bare_locked_manager = None \<or> 8 \<le> length head_sha
                       then Ret \<lparr>OperationResult.RepoName = Repository.Name repo1,
                           OperationResult.RepoURL = Repository.URL repo1, Success = True,
                           OperationResult.Error = None,
                           OperationResult.Duration = Since sync_world (Repository.Name repo1),
                           CommitSHA = head_sha,
                           OperationResult.Branch = Repository.Branch repo1,
                           OperationResult.Tag = Repository.Tag repo1\<rparr>
                       else Panic)"
    using T4 [THEN conjunct2, THEN conjunct2, THEN conjunct2, THEN conjunct1, rule_format,
        of head_sha]
      bm(2) resolve_repo1_bare
    by simp
  then have D: "snd (syncRepository sync_world bare_locked_manager repo1)
       = Ret \<lparr>OperationResult.RepoName = ''repo1'', RepoURL = ''https://example.com/1.git'',
              Success = True, Error = None, Duration = 0, CommitSHA = head_sha,
              Branch = [], Tag = []\<rparr>"
    by (simp add: r s len)
  have mk: "MkdirAll sync_world (workDir ?m) = None"
    by (simp add: sync_world_def calm_world_def)
  have sel: "getRepositories sync_world ?m all_filter = Inr [repo1, repo2, repo3]"
    by (simp add: getRepositories_def all_filter_def zero_filter_def m(4) test_config_def)
  have ui_eq: "?m = (case ui ?m of
                 None \<Rightarrow> ?m\<lparr>ui := Some (fst (Start (NewProgressManager
                                                      (RepositoryManager.interactive ?m))))\<rparr>
               | Some pm \<Rightarrow> ?m)"
    by (simp add: m(3))
  have j: "join_all (map snd (map (syncRepository sync_world ?m) [repo1, repo2, repo3]))
             = Ret [?r1, ?r2, ?r3]"
    by (simp add: A B C)
  from Sync_run [OF mk sel _ ui_eq j] obtain m' effs report where
    run: "Sync sync_world ?m all_filter = Ret (m', effs, Inr report)"
    and rep: "report = NewSyncResult [?r1, ?r2, ?r3] (Since sync_world [])"
    by auto
  have res: "Results report = [?r1, ?r2, ?r3]"
    by (simp add: rep NewSyncResult_def)
  have E: "lockFile m' = Some lock_both"
    using T1 [THEN conjunct2, THEN conjunct2, THEN conjunct2, THEN conjunct2, rule_format, OF run]
      m(2) by simp
  show ?thesis
    using m(1,2) bm(1,2) e1 e2 e3 D E resolve_repo1 [of lock_both] resolve_repo3 [of lock_both]
      resolve_repo1_bare len sha
    by (simp add: run res)
qed

text \<open>
  C1 as stated fails in three ways, each with a transport that resolves to a revision id.
  With an entry whose resolved reference is empty, the references differ and the task
  succeeds. With no lock file, there is no entry for the repository and the task
  succeeds. With an entry whose resolved reference has seven bytes, the references differ
  and the task panics instead of failing with the mismatch error.
\<close>

theorem locked_mode_counterexample:
  "locked (locked_manager (lock_with []))
   \<and> lockFile (locked_manager (lock_with [])) = Some (lock_with [])
   \<and> Entries (lock_with []) (Repository.Name repo1) = Some (entry_of [])
   \<and> snd (resolveRef sync_world (locked_manager (lock_with [])) repo1) = Inr head_sha
   \<and> head_sha \<noteq> LockEntry.ResolvedSHA (entry_of [])
   \<and> snd (syncRepository sync_world (locked_manager (lock_with [])) repo1)
       = Ret \<lparr>OperationResult.RepoName = ''repo1'', RepoURL = ''https://example.com/1.git'',
              Success = True, Error = None, Duration = 0, CommitSHA = head_sha,
              Branch = [], Tag = []\<rparr>
   \<and> locked bare_locked_manager \<and> lockFile bare_locked_manager = None
   \<and> snd (syncRepository sync_world bare_locked_manager repo1)
       = Ret \<lparr>OperationResult.RepoName = ''repo1'', RepoURL = ''https://example.com/1.git'',
              Success = True, Error = None, Duration = 0, CommitSHA = head_sha,
              Branch = [], Tag = []\<rparr>
   \<and> locked (locked_manager (lock_with ''deadbee''))
   \<and> Entries (lock_with ''deadbee'') (Repository.Name repo1) = Some (entry_of ''deadbee'')
   \<and> snd (resolveRef sync_world (locked_manager (lock_with ''deadbee'')) repo1) = Inr head_sha
   \<and> head_sha \<noteq> LockEntry.ResolvedSHA (entry_of ''deadbee'')
   \<and> snd (syncRepository sync_world (locked_manager (lock_with ''deadbee'')) repo1) = Panic"
proof -
  let ?m = "locked_manager (lock_with [])"
  let ?k = "locked_manager (lock_with ''deadbee'')"
  have m: "locked (locked_manager lf)" "lockFile (locked_manager lf) = Some lf"
    "ui (locked_manager lf) = Some (fst (Start (NewProgressManager True)))" for lf
    by (simp_all add: locked_manager_def NewRepositoryManager_def WithLockFile_def
        WithLocked_def WithUI_def)
  have bm: "locked bare_locked_manager" "lockFile bare_locked_manager = None"
    "ui bare_locked_manager = Some (fst (Start (NewProgressManager True)))"
    by (simp_all add: bare_locked_manager_def NewRepositoryManager_def WithLocked_def WithUI_def)
  have e: "Entries (lock_with x) (Repository.Name repo1) = Some (entry_of x)"
    "LockEntry.ResolvedSHA (entry_of x) = x" for x
    by (simp_all add: lock_with_def entry_of_def empty_lock_def Update_def repo1_def zero_repo_def)
  have r: "Repository.Name repo1 = ''repo1''" "Repository.URL repo1 = ''https://example.com/1.git''"
    "Repository.Branch repo1 = []" "Repository.Tag repo1 = []"
    by (simp_all add: repo1_def zero_repo_def)
  have s: "Since sync_world ''repo1'' = 0" "slice_to head_sha 8 = Ret ''01234567''" "head_sha \<noteq> []"
    "slice_to ''deadbee'' 8 = Panic" "head_sha \<noteq> ''deadbee''"
    by (simp_all add: sync_world_def calm_world_def slice_to_def head_sha_def)
  have A: "snd (syncRepository sync_world ?m repo1)
       = Ret \<lparr>OperationResult.RepoName = ''repo1'', RepoURL = ''https://example.com/1.git'',
              Success = True, Error = None, Duration = 0, CommitSHA = head_sha,
              Branch = [], Tag = []\<rparr>"
    using e(1) [of "[]"]
    by (simp add: syncRepository_def resolve_repo1 GetResolvedSHA_def Let_def m e(2) r s)
  have B: "snd (syncRepository sync_world bare_locked_manager repo1)
       = Ret \<lparr>OperationResult.RepoName = ''repo1'', RepoURL = ''https://example.com/1.git'',
              Success = True, Error = None, Duration = 0, CommitSHA = head_sha,
              Branch = [], Tag = []\<rparr>"
    by (simp add: syncRepository_def resolve_repo1_bare Let_def bm r s)
  have C: "snd (syncRepository sync_world ?k repo1) = Panic"
    using e(1) [of "''deadbee''"]
    by (simp add: syncRepository_def resolve_repo1 GetResolvedSHA_def Let_def m e(2) s)
  show ?thesis using A B C m bm e s by (simp add: resolve_repo1)
qed

subsection \<open>Where the code departs from the specification\<close>

lemma http_update_source_not_set:
  assumes "Repository.Type repo = RepoTypeHTTP" and "Exists w (getRepoPath w m repo)"
  shows "snd (resolveRef w m repo) = Inl ErrSourceNotSet"
  using assms
  by (simp add: resolveRef_def NewFromRepository_def New_def NewHTTPDownloader_def
      HTTP_UpdateWithProgress_def RepoTypeGit_def RepoTypeHTTP_def Let_def)

text \<open>
  C4 fails on the code. \<^verbatim>\<open>syncRepository\<close> builds a new downloader for every task, and a
  new \<^verbatim>\<open>HTTPDownloader\<close> has no source, so \<^verbatim>\<open>UpdateWithProgress\<close> refuses: every sync
  of a plain-file repository whose destination exists fails with "source URL not set",
  the first as well as the second.
\<close>

theorem http_resync_fails:
  "Exists synced_world (getRepoPath synced_world test_manager_ui repo3)
   \<and> Repository.Type repo3 = RepoTypeHTTP
   \<and> snd (syncRepository synced_world test_manager_ui repo3)
       = Ret \<lparr>OperationResult.RepoName = ''repo3'', RepoURL = ''https://example.com/3.bin'',
              Success = False, Error = Some ErrSourceNotSet, Duration = 0, CommitSHA = [],
              Branch = [], Tag = []\<rparr>"
proof -
  have t: "Repository.Type repo3 = RepoTypeHTTP"
    by (simp add: repo3_def zero_repo_def)
  have e: "Exists synced_world (getRepoPath synced_world test_manager_ui repo3)"
    by (simp add: Exists_def synced_world_def)
  have m: "locked test_manager_ui = False"
    by (simp add: test_manager_ui_def test_manager_def NewRepositoryManager_def WithLockFile_def)
  have r: "Repository.Name repo3 = ''repo3''" "Repository.URL repo3 = ''https://example.com/3.bin''"
    "Repository.Branch repo3 = []" "Repository.Tag repo3 = []"
    by (simp_all add: repo3_def zero_repo_def)
  have s: "Since synced_world ''repo3'' = 0"
    by (simp add: synced_world_def sync_world_def calm_world_def)
  have "snd (syncRepository synced_world test_manager_ui repo3)
       = Ret \<lparr>OperationResult.RepoName = ''repo3'', RepoURL = ''https://example.com/3.bin'',
              Success = False, Error = Some ErrSourceNotSet, Duration = 0, CommitSHA = [],
              Branch = [], Tag = []\<rparr>"
    by (simp add: syncRepository_def http_update_source_not_set [OF t e] m r s Let_def)
  then show ?thesis using t e by simp
qed

text \<open>
  C10 fails on the code. In locked mode, with a lock entry whose resolved reference is
  \<^verbatim>\<open>abc123\<close> and a transport that resolves to a revision id, the task reaches the
  mismatch branch and \<^verbatim>\<open>targetSHA[:8]\<close> panics.
\<close>

theorem short_lock_entry_panics:
  "Entries (lock_with ''abc123'') (Repository.Name repo1) = Some (entry_of ''abc123'')
   \<and> snd (resolveRef sync_world (locked_manager (lock_with ''abc123'')) repo1) = Inr head_sha
   \<and> snd (syncRepository sync_world (locked_manager (lock_with ''abc123'')) repo1) = Panic"
proof -
  let ?m = "locked_manager (lock_with ''abc123'')"
  have m: "locked ?m" "lockFile ?m = Some (lock_with ''abc123'')"
    by (simp_all add: locked_manager_def NewRepositoryManager_def WithLockFile_def
        WithLocked_def WithUI_def)
  have e: "Entries (lock_with ''abc123'') (Repository.Name repo1) = Some (entry_of ''abc123'')"
    "LockEntry.ResolvedSHA (entry_of ''abc123'') = ''abc123''"
    by (simp_all add: lock_with_def entry_of_def empty_lock_def Update_def repo1_def zero_repo_def)
  have s: "slice_to ''abc123'' 8 = Panic" "head_sha \<noteq> ''abc123''"
    by (simp_all add: slice_to_def head_sha_def)
  have "snd (syncRepository sync_world ?m repo1) = Panic"
    using e(1) by (simp add: syncRepository_def resolve_repo1 GetResolvedSHA_def Let_def m e(2) s)
  then show ?thesis using e(1) by (simp add: resolve_repo1)
qed

lemmas git_defs = Git_Download_def Git_DownloadWithProgress_def clone_goroutine_def
  clone_flags_def checkoutRef_def getHeadSHA_def run_err_def NewGitDownloader_def
  branch_only_def zero_options_def calm_proc_def

text \<open>
  C7 fails on the code. For the branch selector alone, \<^verbatim>\<open>Download\<close> runs
  \<^verbatim>\<open>git checkout --force origin/<branch>\<close> after the clone and \<^verbatim>\<open>DownloadWithProgress\<close>
  does not; where that checkout fails, \<^verbatim>\<open>Download\<close> returns its error and
  \<^verbatim>\<open>DownloadWithProgress\<close> completes with the revision of the clone.
\<close>

theorem Download_differs_from_DownloadWithProgress:
  "fst (snd (Git_Download sync_world branch_only ''src'' ''dst''))
     = [EGit [''clone'', ''--branch'', ''v1.0'', ''--single-branch'', ''src'', ''dst''] [],
        EGit [''checkout'', ''--force'', ''origin/v1.0''] ''dst'',
        EGit [''rev-parse'', ''HEAD''] ''dst'']
   \<and> background (snd (Git_DownloadWithProgress sync_world branch_only ''src'' ''dst''))
     = [EGit [''clone'', ''--progress'', ''--branch'', ''v1.0'', ''--single-branch'', ''src'', ''dst''] [],
        EGit [''rev-parse'', ''HEAD''] ''dst'']
   \<and> snd (snd (Git_Download no_remote_branch_world branch_only ''src'' ''dst''))
     = Inl (ErrCheckout ''origin/v1.0'' (ErrExternal ''exit status 1'') [])
   \<and> channel (snd (Git_DownloadWithProgress no_remote_branch_world branch_only ''src'' ''dst''))
     = Some [Send (progress_update PhaseConnecting ''Connecting to remote...''),
             Send (progress_update PhaseFetching ''Cloning repository...''),
             Send (progress_update PhaseComplete head_sha), Close]"
  by (simp add: git_defs sync_world_def no_remote_branch_world_def calm_world_def Let_def)

subsection \<open>Bounded concurrency\<close>

lemma count_list_update:
  "i < length xs \<Longrightarrow>
   count_list (xs[i := b]) c + (if xs ! i = c then 1 else 0)
     = count_list xs c + (if b = c then 1 else 0)"
proof (induction xs arbitrary: i)
  case Nil
  then show ?case by simp
next
  case (Cons x xs)
  show ?case
  proof (cases i)
    case 0
    then show ?thesis by auto
  next
    case (Suc j)
    then have "j < length xs" using Cons.prems by simp
    from Cons.IH [OF this] show ?thesis using Suc by auto
  qed
qed

lemma count_list_pos: "count_list xs a > 0 \<Longrightarrow> \<exists>i < length xs. xs ! i = a"
  by (metis count_list_0_iff in_set_conv_nth less_numeral_extra(3))

lemma count_list_nth: "i < length xs \<Longrightarrow> xs ! i = a \<Longrightarrow> count_list xs a > 0"
  by (metis count_list_0_iff nth_mem not_gr_zero)

lemma sched_inv_init: "sched_inv N n (init n)"
  by (simp add: sched_inv_def init_def list_all_iff)

lemma count_move:
  assumes "i < length xs" and "xs ! i = a" and "a \<noteq> b"
  shows "count_list (xs[i := b]) a + 1 = count_list xs a"
    and "count_list (xs[i := b]) b = count_list xs b + 1"
    and "c \<noteq> a \<Longrightarrow> c \<noteq> b \<Longrightarrow> count_list (xs[i := b]) c = count_list xs c"
  using count_list_update [OF assms(1), of b a] count_list_update [OF assms(1), of b b]
    count_list_update [OF assms(1), of b c] assms(2,3)
  by auto

lemma move_counts:
  assumes "i < length xs" and "xs ! i = a" and "a \<noteq> b"
  shows "count_list (xs[i := b]) c
           = (if c = b then count_list xs c + 1
              else if c = a then count_list xs c - 1 else count_list xs c)"
    and "count_list xs a > 0"
proof -
  show pos: "count_list xs a > 0" using assms(1,2) by (rule count_list_nth)
  show "count_list (xs[i := b]) c
           = (if c = b then count_list xs c + 1
              else if c = a then count_list xs c - 1 else count_list xs c)"
    using count_move(1,2) [OF assms] count_move(3) [OF assms, of c] pos
    by (cases "c = b"; cases "c = a") auto
qed

lemma sched_invD:
  assumes "sched_inv N n s"
  shows "length (pcs s) = n" and "next_i s \<le> n"
    and "\<And>j. j < n \<Longrightarrow> (pcs s ! j = NotSpawned) = (next_i s \<le> j)"
    and "sem s = count_list (pcs s) Running + count_list (pcs s) Completed"
    and "sem s \<le> N"
    and "wg s = count_list (pcs s) Waiting + count_list (pcs s) Running
                 + count_list (pcs s) Completed + count_list (pcs s) Released"
    and "returned s \<Longrightarrow> pcs s = replicate n Finished"
  using assms by (auto simp add: sched_inv_def list_all_iff split: if_splits)

lemma sched_invI:
  assumes "length (pcs s) = n" and "next_i s \<le> n"
    and "\<And>j. j < n \<Longrightarrow> (pcs s ! j = NotSpawned) = (next_i s \<le> j)"
    and "sem s = count_list (pcs s) Running + count_list (pcs s) Completed"
    and "sem s \<le> N"
    and "wg s = count_list (pcs s) Waiting + count_list (pcs s) Running
                 + count_list (pcs s) Completed + count_list (pcs s) Released"
    and "returned s \<Longrightarrow> pcs s = replicate n Finished"
  shows "sched_inv N n s"
  using assms by (auto simp add: sched_inv_def list_all_iff)

lemma not_returned:
  assumes "sched_inv N n s" and "i < length (pcs s)" and "pcs s ! i \<noteq> Finished"
  shows "\<not> returned s"
proof
  assume "returned s"
  then have "pcs s = replicate n Finished" using assms(1) by (rule sched_invD(7) [rotated])
  then show False using assms(2,3) by simp
qed

text \<open>A goroutine that has been spawned moves from one program point to the next.\<close>

lemma move_inv:
  assumes inv: "sched_inv N n s"
    and at: "i < length (pcs s)" "pcs s ! i = a"
    and ab: "a \<noteq> b" "a \<noteq> Finished" "a \<noteq> NotSpawned" "b \<noteq> NotSpawned"
    and p: "pcs s' = (pcs s)[i := b]" "next_i s' = next_i s" "returned s' = returned s"
    and sm: "sem s' + count_list (pcs s) Running + count_list (pcs s) Completed
               = sem s + count_list (pcs s') Running + count_list (pcs s') Completed"
      "sem s' \<le> N"
    and w: "wg s' + count_list (pcs s) Waiting + count_list (pcs s) Running
                 + count_list (pcs s) Completed + count_list (pcs s) Released
             = wg s + count_list (pcs s') Waiting + count_list (pcs s') Running
                 + count_list (pcs s') Completed + count_list (pcs s') Released"
  shows "sched_inv N n s'"
proof (rule sched_invI)
  note D = sched_invD [OF inv]
  show "length (pcs s') = n" using D(1) p(1) by simp
  show "next_i s' \<le> n" using D(2) p(2) by simp
  show "(pcs s' ! j = NotSpawned) = (next_i s' \<le> j)" if "j < n" for j
  proof (cases "j = i")
    case True
    then have "pcs s' ! j = b" using at(1) p(1) by simp
    moreover have "\<not> next_i s \<le> i" using D(3) [of i] at ab(3) D(1) by auto
    ultimately show ?thesis using ab(4) True p(2) by simp
  next
    case False
    then have "pcs s' ! j = pcs s ! j" using p(1) by simp
    then show ?thesis using D(3) [OF that] p(2) by simp
  qed
  show "sem s' = count_list (pcs s') Running + count_list (pcs s') Completed"
    using sm(1) D(4) by linarith
  show "sem s' \<le> N" by (rule sm(2))
  show "wg s' = count_list (pcs s') Waiting + count_list (pcs s') Running
                 + count_list (pcs s') Completed + count_list (pcs s') Released"
    using w D(6) by linarith
  show "pcs s' = replicate n Finished" if "returned s'"
  proof -
    have "\<not> returned s" using not_returned [OF inv at(1)] at(2) ab(2) by simp
    then show ?thesis using that p(3) by simp
  qed
qed

lemma fire_inv:
  assumes inv: "sched_inv N n s" and "fire N e s = Some s'"
  shows "sched_inv N n s'"
proof (cases e)
  case Spawn
  then have lt: "next_i s < length (pcs s)"
    and s': "s' = s\<lparr>pcs := (pcs s)[next_i s := Waiting], wg := wg s + 1, next_i := next_i s + 1\<rparr>"
    using assms(2) by (auto split: if_splits)
  note D = sched_invD [OF inv]
  have at: "pcs s ! next_i s = NotSpawned" using D(3) [of "next_i s"] lt D(1) by simp
  have nr: "\<not> returned s" using not_returned [OF inv lt] at by simp
  note mv = move_counts(1) [OF lt at, of Waiting]
  show ?thesis
  proof (rule sched_invI)
    show "length (pcs s') = n" using D(1) by (simp add: s')
    show "next_i s' \<le> n" using lt D(1) by (simp add: s')
    show "(pcs s' ! j = NotSpawned) = (next_i s' \<le> j)" if "j < n" for j
    proof (cases "j = next_i s")
      case True
      then show ?thesis using lt by (simp add: s')
    next
      case False
      then have "pcs s' ! j = pcs s ! j" by (simp add: s')
      then show ?thesis using D(3) [OF that] False by (auto simp add: s')
    qed
    show "sem s' = count_list (pcs s') Running + count_list (pcs s') Completed"
      using D(4) by (simp add: s' mv)
    show "sem s' \<le> N" using D(5) by (simp add: s')
    show "wg s' = count_list (pcs s') Waiting + count_list (pcs s') Running
                 + count_list (pcs s') Completed + count_list (pcs s') Released"
      using D(6) by (simp add: s' mv)
    show "pcs s' = replicate n Finished" if "returned s'"
      using that nr by (simp add: s')
  qed
next
  case (Acquire i)
  then have at: "i < length (pcs s)" "pcs s ! i = Waiting" and room: "sem s < N"
    and s': "s' = s\<lparr>pcs := (pcs s)[i := Running], sem := sem s + 1\<rparr>"
    using assms(2) by (auto simp add: at_pc_def split: if_splits)
  note mv = move_counts [OF at, of Running]
  show ?thesis
    using room mv(2) by (intro move_inv [OF inv at, of Running]) (simp_all add: s' mv(1))
next
  case (Complete i)
  then have at: "i < length (pcs s)" "pcs s ! i = Running"
    and s': "s' = s\<lparr>pcs := (pcs s)[i := Completed]\<rparr>"
    using assms(2) by (auto simp add: at_pc_def split: if_splits)
  note mv = move_counts [OF at, of Completed]
  note D = sched_invD [OF inv]
  show ?thesis
    using D(5) mv(2) by (intro move_inv [OF inv at, of Completed]) (simp_all add: s' mv(1))
next
  case (Release i)
  then have at: "i < length (pcs s)" "pcs s ! i = Completed" and pos: "sem s > 0"
    and s': "s' = s\<lparr>pcs := (pcs s)[i := Released], sem := sem s - 1\<rparr>"
    using assms(2) by (auto simp add: at_pc_def split: if_splits)
  note mv = move_counts [OF at, of Released]
  note D = sched_invD [OF inv]
  show ?thesis
    using D(5) mv(2) pos by (intro move_inv [OF inv at, of Released]) (simp_all add: s' mv(1))
next
  case (Done i)
  then have at: "i < length (pcs s)" "pcs s ! i = Released" and pos: "wg s > 0"
    and s': "s' = s\<lparr>pcs := (pcs s)[i := Finished], wg := wg s - 1\<rparr>"
    using assms(2) by (auto simp add: at_pc_def split: if_splits)
  note mv = move_counts [OF at, of Finished]
  note D = sched_invD [OF inv]
  show ?thesis
    using D(5) mv(2) pos by (intro move_inv [OF inv at, of Finished]) (simp_all add: s' mv(1))
next
  case Return
  then have g: "next_i s = length (pcs s)" "wg s = 0" "\<not> returned s"
    and s': "s' = s\<lparr>returned := True\<rparr>"
    using assms(2) by (auto split: if_splits)
  note D = sched_invD [OF inv]
  have zero: "count_list (pcs s) Waiting = 0" "count_list (pcs s) Running = 0"
    "count_list (pcs s) Completed = 0" "count_list (pcs s) Released = 0"
    using D(6) g(2) by simp_all
  have fin: "pcs s ! j = Finished" if "j < n" for j
  proof -
    have a: "pcs s ! j \<noteq> NotSpawned" using D(3) [OF that] g(1) D(1) that by simp
    have b: "pcs s ! j \<noteq> c" if "count_list (pcs s) c = 0" for c
      using count_list_nth [of j "pcs s" c] \<open>j < n\<close> D(1) that by auto
    show ?thesis using a b [OF zero(1)] b [OF zero(2)] b [OF zero(3)] b [OF zero(4)]
      by (cases "pcs s ! j") simp_all
  qed
  have all: "pcs s = replicate n Finished"
    using D(1) fin by (auto intro!: nth_equalityI)
  show ?thesis
  proof (rule sched_invI)
    show "length (pcs s') = n" using D(1) by (simp add: s')
    show "next_i s' \<le> n" using D(2) by (simp add: s')
    show "(pcs s' ! j = NotSpawned) = (next_i s' \<le> j)" if "j < n" for j
      using D(3) [OF that] by (simp add: s')
    show "sem s' = count_list (pcs s') Running + count_list (pcs s') Completed"
      using D(4) by (simp add: s')
    show "sem s' \<le> N" using D(5) by (simp add: s')
    show "wg s' = count_list (pcs s') Waiting + count_list (pcs s') Running
                 + count_list (pcs s') Completed + count_list (pcs s') Released"
      using D(6) by (simp add: s')
    show "pcs s' = replicate n Finished" if "returned s'"
      using all by (simp add: s')
  qed
qed

lemma run_inv: "sched_inv N n s \<Longrightarrow> run N evs s = Some s' \<Longrightarrow> sched_inv N n s'"
proof (induction evs arbitrary: s)
  case Nil
  then show ?case by simp
next
  case (Cons e evs)
  then show ?case by (auto split: option.splits dest: fire_inv)
qed

lemma enabled:
  assumes inv: "sched_inv N n s" and N: "1 \<le> N" and nr: "\<not> returned s"
  shows "\<exists>e s'. fire N e s = Some s'"
proof -
  note D = sched_invD [OF inv]
  consider (spawn) "next_i s < n"
    | (running) "next_i s = n" "count_list (pcs s) Running > 0"
    | (completed) "next_i s = n" "count_list (pcs s) Completed > 0"
    | (released) "next_i s = n" "count_list (pcs s) Released > 0"
    | (waiting) "next_i s = n" "count_list (pcs s) Running = 0"
        "count_list (pcs s) Completed = 0" "count_list (pcs s) Waiting > 0"
    | (idle) "next_i s = n" "count_list (pcs s) Running = 0"
        "count_list (pcs s) Completed = 0" "count_list (pcs s) Released = 0"
        "count_list (pcs s) Waiting = 0"
    using D(2) by (cases "next_i s < n") auto
  then show ?thesis
  proof cases
    case spawn
    then have "fire N Spawn s \<noteq> None" using D(1) by simp
    then show ?thesis by blast
  next
    case running
    from count_list_pos [OF running(2)] obtain i where "at_pc s i Running"
      by (auto simp add: at_pc_def)
    then have "fire N (Complete i) s \<noteq> None" by simp
    then show ?thesis by blast
  next
    case completed
    from count_list_pos [OF completed(2)] obtain i where "at_pc s i Completed"
      by (auto simp add: at_pc_def)
    moreover have "sem s > 0" using D(4) completed(2) by simp
    ultimately have "fire N (Release i) s \<noteq> None" by simp
    then show ?thesis by blast
  next
    case released
    from count_list_pos [OF released(2)] obtain i where "at_pc s i Released"
      by (auto simp add: at_pc_def)
    moreover have "wg s > 0" using D(6) released(2) by simp
    ultimately have "fire N (Done i) s \<noteq> None" by simp
    then show ?thesis by blast
  next
    case waiting
    from count_list_pos [OF waiting(4)] obtain i where "at_pc s i Waiting"
      by (auto simp add: at_pc_def)
    moreover have "sem s < N" using D(4) waiting(2,3) N by simp
    ultimately have "fire N (Acquire i) s \<noteq> None" by simp
    then show ?thesis by blast
  next
    case idle
    then have "wg s = 0" using D(6) by simp
    then have "fire N Return s \<noteq> None" using idle(1) D(1) nr by simp
    then show ?thesis by blast
  qed
qed

text \<open>A goroutine has the permit from \<^verbatim>\<open>sem.acquire()\<close> on, and has given it back from
  \<^verbatim>\<open>sem.release()\<close> on.\<close>

lemma fire_step:
  assumes "fire N e s = Some s'"
  shows "length (pcs s') = length (pcs s)"
    and "pcs s' ! i = pcs s ! i
         \<or> (e = Spawn \<and> pcs s' ! i = Waiting)
         \<or> (e = Acquire i \<and> pcs s ! i = Waiting \<and> pcs s' ! i = Running)
         \<or> (e = Complete i \<and> pcs s ! i = Running \<and> pcs s' ! i = Completed)
         \<or> (e = Release i \<and> pcs s ! i = Completed \<and> pcs s' ! i = Released)
         \<or> (e = Done i \<and> pcs s ! i = Released \<and> pcs s' ! i = Finished)"
proof -
  show "length (pcs s') = length (pcs s)"
    using assms by (cases e) (auto split: if_splits)
  show "pcs s' ! i = pcs s ! i
         \<or> (e = Spawn \<and> pcs s' ! i = Waiting)
         \<or> (e = Acquire i \<and> pcs s ! i = Waiting \<and> pcs s' ! i = Running)
         \<or> (e = Complete i \<and> pcs s ! i = Running \<and> pcs s' ! i = Completed)
         \<or> (e = Release i \<and> pcs s ! i = Completed \<and> pcs s' ! i = Released)
         \<or> (e = Done i \<and> pcs s ! i = Released \<and> pcs s' ! i = Finished)"
  proof (cases e)
    case Spawn
    then show ?thesis using assms
      by (cases "i = next_i s") (auto split: if_splits)
  next
    case (Acquire j)
    then show ?thesis using assms
      by (cases "i = j") (auto simp add: at_pc_def split: if_splits)
  next
    case (Complete j)
    then show ?thesis using assms
      by (cases "i = j") (auto simp add: at_pc_def split: if_splits)
  next
    case (Release j)
    then show ?thesis using assms
      by (cases "i = j") (auto simp add: at_pc_def split: if_splits)
  next
    case (Done j)
    then show ?thesis using assms
      by (cases "i = j") (auto simp add: at_pc_def split: if_splits)
  next
    case Return
    then show ?thesis using assms by (auto split: if_splits)
  qed
qed

lemma run_acquired:
  assumes "run N evs s0 = Some s"
    and "pcs s ! i \<in> {Running, Completed, Released, Finished}"
  shows "pcs s0 ! i \<in> {Running, Completed, Released, Finished} \<or> Acquire i \<in> set evs"
  using assms
proof (induction evs arbitrary: s0)
  case Nil
  then show ?case by simp
next
  case (Cons e es)
  then obtain s1 where f: "fire N e s0 = Some s1" and r: "run N es s1 = Some s"
    by (auto split: option.splits)
  from Cons.IH [OF r Cons.prems(2)]
  show ?case
  proof
    assume "Acquire i \<in> set es"
    then show ?thesis by simp
  next
    assume "pcs s1 ! i \<in> {Running, Completed, Released, Finished}"
    then show ?thesis using fire_step(2) [OF f, of i] by auto
  qed
qed

lemma run_released:
  assumes "run N evs s0 = Some s"
    and "pcs s ! i \<in> {Released, Finished}"
  shows "pcs s0 ! i \<in> {Released, Finished} \<or> Release i \<in> set evs"
  using assms
proof (induction evs arbitrary: s0)
  case Nil
  then show ?case by simp
next
  case (Cons e es)
  then obtain s1 where f: "fire N e s0 = Some s1" and r: "run N es s1 = Some s"
    by (auto split: option.splits)
  from Cons.IH [OF r Cons.prems(2)]
  show ?case
  proof
    assume "Release i \<in> set es"
    then show ?thesis by simp
  next
    assume "pcs s1 ! i \<in> {Released, Finished}"
    then show ?thesis using fire_step(2) [OF f, of i] by auto
  qed
qed

lemma init_pcs: "i < n \<Longrightarrow> pcs (init n) ! i = NotSpawned"
  by (simp add: init_def)

text \<open>
  C9. In every state that the goroutines of one \<^verbatim>\<open>Sync\<close> call can reach, whatever the
  interleaving, with the semaphore's capacity \<open>concurrent m\<close>:
  \<^item> at most \<open>concurrent m\<close> tasks are inside \<^verbatim>\<open>syncRepository\<close>;
  \<^item> the permits taken are exactly those of the tasks between their \<^verbatim>\<open>acquire\<close> and
    their \<^verbatim>\<open>release\<close>; a task inside \<^verbatim>\<open>syncRepository\<close> has acquired, and a finished task
    has acquired and released;
  \<^item> once \<^verbatim>\<open>wg.Wait()\<close> has returned, every task is finished;
  \<^item> with a capacity of at least one, some goroutine can take a step until then (no
    deadlock).
  The capacity is 4 for a manager built without options, and \<^verbatim>\<open>WithConcurrency k\<close> changes
  it only for \<open>k > 0\<close>. The release and \<^verbatim>\<open>wg.Done()\<close> are deferred, so they follow the
  task whatever its result.
\<close>

theorem bounded_concurrency:
  assumes "run (nat (concurrent m)) evs (init (length repos)) = Some s"
  shows "in_flight s \<le> nat (concurrent m)
       \<and> sem s = count_list (pcs s) Running + count_list (pcs s) Completed
       \<and> (\<forall>i < length repos. pcs s ! i = Running \<longrightarrow> Acquire i \<in> set evs)
       \<and> (\<forall>i < length repos. pcs s ! i = Finished
              \<longrightarrow> Acquire i \<in> set evs \<and> Release i \<in> set evs)
       \<and> (returned s \<longrightarrow> pcs s = replicate (length repos) Finished)
       \<and> (1 \<le> concurrent m \<and> \<not> returned s \<longrightarrow> (\<exists>e s'. fire (nat (concurrent m)) e s = Some s'))
       \<and> concurrent (NewRepositoryManager cfg []) = 4
       \<and> concurrent (WithConcurrency k m) = (if k > 0 then k else concurrent m)"
proof -
  have inv: "sched_inv (nat (concurrent m)) (length repos) s"
    using run_inv [OF sched_inv_init assms] .
  note D = sched_invD [OF inv]
  have "in_flight s \<le> nat (concurrent m)"
    using D(4,5) by (simp add: in_flight_def)
  moreover have "\<exists>e s'. fire (nat (concurrent m)) e s = Some s'"
    if "1 \<le> concurrent m" "\<not> returned s"
    using enabled [OF inv _ that(2)] that(1) by simp
  moreover have "concurrent (NewRepositoryManager cfg []) = 4"
    by (simp add: NewRepositoryManager_def)
  moreover have "concurrent (WithConcurrency k m) = (if k > 0 then k else concurrent m)"
    by (simp add: WithConcurrency_def)
  moreover have "Acquire i \<in> set evs" if "i < length repos" "pcs s ! i = Running" for i
    using run_acquired [OF assms, of i] init_pcs [OF that(1)] that(2) by simp
  moreover have "Acquire i \<in> set evs \<and> Release i \<in> set evs"
    if "i < length repos" "pcs s ! i = Finished" for i
    using run_acquired [OF assms, of i] run_released [OF assms, of i] init_pcs [OF that(1)] that(2)
    by simp
  ultimately show ?thesis using D(4,7) by blast
qed

theorem bounded_concurrency_witness:
  "concurrent serial_manager = 1
   \<and> run (nat (concurrent serial_manager))
        [Spawn, Spawn, Acquire 1, Complete 1, Release 1, Acquire 0, Done 1, Complete 0,
         Release 0, Done 0, Return] (init (length [repo1, repo2]))
       = Some \<lparr>pcs = [Finished, Finished], sem = 0, wg = 0, next_i = 2, returned = True\<rparr>
   \<and> in_flight \<lparr>pcs = [Finished, Finished], sem = 0, wg = 0, next_i = 2, returned = True\<rparr> \<le> 1
   \<and> run (nat (concurrent serial_manager)) [Spawn, Spawn, Acquire 1] (init (length [repo1, repo2]))
       = Some \<lparr>pcs = [Waiting, Running], sem = 1, wg = 2, next_i = 2, returned = False\<rparr>
   \<and> fire 1 (Acquire 0) \<lparr>pcs = [Waiting, Running], sem = 1, wg = 2, next_i = 2, returned = False\<rparr>
       = None
   \<and> fire 1 (Complete 1) \<lparr>pcs = [Waiting, Running], sem = 1, wg = 2, next_i = 2, returned = False\<rparr>
       = Some \<lparr>pcs = [Waiting, Completed], sem = 1, wg = 2, next_i = 2, returned = False\<rparr>"
proof -
  have c: "concurrent serial_manager = 1"
    by (simp add: serial_manager_def NewRepositoryManager_def WithConcurrency_def)
  have r1: "run (nat (concurrent serial_manager))
        [Spawn, Spawn, Acquire 1, Complete 1, Release 1, Acquire 0, Done 1, Complete 0,
         Release 0, Done 0, Return] (init (length [repo1, repo2]))
       = Some \<lparr>pcs = [Finished, Finished], sem = 0, wg = 0, next_i = 2, returned = True\<rparr>"
    by (simp add: c init_def at_pc_def numeral_2_eq_2)
  have r2: "run (nat (concurrent serial_manager)) [Spawn, Spawn, Acquire 1] (init (length [repo1, repo2]))
       = Some \<lparr>pcs = [Waiting, Running], sem = 1, wg = 2, next_i = 2, returned = False\<rparr>"
    by (simp add: c init_def at_pc_def numeral_2_eq_2)
  have f: "fire 1 (Acquire 0) \<lparr>pcs = [Waiting, Running], sem = 1, wg = 2, next_i = 2, returned = False\<rparr>
       = None"
    "fire 1 (Complete 1) \<lparr>pcs = [Waiting, Running], sem = 1, wg = 2, next_i = 2, returned = False\<rparr>
       = Some \<lparr>pcs = [Waiting, Completed], sem = 1, wg = 2, next_i = 2, returned = False\<rparr>"
    by (simp_all add: at_pc_def)
  have "in_flight \<lparr>pcs = [Finished, Finished], sem = 0, wg = 0, next_i = 2, returned = True\<rparr> \<le> 1"
    using bounded_concurrency [OF r1] by (simp add: c)
  then show ?thesis using c r1 r2 f by simp
qed

end
